(* ===== verification/Prelude.thy ===== *)
theory Prelude
  imports Main "HOL-Library.Sublist" "HOL-Library.Multiset"
begin

text \<open>
  Shared vocabulary of the development. A Python \<open>str\<close> is a sequence of Unicode
  code points, modelled as \<open>nat list\<close> (\<open>pystr\<close>); ASCII literals are written
  \<open>u ''...''\<close> and other code points as numerals (\<open>[225]\<close> is \<open>\<acute>a\<close>).
  The theory holds the Python string primitives that \<open>src/main.py\<close> calls
  (\<open>str.replace\<close>, \<open>str(int)\<close>, \<open>int(str)\<close>, first-occurrence search), the
  exception type of the program, and the list lemmas the component theories share.
\<close>

type_synonym pystr = "nat list"
type_synonym path = pystr

named_theorems pystr_lit "code-point expansions of the string constants of the model"

definition u :: "string \<Rightarrow> pystr" where
  "u s = map of_char s"

subsection \<open>Exceptions\<close>

text \<open>
  The exceptions \<open>src/main.py\<close> raises or lets through, one constructor per cause.
  \<open>ZeroDivisionError\<close> comes from \<open>len(...) * 100 / self.total_pages\<close>;
  \<open>No_Text_Error\<close> is the \<open>ValueError\<close> of \<open>_clean_text\<close>;
  \<open>Service_Error\<close> is whatever \<open>generate_content\<close> raises; the others are
  the \<open>OSError\<close>s of \<open>open\<close>, \<open>fitz.open\<close>, \<open>Image.open\<close> and \<open>json.load\<close>,
  and the \<open>IndexError\<close> of indexing a document out of range.
\<close>

datatype error =
    Zero_Division_Error
  | No_Text_Error
  | Service_Error
  | Write_Error path
  | Open_Error path
  | Json_Error path
  | Index_Error

subsection \<open>Characters\<close>

definition is_ascii_digit :: "nat \<Rightarrow> bool" where
  "is_ascii_digit c \<longleftrightarrow> 48 \<le> c \<and> c \<le> 57"

text \<open>Python's \<open>str.isspace\<close>, which the regular-expression class \<open>\s\<close> uses on \<open>str\<close>.\<close>

definition is_space :: "nat \<Rightarrow> bool" where
  "is_space c \<longleftrightarrow> (9 \<le> c \<and> c \<le> 13) \<or> (28 \<le> c \<and> c \<le> 32) \<or> c = 133 \<or> c = 160
     \<or> c = 5760 \<or> (8192 \<le> c \<and> c \<le> 8202) \<or> c = 8232 \<or> c = 8233 \<or> c = 8239
     \<or> c = 8287 \<or> c = 12288"

subsection \<open>\<open>str.replace\<close>\<close>

text \<open>
  \<open>s.replace(old, new)\<close> replaces the non-overlapping occurrences of \<open>old\<close> from
  left to right; for an empty \<open>old\<close> CPython puts \<open>new\<close> before every code point
  and at the end.
\<close>

fun replace_nonempty :: "pystr \<Rightarrow> pystr \<Rightarrow> pystr \<Rightarrow> pystr" where
  "replace_nonempty old new [] = []"
| "replace_nonempty old new (c # s) =
     (if old \<noteq> [] \<and> prefix old (c # s)
      then new @ replace_nonempty old new (drop (length old - 1) s)
      else c # replace_nonempty old new s)"

definition py_replace :: "pystr \<Rightarrow> pystr \<Rightarrow> pystr \<Rightarrow> pystr" where
  "py_replace old new s =
     (if old = [] then concat (map (\<lambda>c. new @ [c]) s) @ new else replace_nonempty old new s)"

subsection \<open>Where a pattern can start\<close>

text \<open>
  \<open>no_start_of m s\<close>: no occurrence of \<open>m\<close> can begin inside \<open>s\<close>, whatever text
  follows \<open>s\<close> (no suffix of \<open>s\<close> starts with \<open>m\<close> or is a prefix of it). A
  regular-expression scan that looks for \<open>m\<close> passes over such a text.
\<close>

fun no_start_of :: "pystr \<Rightarrow> pystr \<Rightarrow> bool" where
  "no_start_of m [] = True"
| "no_start_of m (c # s) = (\<not> prefix m (c # s) \<and> \<not> prefix (c # s) m \<and> no_start_of m s)"

subsection \<open>First occurrence of a pattern\<close>

text \<open>
  \<open>split_first pat s\<close> is \<open>Some (pre, post)\<close> with \<open>s = pre @ pat @ post\<close> for the
  first occurrence of \<open>pat\<close> in \<open>s\<close>, \<open>None\<close> when there is none: the search a
  lazy \<open>.*?\<close> followed by a literal performs.
\<close>

fun split_first :: "pystr \<Rightarrow> pystr \<Rightarrow> (pystr \<times> pystr) option" where
  "split_first pat [] = (if pat = [] then Some ([], []) else None)"
| "split_first pat (c # s) =
     (if prefix pat (c # s) then Some ([], drop (length pat) (c # s))
      else map_option (\<lambda>(pre, post). (c # pre, post)) (split_first pat s))"

subsection \<open>Decimal numerals: \<open>str(n)\<close> and \<open>int(s)\<close>\<close>

fun str_nat :: "nat \<Rightarrow> pystr" where
  "str_nat n = (if n < 10 then [48 + n] else str_nat (n div 10) @ [48 + n mod 10])"

definition str_int :: "int \<Rightarrow> pystr" where
  "str_int i = (if i < 0 then 45 # str_nat (nat (- i)) else str_nat (nat i))"

text \<open>\<open>int(s)\<close> on a string of ASCII digits (the strings \<open>\d+\<close> captures here).\<close>

definition digits_val :: "pystr \<Rightarrow> nat" where
  "digits_val ds = foldl (\<lambda>acc d. 10 * acc + (d - 48)) 0 ds"

lemma u_Nil [simp]: "u [] = []"
  and u_Cons [simp]: "u (c # s) = of_char c # u s"
  and u_append [simp]: "u (s @ t) = u s @ u t"
  by (simp_all add: u_def)

declare replace_nonempty.simps [simp del]

lemma replace_nonempty_Nil [simp]: "replace_nonempty old new [] = []"
  by (simp add: replace_nonempty.simps)

lemma replace_nonempty_match:
  "old \<noteq> [] \<Longrightarrow> replace_nonempty old new (old @ s) = new @ replace_nonempty old new s"
  by (cases old) (simp_all add: replace_nonempty.simps)

lemma replace_nonempty_nomatch:
  "\<not> prefix old (c # s) \<Longrightarrow> replace_nonempty old new (c # s) = c # replace_nonempty old new s"
  by (simp add: replace_nonempty.simps)

lemma replace_nonempty_absent:
  "\<not> sublist old s \<Longrightarrow> replace_nonempty old new s = s"
proof (induction s)
  case Nil
  then show ?case by simp
next
  case (Cons c s)
  then have "\<not> prefix old (c # s)" and "\<not> sublist old s"
    by (auto simp: sublist_Cons_right)
  with Cons.IH show ?case by (simp add: replace_nonempty_nomatch)
qed

lemma py_replace_absent:
  "old \<noteq> [] \<Longrightarrow> \<not> sublist old s \<Longrightarrow> py_replace old new s = s"
  by (simp add: py_replace_def replace_nonempty_absent)

lemma set_replace_nonempty: "set (replace_nonempty old new s) \<subseteq> set s \<union> set new"
proof (induction old new s rule: replace_nonempty.induct)
  case (1 old new)
  then show ?case by simp
next
  case (2 old new c s)
  have "set (drop (length old - 1) s) \<subseteq> set s" by (rule set_drop_subset)
  with 2 show ?case
    by (auto simp: replace_nonempty.simps(2) [of old new c s] split: if_splits)
qed

text \<open>A code point that neither the text nor the replacement holds is not in the result.\<close>

lemma py_replace_keeps_out:
  "c \<notin> set s \<Longrightarrow> c \<notin> set new \<Longrightarrow> c \<notin> set (py_replace old new s)"
  using set_replace_nonempty [of old new s] by (auto simp: py_replace_def)

text \<open>Replacing a single code point removes every occurrence of it.\<close>

lemma replace_single_removes:
  "c \<notin> set new \<Longrightarrow> c \<notin> set (replace_nonempty [c] new s)"
proof (induction s)
  case Nil
  then show ?case by simp
next
  case (Cons d s)
  then show ?case
    by (auto simp: replace_nonempty.simps(2) [of "[c]" new d s])
qed

lemma py_replace_single_removes:
  "c \<notin> set new \<Longrightarrow> c \<notin> set (py_replace [c] new s)"
  by (simp add: py_replace_def replace_single_removes)

lemma py_replace_absent_char:
  "c \<in> set old \<Longrightarrow> c \<notin> set s \<Longrightarrow> py_replace old new s = s"
  by (rule py_replace_absent) (auto dest: set_mono_sublist)

lemma no_start_of_not_prefix:
  "no_start_of m (c # s) \<Longrightarrow> \<not> prefix m ((c # s) @ r)"
proof
  assume ns: "no_start_of m (c # s)" and p: "prefix m ((c # s) @ r)"
  have "prefix (c # s) ((c # s) @ r)" by simp
  with p have "prefix m (c # s) \<or> prefix (c # s) m" by (rule prefix_same_cases)
  with ns show False by simp
qed

lemma no_start_of_append:
  "no_start_of m a \<Longrightarrow> no_start_of m b \<Longrightarrow> no_start_of m (a @ b)"
proof (induction a)
  case Nil
  then show ?case by simp
next
  case (Cons c a)
  have "\<not> prefix m ((c # a) @ b)"
    using Cons.prems(1) by (rule no_start_of_not_prefix)
  moreover have "\<not> prefix ((c # a) @ b) m"
    using Cons.prems(1) append_prefixD by fastforce
  ultimately show ?case using Cons by simp
qed

lemma no_start_of_hd:
  "m \<noteq> [] \<Longrightarrow> hd m \<notin> set s \<Longrightarrow> no_start_of m s"
proof (induction s)
  case Nil
  then show ?case by simp
next
  case (Cons c s)
  then show ?case by (cases m) auto
qed

lemma no_start_of_sep:
  assumes "m \<noteq> []" and "x \<notin> set m" and "\<not> sublist m a" and "no_start_of m b"
  shows "no_start_of m (a @ x # b)"
  using assms(3)
proof (induction a)
  case Nil
  from assms(1,2,4) show ?case by (cases m) auto
next
  case (Cons c a)
  have np: "\<not> prefix m ((c # a) @ x # b)"
  proof
    assume "prefix m ((c # a) @ x # b)"
    then consider "prefix m (c # a)" | us where "m = (c # a) @ us" and "prefix us (x # b)"
      using prefix_append [of m "c # a" "x # b"] by blast
    then show False
    proof cases
      case 1
      with Cons.prems show ?thesis by (auto dest: prefix_imp_sublist)
    next
      case 2
      show ?thesis
      proof (cases us)
        case Nil
        with 2 Cons.prems show ?thesis by simp
      next
        case (Cons d us')
        with 2 assms(2) show ?thesis by auto
      qed
    qed
  qed
  have "\<not> prefix ((c # a) @ x # b) m"
    using assms(2) by (auto dest: set_mono_prefix)
  moreover have "\<not> sublist m a"
    using Cons.prems by (auto simp: sublist_Cons_right)
  ultimately show ?case using np Cons.IH by simp
qed

lemma sublist_sep:
  "x \<notin> set p \<Longrightarrow> sublist p (a @ x # b) \<Longrightarrow> sublist p a \<or> sublist p b"
proof -
  assume x: "x \<notin> set p" and s: "sublist p (a @ x # b)"
  from s consider "sublist p a" | "sublist p (x # b)"
    | p1 p2 where "p = p1 @ p2" and "suffix p1 a" and "prefix p2 (x # b)"
    by (auto simp: sublist_append)
  then show ?thesis
  proof cases
    case 1
    then show ?thesis ..
  next
    case 2
    show ?thesis
    proof (cases p)
      case Nil
      then show ?thesis by simp
    next
      case (Cons d p')
      with 2 x show ?thesis by (auto simp: sublist_Cons_right)
    qed
  next
    case 3
    show ?thesis
    proof (cases p2)
      case Nil
      with 3 show ?thesis by (auto dest: suffix_imp_sublist)
    next
      case (Cons d p2')
      with 3 x show ?thesis by auto
    qed
  qed
qed

lemma sublist_skip_hd:
  "p \<noteq> [] \<Longrightarrow> hd p \<notin> set a \<Longrightarrow> sublist p (a @ b) \<Longrightarrow> sublist p b"
proof -
  assume p: "p \<noteq> []" and h: "hd p \<notin> set a" and s: "sublist p (a @ b)"
  from s consider "sublist p a" | "sublist p b"
    | p1 p2 where "p = p1 @ p2" and "suffix p1 a" and "prefix p2 b"
    by (auto simp: sublist_append)
  then show ?thesis
  proof cases
    case 1
    with p h show ?thesis by (auto dest!: set_mono_sublist simp: neq_Nil_conv)
  next
    case 2
    then show ?thesis .
  next
    case 3
    show ?thesis
    proof (cases p1)
      case Nil
      with 3 show ?thesis by (auto dest: prefix_imp_sublist)
    next
      case (Cons d p1')
      with 3 h show ?thesis by (auto dest!: set_mono_suffix)
    qed
  qed
qed

lemma split_first_Some:
  "split_first pat s = Some (pre, post) \<Longrightarrow> s = pre @ pat @ post"
proof (induction pat s arbitrary: pre rule: split_first.induct)
  case (1 pat)
  then show ?case by (simp split: if_splits)
next
  case (2 pat c s)
  then show ?case
    by (auto split: if_splits simp: prefix_def)
qed

lemma split_first_first:
  "pat \<noteq> [] \<Longrightarrow> split_first pat s = Some (pre, post) \<Longrightarrow> \<not> sublist pat (pre @ butlast pat)"
proof (induction pat s arbitrary: pre rule: split_first.induct)
  case (1 pat)
  then show ?case by (simp split: if_splits)
next
  case (2 pat c s)
  show ?case
  proof (cases "prefix pat (c # s)")
    case True
    with "2.prems" have "pre = []" by simp
    have "\<not> sublist pat (butlast pat)"
    proof
      assume "sublist pat (butlast pat)"
      then have "length pat \<le> length (butlast pat)" by (rule sublist_length_le)
      then have "length pat \<le> length pat - 1" by (simp only: length_butlast)
      moreover from \<open>pat \<noteq> []\<close> have "0 < length pat" by simp
      ultimately show False by arith
    qed
    with \<open>pre = []\<close> show ?thesis by simp
  next
    case False
    with "2.prems" obtain pre' where pre: "pre = c # pre'"
      and rec: "split_first pat s = Some (pre', post)"
      by (auto split: if_splits)
    from rec have s: "s = pre' @ pat @ post" by (rule split_first_Some)
    have "\<not> prefix pat (c # pre' @ butlast pat)"
    proof
      assume "prefix pat (c # pre' @ butlast pat)"
      then have "prefix pat ((c # pre' @ butlast pat) @ [last pat] @ post)"
        by (rule prefix_prefix)
      moreover from \<open>pat \<noteq> []\<close> have "butlast pat @ last pat # post = pat @ post"
        by (induction pat rule: rev_induct) auto
      ultimately show False using False s by simp
    qed
    with "2.IH"[OF False \<open>pat \<noteq> []\<close> rec] show ?thesis
      by (simp add: pre sublist_Cons_right)
  qed
qed

lemma split_first_None:
  "split_first pat s = None \<longleftrightarrow> \<not> sublist pat s"
proof (induction pat s rule: split_first.induct)
  case (1 pat)
  then show ?case by simp
next
  case (2 pat c s)
  then show ?case
    by (auto simp: sublist_Cons_right dest: prefix_imp_sublist)
qed

lemma split_first_append:
  assumes "pat \<noteq> []" and "\<not> sublist pat (a @ butlast pat)"
  shows "split_first pat (a @ pat @ b) = Some (a, b)"
  using assms(2)
proof (induction a)
  case Nil
  from assms(1) show ?case by (cases pat) auto
next
  case (Cons c a)
  have "\<not> prefix pat (c # a @ pat @ b)"
  proof
    assume pre: "prefix pat (c # a @ pat @ b)"
    let ?X = "c # a @ butlast pat"
    from assms(1) have eq: "c # a @ pat @ b = ?X @ [last pat] @ b"
      by (induction pat rule: rev_induct) auto
    from pre eq consider "prefix pat ?X" | us where "pat = ?X @ us" and "prefix us ([last pat] @ b)"
      using prefix_append [of pat ?X "[last pat] @ b"] by auto
    then have "prefix pat ?X"
    proof cases
      case 1
      then show ?thesis .
    next
      case 2
      from arg_cong [OF 2(1), of length]
      have "length pat = Suc (length a + length (butlast pat) + length us)"
        by (simp del: length_butlast)
      moreover from assms(1) have "length (butlast pat) + 1 = length pat" by simp
      ultimately have "length us = 0" by arith
      then have "us = []" by simp
      with 2(1) show ?thesis by simp
    qed
    with Cons.prems show False by (auto dest: prefix_imp_sublist)
  qed
  moreover have "\<not> sublist pat (a @ butlast pat)"
    using Cons.prems by (auto simp: sublist_Cons_right)
  ultimately show ?case using Cons.IH by simp
qed

declare str_nat.simps [simp del]

lemma str_nat_digits: "\<forall>d \<in> set (str_nat n). is_ascii_digit d"
proof (induction n rule: str_nat.induct)
  case (1 n)
  then show ?case
    by (subst str_nat.simps) (auto simp: is_ascii_digit_def)
qed

lemma str_nat_nonempty [simp]: "str_nat n \<noteq> []"
  by (subst str_nat.simps) simp

lemma digits_val_str_nat [simp]: "digits_val (str_nat n) = n"
proof (induction n rule: str_nat.induct)
  case (1 n)
  show ?case
  proof (cases "n < 10")
    case True
    then show ?thesis by (subst str_nat.simps) (simp add: digits_val_def)
  next
    case False
    with "1.IH" have "digits_val (str_nat (n div 10)) = n div 10" by simp
    with False show ?thesis
      by (subst str_nat.simps) (simp add: digits_val_def)
  qed
qed

lemma str_int_nonneg: "0 \<le> i \<Longrightarrow> str_int i = str_nat (nat i)"
  by (simp add: str_int_def)

lemma set_str_int: "set (str_int i) \<subseteq> {c. is_ascii_digit c} \<union> {45}"
  using str_nat_digits by (auto simp: str_int_def)

lemma fold_update_map_of:
  "fold (\<lambda>(a, b) m. m(f a \<mapsto> g b)) xs m = m ++ map_of (rev (map (\<lambda>(a, b). (f a, g b)) xs))"
proof (induction xs arbitrary: m)
  case Nil
  then show ?case by simp
next
  case (Cons x xs)
  obtain a b where x: "x = (a, b)" by fastforce
  have "fold (\<lambda>(a, b) m. m(f a \<mapsto> g b)) (x # xs) m = fold (\<lambda>(a, b) m. m(f a \<mapsto> g b)) xs (m(f a \<mapsto> g b))"
    by (simp add: x)
  also have "\<dots> = m(f a \<mapsto> g b) ++ map_of (rev (map (\<lambda>(a, b). (f a, g b)) xs))"
    by (rule Cons.IH)
  also have "\<dots> = m ++ map_of (rev (map (\<lambda>(a, b). (f a, g b)) (x # xs)))"
    by (simp add: x map_of_append map_add_assoc)
  finally show ?case .
qed

end
