(* ===== verification/Normalizer.thy ===== *)
theory Normalizer
  imports Prelude
begin

text \<open>
  The Text Normalizer: \<open>GeminiOCR._clean_text\<close> (\<open>src/main.py\<close>, lines 582--624).
  The recognition service's response either carries a \<open>text\<close> or does not; the
  text goes through four passes in the source's order: the literal replacement table
  (a Python dict, applied in insertion order with \<open>str.replace\<close>), the removal of
  \<open>\uXXXX\<close> escapes, the collapse of whitespace runs, and the restoration of
  \<open>\n\<close> escapes. Each regular-expression pass is a recursive function that
  scans the way \<open>re.sub\<close> does: leftmost match, non-overlapping, resuming after it.
\<close>

datatype response = Response_Text pystr | Response_No_Text

definition is_hex_digit :: "nat \<Rightarrow> bool" where
  "is_hex_digit c \<longleftrightarrow> is_ascii_digit c \<or> (97 \<le> c \<and> c \<le> 102) \<or> (65 \<le> c \<and> c \<le> 70)"

text \<open>
  The \<open>replacements\<close> dict of lines 590--608. The raw keys \<open>r"\\u00e7"\<close> are six
  code points (a backslash, \<open>u\<close>, four hex digits); the plain keys \<open>"\\u2013"\<close> are
  the en dash itself (8211), \<open>"\\u2014"\<close> the em dash (8212), and \<open>"\\u22121"\<close>
  the minus sign (8722) followed by \<open>1\<close>; \<open>"\\\\"\<close> is two backslashes.
\<close>

definition clean_replacements :: "(pystr \<times> pystr) list" where
  "clean_replacements =
     [ ([92] @ u ''u00e7'', [231]),
       ([92] @ u ''u00f5'', [245]),
       ([92] @ u ''u00e3'', [227]),
       ([92] @ u ''n'', [10]),
       ([92] @ u ''t'', u ''    ''),
       ([8211], u ''-''),
       ([8212], u ''-''),
       ([92] @ u ''u00ed'', [237]),
       ([92] @ u ''u00e1'', [225]),
       ([92] @ u ''u00e9'', [233]),
       ([92] @ u ''u00fa'', [250]),
       ([92] @ u ''u00f3'', [243]),
       ([92, 92], [92]),
       ([8211] @ u ''4'', u ''-''),
       ([8722] @ u ''1'', u ''-''),
       ([8211] @ u ''2'', u ''-''),
       ([8211] @ u ''3'', u ''-'') ]"

text \<open>\<open>for old, new in replacements.items(): cleaned_text = cleaned_text.replace(old, new)\<close>\<close>

definition apply_replacements :: "(pystr \<times> pystr) list \<Rightarrow> pystr \<Rightarrow> pystr" where
  "apply_replacements table s = fold (\<lambda>(old, new) t. py_replace old new t) table s"

text \<open>\<open>re.sub(r"\\u[0-9a-fA-F]{4}", "", cleaned_text)\<close>\<close>

definition u_escape_tail :: "pystr \<Rightarrow> bool" where
  "u_escape_tail s \<longleftrightarrow> 5 \<le> length s \<and> hd s = 117 \<and> list_all is_hex_digit (take 4 (tl s))"

fun strip_unicode_escapes :: "pystr \<Rightarrow> pystr" where
  "strip_unicode_escapes [] = []"
| "strip_unicode_escapes (c # s) =
     (if c = 92 \<and> u_escape_tail s then strip_unicode_escapes (drop 5 s)
      else c # strip_unicode_escapes s)"

text \<open>\<open>re.sub(r"\s+", " ", cleaned_text)\<close>: a maximal run of whitespace becomes one space.\<close>

function collapse_whitespace :: "pystr \<Rightarrow> pystr" where
  "collapse_whitespace [] = []"
| "collapse_whitespace (c # s) =
     (if is_space c then 32 # collapse_whitespace (dropWhile is_space s)
      else c # collapse_whitespace s)"
  by pat_completeness auto
termination
  by (relation "measure length") (auto simp: le_imp_less_Suc length_dropWhile_le)

text \<open>\<open>re.sub(r"\\n", "\n", cleaned_text)\<close>: a backslash followed by \<open>n\<close> becomes a newline.\<close>

fun restore_newlines :: "pystr \<Rightarrow> pystr" where
  "restore_newlines [] = []"
| "restore_newlines (c # s) =
     (if c = 92 \<and> s \<noteq> [] \<and> hd s = 110 then 10 # restore_newlines (tl s)
      else c # restore_newlines s)"

definition clean_str :: "pystr \<Rightarrow> pystr" where
  "clean_str text =
     restore_newlines (collapse_whitespace (strip_unicode_escapes
       (apply_replacements clean_replacements text)))"

text \<open>\<open>_clean_text\<close>: the \<open>ValueError\<close> when the response has no text, else the four passes.\<close>

definition clean_text :: "response \<Rightarrow> error + pystr" where
  "clean_text r =
     (case r of
        Response_No_Text \<Rightarrow> Inl No_Text_Error
      | Response_Text text \<Rightarrow> Inr (clean_str text))"

text \<open>A string in which whitespace occurs only as single spaces.\<close>

fun ws_collapsed :: "pystr \<Rightarrow> bool" where
  "ws_collapsed [] = True"
| "ws_collapsed [c] = (is_space c \<longrightarrow> c = 32)"
| "ws_collapsed (c # d # s) = ((is_space c \<longrightarrow> c = 32 \<and> \<not> is_space d) \<and> ws_collapsed (d # s))"

subsection \<open>Properties\<close>

lemma apply_replacements_append:
  "apply_replacements (a @ b) s = apply_replacements b (apply_replacements a s)"
  by (simp add: apply_replacements_def)

lemma apply_replacements_Cons:
  "apply_replacements ((old, new) # tbl) s = apply_replacements tbl (py_replace old new s)"
  by (simp add: apply_replacements_def)

text \<open>
  Entries whose key holds a code point that the text no longer holds, and that no later
  replacement writes, are no-ops.
\<close>

lemma apply_replacements_skip_absent:
  assumes "c \<notin> set s" and "\<forall>(old, new) \<in> set tbl. c \<notin> set new"
  shows "apply_replacements tbl s = apply_replacements (filter (\<lambda>(old, new). c \<notin> set old) tbl) s"
  using assms
proof (induction tbl arbitrary: s)
  case Nil
  then show ?case by (simp add: apply_replacements_def)
next
  case (Cons e tbl)
  obtain old new where e: "e = (old, new)" by fastforce
  from Cons.prems e have "c \<notin> set new" by auto
  with Cons.prems(1) have out: "c \<notin> set (py_replace old new s)"
    by (rule py_replace_keeps_out)
  from Cons.prems(2) have rest: "\<forall>(old, new) \<in> set tbl. c \<notin> set new" by simp
  show ?case
  proof (cases "c \<in> set old")
    case True
    from True Cons.prems(1) have "py_replace old new s = s" by (rule py_replace_absent_char)
    with True e Cons.IH [OF Cons.prems(1) rest] show ?thesis
      by (simp add: apply_replacements_Cons)
  next
    case False
    with e Cons.IH [OF out rest] show ?thesis
      by (simp add: apply_replacements_Cons)
  qed
qed

lemma collapse_whitespace_hd:
  "\<not> is_space c \<Longrightarrow> collapse_whitespace (c # s) = c # collapse_whitespace s"
  by simp

lemma collapse_whitespace_hd_not_space:
  "t = [] \<or> \<not> is_space (hd t) \<Longrightarrow>
   collapse_whitespace t = [] \<or> \<not> is_space (hd (collapse_whitespace t))"
  by (cases t) auto

lemma collapse_whitespace_dropWhile:
  "collapse_whitespace (dropWhile is_space s) = [] \<or>
   \<not> is_space (hd (collapse_whitespace (dropWhile is_space s)))"
proof (rule collapse_whitespace_hd_not_space)
  show "dropWhile is_space s = [] \<or> \<not> is_space (hd (dropWhile is_space s))"
    using hd_dropWhile [of is_space s] by blast
qed

lemma ws_collapsed_Cons_space:
  "ws_collapsed s \<Longrightarrow> (s = [] \<or> \<not> is_space (hd s)) \<Longrightarrow> ws_collapsed (32 # s)"
  by (cases s) (simp_all add: is_space_def)

lemma ws_collapsed_Cons_other:
  "ws_collapsed s \<Longrightarrow> \<not> is_space c \<Longrightarrow> ws_collapsed (c # s)"
  by (cases s) simp_all

lemma collapse_whitespace_ws_collapsed: "ws_collapsed (collapse_whitespace s)"
proof (induction s rule: collapse_whitespace.induct)
  case 1
  then show ?case by simp
next
  case (2 c s)
  show ?case
  proof (cases "is_space c")
    case True
    with "2.IH"(1) collapse_whitespace_dropWhile [of s] show ?thesis
      by (simp add: ws_collapsed_Cons_space)
  next
    case False
    with "2.IH"(2) show ?thesis by (simp add: ws_collapsed_Cons_other)
  qed
qed

lemma set_restore_newlines: "set (restore_newlines s) \<subseteq> set s \<union> {10}"
proof (induction s rule: restore_newlines.induct)
  case 1
  then show ?case by simp
next
  case (2 c s)
  then show ?case by (cases s) auto
qed

lemma ws_collapsed_spaces: "ws_collapsed s \<Longrightarrow> c \<in> set s \<Longrightarrow> is_space c \<Longrightarrow> c = 32"
  by (induction s rule: ws_collapsed.induct) auto

lemma ws_collapsed_fixpoint: "ws_collapsed s \<Longrightarrow> collapse_whitespace s = s"
  by (induction s rule: ws_collapsed.induct) auto

lemmas clean_eval = clean_str_def clean_replacements_def apply_replacements_def py_replace_def
  replace_nonempty.simps(2) u_escape_tail_def is_hex_digit_def is_ascii_digit_def is_space_def

text \<open>C25. \<open>_clean_text\<close> fails exactly on a response without text, and then
  with the \<open>ValueError\<close> of line 588, never with an empty-string success.\<close>

theorem clean_text_error_iff:
  "clean_text r = Inl e \<longleftrightarrow> r = Response_No_Text \<and> e = No_Text_Error"
  by (cases r) (auto simp: clean_text_def)

text \<open>The whitespace pass of line 619 is idempotent.\<close>

theorem collapse_whitespace_idem:
  "collapse_whitespace (collapse_whitespace s) = collapse_whitespace s"
  by (rule ws_collapsed_fixpoint) (rule collapse_whitespace_ws_collapsed)

text \<open>The only whitespace \<open>_clean_text\<close> leaves is the single space and the
  newline restored from a backslash-\<open>n\<close>: tabs, carriage returns and runs never survive.\<close>

theorem clean_str_whitespace:
  "{c \<in> set (clean_str t). is_space c} \<subseteq> {10, 32}"
proof
  fix c assume c: "c \<in> {c \<in> set (clean_str t). is_space c}"
  let ?w = "collapse_whitespace (strip_unicode_escapes (apply_replacements clean_replacements t))"
  from c have "c \<in> set ?w \<union> {10}"
    using set_restore_newlines [of ?w] by (auto simp: clean_str_def)
  with c collapse_whitespace_ws_collapsed ws_collapsed_spaces show "c \<in> {10, 32}"
    by blast
qed

text \<open>C28. Contrary to the design's promise, \<open>_clean_text\<close> is not idempotent: the
  table entry that turns two backslashes into one fires again on its own output.\<close>

theorem clean_str_not_idempotent:
  "\<not> (\<forall>t. clean_str (clean_str t) = clean_str t)"
proof
  assume all: "\<forall>t. clean_str (clean_str t) = clean_str t"
  have a: "clean_str [92, 92, 92, 92] = [92, 92]" by (simp add: clean_eval)
  have b: "clean_str [92, 92] = [92]" by (simp add: clean_eval)
  from all have "clean_str (clean_str [92, 92, 92, 92]) = clean_str [92, 92, 92, 92]" by blast
  with a b show False by simp
qed

text \<open>C30. The table entries whose key is an en dash followed by a digit never
  fire: the bare en dash is replaced by the sixth entry, and no later entry writes one.
  Removing them leaves \<open>_clean_text\<close> unchanged.\<close>

theorem clean_replacements_dead_entries:
  "apply_replacements clean_replacements t =
   apply_replacements (filter (\<lambda>(old, new). \<not> (length old = 2 \<and> hd old = 8211)) clean_replacements) t"
proof -
  define P :: "pystr \<times> pystr \<Rightarrow> bool" where
    "P = (\<lambda>(old, new). \<not> (length old = 2 \<and> hd old = 8211))"
  let ?A = "take 6 clean_replacements" and ?B = "drop 6 clean_replacements"
  have A: "?A = take 5 clean_replacements @ [([8211], u ''-'')]"
    by (simp add: clean_replacements_def)
  have out: "8211 \<notin> set (apply_replacements ?A t)"
    unfolding A apply_replacements_append
    by (simp add: apply_replacements_def py_replace_single_removes)
  have news: "\<forall>(old, new) \<in> set ?B. 8211 \<notin> set new"
    by (simp add: clean_replacements_def)
  have keepA: "filter P ?A = ?A"
    by (simp add: P_def clean_replacements_def)
  have sameB: "filter (\<lambda>(old, new). 8211 \<notin> set old) ?B = filter P ?B"
    by (simp add: P_def clean_replacements_def)
  have "apply_replacements clean_replacements t = apply_replacements ?B (apply_replacements ?A t)"
    by (simp add: apply_replacements_append [symmetric])
  also have "\<dots> = apply_replacements (filter (\<lambda>(old, new). 8211 \<notin> set old) ?B) (apply_replacements ?A t)"
    by (rule apply_replacements_skip_absent [OF out news])
  also have "\<dots> = apply_replacements (filter P ?A @ filter P ?B) t"
    by (simp add: sameB keepA apply_replacements_append)
  also have "\<dots> = apply_replacements (filter P clean_replacements) t"
    by (simp add: filter_append [symmetric])
  finally show ?thesis by (simp add: P_def)
qed

text \<open>C29. Contrary to the design (every remaining 4-hex-digit escape is stripped), the
  output of \<open>_clean_text\<close> can still hold such an escape: \<open>re.sub\<close> scans once, so
  removing \<open>\u0041\<close> from \<open>\u\u00410042\<close> joins a new escape \<open>\u0042\<close>, which a
  second pass would remove.\<close>

theorem clean_str_leaves_escape:
  "\<not> (\<forall>t. strip_unicode_escapes (clean_str t) = clean_str t)"
proof
  assume a: "\<forall>t. strip_unicode_escapes (clean_str t) = clean_str t"
  have "clean_str ([92] @ u ''u'' @ [92] @ u ''u00410042'') = [92] @ u ''u0042''"
    by (simp add: clean_eval)
  moreover have "strip_unicode_escapes ([92] @ u ''u0042'') = []"
    by (simp add: u_escape_tail_def is_hex_digit_def is_ascii_digit_def)
  ultimately show False using a by (metis list.distinct(1) append_Cons append_Nil)
qed

end
