(* ===== verification/Template.thy ===== *)
theory Template
  imports Prelude
begin

text \<open>
  The static text of the HTML document that \<open>GeminiOCR._save_html_file\<close> writes
  (\<open>src/main.py\<close>, lines 208--525), verbatim: each source line is one element of a
  list, with the f-string escapes \<open>{{\<close> and \<open>}}\<close> already read as single braces and
  every code point outside ASCII written as its number. \<open>lines_nl\<close> joins lines the
  way the triple-quoted string does. The dynamic parts (progress figures, index links,
  page content) are put in by \<open>Renderer.html_document\<close>.
\<close>

definition lines_nl :: "pystr list \<Rightarrow> pystr" where
  "lines_nl ls = concat (map (\<lambda>l. l @ [10]) ls)"

text \<open>Lines 209--231: DOCTYPE, meta tags and the MathJax configuration and scripts.\<close>

definition html_head_doc :: "pystr list" where
  \<open>html_head_doc =
   [ u ''        <!DOCTYPE html>''
   , u ''        <html lang="pt-BR">''
   , u ''        <head>''
   , u ''            <meta charset="UTF-8">''
   , u ''            <meta name="viewport" content="width=device-width, initial-scale=1.0">''
   , u ''            <title>Documento Processado</title>''
   , u ''            ''
   , u ''            <!-- MathJax Config -->''
   , u ''            <script>''
   , u ''            MathJax = {''
   , u ''                tex: {''
   , u ''                    inlineMath: [[\'$\', \'$\']],''
   , u ''                    displayMath: [[\'$$\', \'$$\']],''
   , u ''                    processEscapes: true''
   , u ''                },''
   , u ''                svg: {''
   , u ''                    fontCache: \'global'' @ [39]
   , u ''                }''
   , u ''            };''
   , u ''            </script>''
   , u ''            <script src="https://polyfill.io/v3/polyfill.min.js?features=es6"></script>''
   , u ''            <script id="MathJax-script" async src="https://cdn.jsdelivr.net/npm/mathjax@3/es5/tex-svg.js"></script>''
   , u ''            '' ]\<close>

text \<open>Lines 232--296: the style sheet: variables, body, content, equation, page header and footer, index.\<close>

definition html_head_style_1 :: "pystr list" where
  \<open>html_head_style_1 =
   [ u ''            <style>''
   , u ''                :root {''
   , u ''                    --text-color: #333;''
   , u ''                    --bg-color: #fff;''
   , u ''                    --content-bg: #ffffff;''
   , u ''                    --equation-bg: #f8f9fa;''
   , u ''                    --line-height: 1.6;''
   , u ''                    --font-size: 16px;''
   , u ''                }''
   , u ''                ''
   , u ''                body {''
   , u ''                    font-family: Arial, sans-serif;''
   , u ''                    line-height: var(--line-height);''
   , u ''                    font-size: var(--font-size);''
   , u ''                    max-width: 800px;''
   , u ''                    margin: 0 auto;''
   , u ''                    padding: 20px;''
   , u ''                    background-color: var(--bg-color);''
   , u ''                    color: var(--text-color);''
   , u ''                }''
   , u ''                ''
   , u ''                .content {''
   , u ''                    background-color: var(--content-bg);''
   , u ''                    padding: 20px;''
   , u ''                    border-radius: 8px;''
   , u ''                    box-shadow: 0 2px 4px rgba(0,0,0,0.1);''
   , u ''                    margin-bottom: 80px; /* Espa'' @ [231] @ u ''o para o menu de acessibilidade */''
   , u ''                }''
   , u ''                ''
   , u ''                .equation {''
   , u ''                    margin: 1em 0;''
   , u ''                    padding: 1em;''
   , u ''                    background: var(--equation-bg);''
   , u ''                    border-radius: 8px;''
   , u ''                    overflow-x: auto;''
   , u ''                }''
   , u ''                ''
   , u ''                .page-header {''
   , u ''                    background-color: #e3f2fd;''
   , u ''                    padding: 10px;''
   , u ''                    margin: 30px 0 10px 0;''
   , u ''                    border-radius: 5px;''
   , u ''                    text-align: center;''
   , u ''                    font-weight: bold;''
   , u ''                    font-size: 18px;''
   , u ''                    border-bottom: 2px solid #2196F3;''
   , u ''                }''
   , u ''                ''
   , u ''                .page-footer {''
   , u ''                    border-bottom: 1px dashed #ccc;''
   , u ''                    margin: 20px 0;''
   , u ''                    padding-bottom: 10px;''
   , u ''                }''
   , u ''                ''
   , u ''                .index {''
   , u ''                    background-color: #f5f5f5;''
   , u ''                    padding: 15px;''
   , u ''                    border-radius: 8px;''
   , u ''                    margin-bottom: 30px;''
   , u ''                }''
   , u ''                ''
   , u ''                .index h2 {''
   , u ''                    margin-top: 0;''
   , u ''                    color: #2196F3;''
   , u ''                }'' ]\<close>

text \<open>Lines 297--349: the style sheet: index links, accessibility controls, buttons.\<close>

definition html_head_style_2 :: "pystr list" where
  \<open>html_head_style_2 =
   [ u ''                ''
   , u ''                .index-links {''
   , u ''                    display: flex;''
   , u ''                    flex-wrap: wrap;''
   , u ''                    gap: 10px;''
   , u ''                }''
   , u ''                ''
   , u ''                .index-link {''
   , u ''                    display: inline-block;''
   , u ''                    padding: 5px 10px;''
   , u ''                    background: #e3f2fd;''
   , u ''                    border-radius: 5px;''
   , u ''                    text-decoration: none;''
   , u ''                    color: #0056b3;''
   , u ''                }''
   , u ''                ''
   , u ''                .index-link:hover {''
   , u ''                    background: #bbdefb;''
   , u ''                }''
   , u ''                ''
   , u ''                .accessibility-controls {''
   , u ''                    position: fixed;''
   , u ''                    bottom: 20px;''
   , u ''                    left: 50%;''
   , u ''                    transform: translateX(-50%);''
   , u ''                    background: var(--content-bg);''
   , u ''                    padding: 10px;''
   , u ''                    border-radius: 8px;''
   , u ''                    box-shadow: 0 2px 10px rgba(0,0,0,0.1);''
   , u ''                    display: flex;''
   , u ''                    flex-wrap: wrap;''
   , u ''                    justify-content: center;''
   , u ''                    gap: 5px;''
   , u ''                    z-index: 1000;''
   , u ''                    max-width: 320px; /* Tamanho fixo */''
   , u ''                    width: auto;''
   , u ''                }''
   , u ''                ''
   , u ''                button {''
   , u ''                    padding: 6px 12px;''
   , u ''                    border: none;''
   , u ''                    border-radius: 4px;''
   , u ''                    background: #007bff;''
   , u ''                    color: white;''
   , u ''                    cursor: pointer;''
   , u ''                    transition: background 0.3s;''
   , u ''                    font-size: 14px;''
   , u ''                }''
   , u ''                ''
   , u ''                button:hover {''
   , u ''                    background: #0056b3;''
   , u ''                }''
   , u ''                '' ]\<close>

text \<open>Lines 350--418: the style sheet: themes, media queries, progress bar, top link.\<close>

definition html_head_style_3 :: "pystr list" where
  \<open>html_head_style_3 =
   [ u ''                /* Temas */''
   , u ''                body.dark-mode {''
   , u ''                    --text-color: #e0e0e0;''
   , u ''                    --bg-color: #1a1a1a;''
   , u ''                    --content-bg: #2d2d2d;''
   , u ''                    --equation-bg: #363636;''
   , u ''                }''
   , u ''                ''
   , u ''                body.high-contrast {''
   , u ''                    --text-color: #fff;''
   , u ''                    --bg-color: #000;''
   , u ''                    --content-bg: #000;''
   , u ''                    --equation-bg: #333;''
   , u ''                }''
   , u ''                ''
   , u ''                /* Para acomodar o feedback de usu'' @ [225] @ u ''rios com defici'' @ [234] @ u ''ncia visual */''
   , u ''                @media (min-width: 769px) {''
   , u ''                    .accessibility-controls {''
   , u ''                        /* Tamanho fixo, n'' @ [227] @ u ''o aumenta com zoom */''
   , u ''                        transform: translateX(-50%) scale(1);''
   , u ''                        transform-origin: center;''
   , u ''                    }''
   , u ''                }''
   , u ''                ''
   , u ''                @media (max-width: 768px) {''
   , u ''                    .accessibility-controls {''
   , u ''                        max-width: 260px;''
   , u ''                        /* Tamanho fixo para mobile */''
   , u ''                        transform: translateX(-50%) scale(1);''
   , u ''                        transform-origin: center;''
   , u ''                    }''
   , u ''                    ''
   , u ''                    button {''
   , u ''                        font-size: 12px;''
   , u ''                        padding: 4px 8px;''
   , u ''                    }''
   , u ''                }''
   , u ''                ''
   , u ''                #progress-bar {''
   , u ''                    position: fixed;''
   , u ''                    top: 0;''
   , u ''                    left: 0;''
   , u ''                    height: 5px;''
   , u ''                    background-color: #2196F3;''
   , u ''                    z-index: 1001;''
   , u ''                }''
   , u ''                ''
   , u ''                .top-link {''
   , u ''                    display: inline-block;''
   , u ''                    position: fixed;''
   , u ''                    bottom: 70px;''
   , u ''                    right: 20px;''
   , u ''                    background: #2196F3;''
   , u ''                    color: white;''
   , u ''                    width: 40px;''
   , u ''                    height: 40px;''
   , u ''                    border-radius: 50%;''
   , u ''                    text-align: center;''
   , u ''                    line-height: 40px;''
   , u ''                    font-size: 20px;''
   , u ''                    text-decoration: none;''
   , u ''                    opacity: 0.7;''
   , u ''                    transition: opacity 0.3s;''
   , u ''                }''
   , u ''                ''
   , u ''                .top-link:hover {''
   , u ''                    opacity: 1;''
   , u ''                }''
   , u ''            </style>'' ]\<close>

text \<open>Lines 419--422: end of head, start of body and header.\<close>

definition html_head_body :: "pystr list" where
  \<open>html_head_body =
   [ u ''        </head>''
   , u ''        <body>''
   , u ''            <header>''
   , u ''                <h1>Documento Processado</h1>'' ]\<close>

text \<open>Lines 208--423 up to the first interpolation: the empty rest of line 208, then the lines above.\<close>

definition html_head :: pystr where
  \<open>html_head = lines_nl ([] # html_head_doc @ html_head_style_1 @ html_head_style_2 @
     html_head_style_3 @ html_head_body) @ u ''                <div id="progress-bar" style="width: ''\<close>

text \<open>Lines 425--429: end of the header and start of the page index.\<close>

definition html_index_lines :: "pystr list" where
  \<open>html_index_lines =
   [ u ''            </header>''
   , u ''            ''
   , u ''            <div class="index">''
   , u ''                <h2>'' @ [205] @ u ''ndice de P'' @ [225] @ u ''ginas</h2>''
   , u ''                <div class="index-links">'' ]\<close>

text \<open>Line 423 after the width, line 424 around the figures, lines 425--430 up to the links.\<close>

definition html_bar_close :: pystr where
  \<open>html_bar_close = u ''%;"></div>'' @ [10] @ u ''                <p><strong>Progresso:</strong> ''\<close>

definition html_count_sep :: pystr where
  \<open>html_count_sep = u ''/''\<close>

definition html_pages_label :: pystr where
  \<open>html_pages_label = u '' p'' @ [225] @ u ''ginas processadas (''\<close>

definition html_index_open :: pystr where
  \<open>html_index_open = u ''%)</p>'' @ [10] @ lines_nl html_index_lines @ u ''                    ''\<close>

text \<open>Lines 431--434: end of the index and start of the main element.\<close>

definition html_main_lines :: "pystr list" where
  \<open>html_main_lines =
   [ u ''                </div>''
   , u ''            </div>''
   , u ''            ''
   , u ''            <main role="main" class="content">'' ]\<close>

definition html_main_open :: pystr where
  \<open>html_main_open = [10] @ lines_nl html_main_lines @ u ''                ''\<close>

text \<open>Lines 436--448: end of main, the top link and the accessibility controls.\<close>

definition html_tail_controls :: "pystr list" where
  \<open>html_tail_controls =
   [ u ''            </main>''
   , u ''            ''
   , u ''            <a href="#top" class="top-link" aria-label="Voltar ao topo">'' @ [8593] @ u ''</a>''
   , u ''            ''
   , u ''            <div class="accessibility-controls" aria-label="Controles de acessibilidade">''
   , u ''                <button onclick="toggleDarkMode()" aria-label="Alternar modo escuro">'' @ [127763] @ u ''</button>''
   , u ''                <button onclick="toggleHighContrast()" aria-label="Alternar alto contraste">'' @ [128065] @ [65039] @ u ''</button>''
   , u ''                <button onclick="increaseFontSize()" aria-label="Aumentar tamanho da fonte">A+</button>''
   , u ''                <button onclick="decreaseFontSize()" aria-label="Diminuir tamanho da fonte">A-</button>''
   , u ''                <button onclick="increaseLineHeight()" aria-label="Aumentar espa'' @ [231] @ u ''amento entre linhas">'' @ [8597] @ [65039] @ u ''+</button>''
   , u ''                <button onclick="decreaseLineHeight()" aria-label="Diminuir espa'' @ [231] @ u ''amento entre linhas">'' @ [8597] @ [65039] @ u ''-</button>''
   , u ''            </div>''
   , u ''            '' ]\<close>

text \<open>Lines 449--491: the script: index links on load, hash scrolling, theme toggles.\<close>

definition html_tail_script_1 :: "pystr list" where
  \<open>html_tail_script_1 =
   [ u ''            <script>''
   , u ''                // Adiciona links de p'' @ [225] @ u ''gina ao carregar''
   , u ''                document.addEventListener(\'DOMContentLoaded\', function() {''
   , u ''                    // Gera links para navega'' @ [231] @ [227] @ u ''o r'' @ [225] @ u ''pida''
   , u ''                    const pageHeaders = document.querySelectorAll(\'.page-header\');''
   , u ''                    pageHeaders.forEach(header => {''
   , u ''                        const pageNum = header.getAttribute(\'id\').replace(\'page-\', '' @ [39] @ u ''\');''
   , u ''                        const pageId = `page-${pageNum}`;''
   , u ''                        ''
   , u ''                        // Adiciona links no '' @ [237] @ u ''ndice se n'' @ [227] @ u ''o existirem''
   , u ''                        if (!document.querySelector(`.index-link[href="#${pageId}"]`)) {''
   , u ''                            const indexLinks = document.querySelector(\'.index-links\');''
   , u ''                            if (indexLinks) {''
   , u ''                                const link = document.createElement(\'a\');''
   , u ''                                link.href = `#${pageId}`;''
   , u ''                                link.className = \'index-link\';''
   , u ''                                link.textContent = `P'' @ [225] @ u ''gina ${pageNum}`;''
   , u ''                                indexLinks.appendChild(link);''
   , u ''                            }''
   , u ''                        }''
   , u ''                    });''
   , u ''                    ''
   , u ''                    // Scroll para a p'' @ [225] @ u ''gina se vier com hash''
   , u ''                    if (window.location.hash) {''
   , u ''                        const targetElement = document.querySelector(window.location.hash);''
   , u ''                        if (targetElement) {''
   , u ''                            targetElement.scrollIntoView();''
   , u ''                        }''
   , u ''                    }''
   , u ''                });''
   , u ''                ''
   , u ''                function toggleDarkMode() {''
   , u ''                    document.body.classList.toggle(\'dark-mode\');''
   , u ''                    document.body.classList.remove(\'high-contrast\');''
   , u ''                    refreshMathJax();''
   , u ''                }''
   , u ''                ''
   , u ''                function toggleHighContrast() {''
   , u ''                    document.body.classList.toggle(\'high-contrast\');''
   , u ''                    document.body.classList.remove(\'dark-mode\');''
   , u ''                    refreshMathJax();''
   , u ''                }''
   , u ''                '' ]\<close>

text \<open>Lines 492--524: the script: font size and line height controls, end of the document.\<close>

definition html_tail_script_2 :: "pystr list" where
  \<open>html_tail_script_2 =
   [ u ''                let currentFontSize = 16;''
   , u ''                function increaseFontSize() {''
   , u ''                    currentFontSize = Math.min(currentFontSize * 1.1, 32);''
   , u ''                    document.documentElement.style.setProperty(\'--font-size\', currentFontSize + \'px\');''
   , u ''                    refreshMathJax();''
   , u ''                }''
   , u ''                ''
   , u ''                function decreaseFontSize() {''
   , u ''                    currentFontSize = Math.max(currentFontSize * 0.9, 12);''
   , u ''                    document.documentElement.style.setProperty(\'--font-size\', currentFontSize + \'px\');''
   , u ''                    refreshMathJax();''
   , u ''                }''
   , u ''                ''
   , u ''                let currentLineHeight = 1.6;''
   , u ''                function increaseLineHeight() {''
   , u ''                    currentLineHeight = Math.min(currentLineHeight * 1.1, 2.5);''
   , u ''                    document.documentElement.style.setProperty(\'--line-height\', currentLineHeight);''
   , u ''                }''
   , u ''                ''
   , u ''                function decreaseLineHeight() {''
   , u ''                    currentLineHeight = Math.max(currentLineHeight * 0.9, 1.2);''
   , u ''                    document.documentElement.style.setProperty(\'--line-height\', currentLineHeight);''
   , u ''                }''
   , u ''                ''
   , u ''                function refreshMathJax() {''
   , u ''                    if (typeof MathJax !== \'undefined\') {''
   , u ''                        MathJax.typesetClear();''
   , u ''                        MathJax.typesetPromise();''
   , u ''                    }''
   , u ''                }''
   , u ''            </script>''
   , u ''        </body>''
   , u ''        </html>'' ]\<close>

text \<open>Lines 435--525 after the content: a newline, the lines above, and the indentation of line 525.\<close>

definition html_tail :: pystr where
  \<open>html_tail = [10] @ lines_nl (html_tail_controls @ html_tail_script_1 @ html_tail_script_2) @ u ''        ''\<close>

lemma lines_nl_Nil [simp]: "lines_nl [] = []"
  and lines_nl_Cons [simp]: "lines_nl (l # ls) = l @ [10] @ lines_nl ls"
  and lines_nl_append: "lines_nl (xs @ ys) = lines_nl xs @ lines_nl ys"
  by (simp_all add: lines_nl_def)

end
