(* ===== verification/Renderer.thy ===== *)
theory Renderer
  imports Template
begin

text \<open>
  The Page Renderer of \<open>src/main.py\<close>: the fragment that \<open>_process_page_content\<close>
  builds for one page (lines 571--580), the index of \<open>_generate_index_links\<close>
  (lines 530--538) and the whole document of \<open>_save_html_file\<close> (lines 206--528),
  which puts the progress figures, the index and the accumulated content into the
  static text of theory \<open>Template\<close>. The float \<open>round(n * 100 / t, 2)\<close> is formatted
  by CPython; the model takes that formatting as a parameter \<open>fmt\<close> (the text of the
  float for \<open>n\<close> processed pages of \<open>t\<close>) and keeps the division by zero it
  raises when \<open>t = 0\<close>.
\<close>

text \<open>The f-string of lines 572--578: the header, the content block carrying the page
  number, the cleaned text, and the footer marker, with the source's indentation.\<close>

definition render_page :: "pystr \<Rightarrow> int \<Rightarrow> int \<Rightarrow> pystr" where
  \<open>render_page cleaned_result page_num total_pages =
     [10] @ u ''        <div class="page-header" id="page-'' @ str_int page_num @
       u ''">P'' @ [225] @ u ''gina '' @ str_int page_num @ u '' de '' @ str_int total_pages @
       u ''</div>'' @ [10] @
     u ''        <div class="page-content" data-page="'' @ str_int page_num @ u ''">'' @ [10] @
     u ''            '' @ cleaned_result @ [10] @
     u ''        </div>'' @ [10] @
     u ''        <div class="page-footer"></div>'' @ [10] @
     u ''        ''\<close>

text \<open>One line of \<open>_generate_index_links\<close>: the page index is 0-based, the link 1-based.\<close>

definition index_link :: "int \<Rightarrow> pystr" where
  \<open>index_link page =
     (let page_num = page + 1
      in u ''<a href="#page-'' @ str_int page_num @ u ''" class="index-link">P'' @ [225] @
         u ''gina '' @ str_int page_num @ u ''</a>'' @ [10])\<close>

definition generate_index_links :: "int list \<Rightarrow> pystr" where
  "generate_index_links processed_pages = concat (map index_link (sort processed_pages))"

text \<open>
  \<open>_save_html_file\<close> up to the write: the f-string is evaluated left to right, so the
  first \<open>round(len(...) * 100 / self.total_pages, 2)\<close> raises on an empty document
  before anything is written.
\<close>

definition html_document ::
  "(nat \<Rightarrow> int \<Rightarrow> pystr) \<Rightarrow> int list \<Rightarrow> int \<Rightarrow> pystr \<Rightarrow> error + pystr" where
  "html_document fmt processed_pages total_pages content =
     (if total_pages = 0 then Inl Zero_Division_Error
      else
        (let n = length processed_pages; pct = fmt n total_pages
         in Inr (html_head @ pct @ html_bar_close @ str_nat n @ html_count_sep @
                 str_int total_pages @ html_pages_label @ pct @ html_index_open @
                 generate_index_links processed_pages @ html_main_open @ content @ html_tail)))"

subsection \<open>Properties\<close>

lemma html_document_Inr:
  "total_pages \<noteq> 0 \<Longrightarrow>
   html_document fmt processed_pages total_pages content =
     Inr (html_head @ fmt (length processed_pages) total_pages @ html_bar_close @
          str_nat (length processed_pages) @ html_count_sep @ str_int total_pages @
          html_pages_label @ fmt (length processed_pages) total_pages @ html_index_open @
          generate_index_links processed_pages @ html_main_open @ content @ html_tail)"
  by (simp add: html_document_def Let_def)

text \<open>C21. \<open>_save_html_file\<close> fails exactly on a document of zero pages, with the
  division by zero of line 423, whatever the content.\<close>

theorem html_document_error_iff:
  "html_document fmt processed_pages total_pages content = Inl e \<longleftrightarrow>
   total_pages = 0 \<and> e = Zero_Division_Error"
  by (auto simp: html_document_def Let_def)

text \<open>C22. The index of pages depends only on which pages were processed, not on
  the order they were processed in: it is recomputed in page order on every write.\<close>

theorem generate_index_links_order_independent:
  "mset ps = mset qs \<Longrightarrow> generate_index_links ps = generate_index_links qs"
proof -
  assume m: "mset ps = mset qs"
  have "sort ps = sort qs"
    by (rule properties_for_sort) (simp_all add: m)
  then show ?thesis by (simp add: generate_index_links_def)
qed

theorem generate_index_links_order_independent_witness:
  "mset [2, 0, 1 :: int] = mset [0, 1, 2] \<and>
   generate_index_links [2, 0, 1] = generate_index_links [0, 1, 2]"
proof -
  have m: "mset [2, 0, 1 :: int] = mset [0, 1, 2]" by simp
  show ?thesis using m generate_index_links_order_independent [OF m] by simp
qed

end
