(* ===== verification/Extractor.thy ===== *)
theory Extractor
  imports Renderer
begin

text \<open>
  The Content Merger: \<open>GeminiOCR._extract_existing_content\<close> (\<open>src/main.py\<close>, lines
  171--190) reads back the fragments of a previously written document with
  \<open>re.findall\<close> and the pattern of line 178,
  \<open><div class="page-content" data-page="(\d+)">(.*?)<div class="page-footer">\<close>

  under \<open>re.DOTALL\<close>. At a position the pattern matches when the marker is there, the
  greedy \<open>\d+\<close> takes the whole run of digits (a shorter run would leave a digit where
  the quote must be), and the lazy \<open>(.*?)\<close> stops at the first footer marker after the
  quote and bracket; \<open>match_at\<close> is that match, \<open>find_all\<close> the scan of
  \<open>re.findall\<close> (leftmost match, resume after it, else advance by one). The dict
  comprehension of lines 181--185 keys each match by \<open>int(digits) - 1\<close>, a later match
  overwriting an earlier one, and stores the captured text followed by the footer marker.
\<close>

definition content_marker :: pystr where
  \<open>content_marker = u ''<div class="page-content" data-page="''\<close>

definition footer_marker :: pystr where
  \<open>footer_marker = u ''<div class="page-footer">''\<close>

definition digits_close :: pystr where
  \<open>digits_close = u ''">''\<close>

definition match_at :: "pystr \<Rightarrow> (pystr \<times> pystr \<times> pystr) option" where
  "match_at s =
     (if prefix content_marker s then
        (let r = drop (length content_marker) s;
             ds = takeWhile is_ascii_digit r;
             r2 = dropWhile is_ascii_digit r
         in if ds \<noteq> [] \<and> prefix digits_close r2
            then map_option (\<lambda>(body, rest). (ds, body, rest))
                   (split_first footer_marker (drop (length digits_close) r2))
            else None)
      else None)"

function find_all :: "pystr \<Rightarrow> (pystr \<times> pystr) list" where
  "find_all [] = []"
| "find_all (c # s) =
     (case match_at (c # s) of
        None \<Rightarrow> find_all s
      | Some (ds, body, rest) \<Rightarrow> (ds, body) # find_all rest)"
  by pat_completeness auto
termination
proof -
  have len: "length rest < length s" if m: "match_at s = Some (ds, body, rest)" for s ds body rest
  proof -
    let ?r = "drop (length content_marker) s"
    let ?r2 = "dropWhile is_ascii_digit ?r"
    from m have p: "prefix content_marker s"
      and sp: "split_first footer_marker (drop (length digits_close) ?r2) = Some (body, rest)"
      by (auto simp: match_at_def Let_def split: if_splits)
    from sp have "drop (length digits_close) ?r2 = body @ footer_marker @ rest"
      by (rule split_first_Some)
    then have "length rest \<le> length ?r2" by (metis le_add2 le_trans length_append length_drop diff_le_self)
    also have "\<dots> \<le> length ?r" by (rule length_dropWhile_le)
    also have "\<dots> < length s"
      using p by (auto simp: content_marker_def prefix_def)
    finally show ?thesis .
  qed
  show ?thesis by (relation "measure length") (auto dest: len)
qed

text \<open>Lines 181--187: the dict built from the matches.\<close>

definition extract_content :: "pystr \<Rightarrow> (int \<rightharpoonup> pystr)" where
  "extract_content html_content =
     fold (\<lambda>(ds, body) m. m(int (digits_val ds) - 1 \<mapsto> body @ footer_marker))
       (find_all html_content) Map.empty"

subsection \<open>The parts of a rendered page as the pattern sees them\<close>

text \<open>The text before the content marker, the text \<open>(.*?)\<close> captures, and the text after
  the footer marker, in the fragment of \<open>render_page\<close>.\<close>

definition page_head :: "int \<Rightarrow> int \<Rightarrow> pystr" where
  \<open>page_head page_num total_pages =
     [10] @ u ''        <div class="page-header" id="page-'' @ str_int page_num @
       u ''">P'' @ [225] @ u ''gina '' @ str_int page_num @ u '' de '' @ str_int total_pages @
       u ''</div>'' @ [10] @ u ''        ''\<close>

definition page_body :: "pystr \<Rightarrow> pystr" where
  \<open>page_body cleaned_result =
     [10] @ u ''            '' @ cleaned_result @ [10] @ u ''        </div>'' @ [10] @ u ''        ''\<close>

definition page_close :: pystr where
  \<open>page_close = u ''</div>'' @ [10] @ u ''        ''\<close>

lemmas marker_defs = content_marker_def footer_marker_def digits_close_def page_close_def u_def

lemma render_page_split:
  "render_page c n t =
   page_head n t @ content_marker @ str_int n @ digits_close @ page_body c @ footer_marker @ page_close"
  by (simp add: render_page_def page_head_def page_body_def marker_defs)

lemma no_start_of_str_int [simp]: "no_start_of content_marker (str_int i)"
proof (rule no_start_of_hd)
  show "content_marker \<noteq> []" by (simp add: marker_defs)
  have "hd content_marker = 60" by (simp add: marker_defs)
  with set_str_int [of i] show "hd content_marker \<notin> set (str_int i)"
    by (auto simp: is_ascii_digit_def)
qed

lemma page_head_inert: "no_start_of content_marker (page_head n t)"
  unfolding page_head_def
  by (intro no_start_of_append no_start_of_str_int) (simp_all add: marker_defs)

lemma page_close_inert: "no_start_of content_marker page_close"
  by (simp add: marker_defs)

lemma footer_inert: "no_start_of content_marker footer_marker"
  by (simp add: marker_defs)

subsection \<open>The scan\<close>

lemma find_all_skip:
  "no_start_of content_marker x \<Longrightarrow> find_all (x @ r) = find_all r"
proof (induction x)
  case Nil
  then show ?case by simp
next
  case (Cons c x)
  from no_start_of_not_prefix [OF Cons.prems, of r]
  have "match_at (c # x @ r) = None" by (simp add: match_at_def)
  with Cons show ?case by simp
qed

lemma find_all_match:
  "match_at s = Some (ds, body, rest) \<Longrightarrow> find_all s = (ds, body) # find_all rest"
  by (cases s) (auto simp: match_at_def marker_defs)

lemma match_at_fragment:
  assumes "\<not> sublist footer_marker (body @ butlast footer_marker)"
  shows "match_at (content_marker @ str_nat k @ digits_close @ body @ footer_marker @ rest) =
         Some (str_nat k, body, rest)"
proof -
  have dig: "\<And>x. x \<in> set (str_nat k) \<Longrightarrow> is_ascii_digit x"
    using str_nat_digits by blast
  have dc: "digits_close = [34, 62]" by (simp add: marker_defs)
  have tw: "takeWhile is_ascii_digit (str_nat k @ digits_close @ body @ footer_marker @ rest) = str_nat k"
    by (simp add: takeWhile_append2 [of "str_nat k" is_ascii_digit, OF dig] dc is_ascii_digit_def)
  have dw: "dropWhile is_ascii_digit (str_nat k @ digits_close @ body @ footer_marker @ rest) =
            digits_close @ body @ footer_marker @ rest"
    by (simp add: dropWhile_append2 [of "str_nat k" is_ascii_digit, OF dig] dc is_ascii_digit_def)
  have "footer_marker \<noteq> []" by (simp add: marker_defs)
  from split_first_append [OF this assms]
  show ?thesis by (simp add: match_at_def Let_def tw dw)
qed

lemma page_body_footer_free:
  assumes "\<not> sublist footer_marker c"
  shows "\<not> sublist footer_marker (page_body c @ butlast footer_marker)"
proof
  assume s: "sublist footer_marker (page_body c @ butlast footer_marker)"
  have nl: "10 \<notin> set footer_marker" and ne: "footer_marker \<noteq> []"
    and h: "hd footer_marker = 60" and len: "length footer_marker = 25"
    by (simp_all add: marker_defs)
  have sp: "\<And>n. hd footer_marker \<notin> set (replicate n (32::nat))" using h by simp
  have "page_body c @ butlast footer_marker =
        [] @ 10 # (replicate 12 32 @ c) @ 10 # (replicate 8 32 @ u ''</div>'') @
        10 # (replicate 8 32 @ butlast footer_marker)"
    by (simp add: page_body_def u_def numeral_eq_Suc)
  with s nl consider "sublist footer_marker []" | "sublist footer_marker (replicate 12 32 @ c)"
    | "sublist footer_marker (replicate 8 32 @ u ''</div>'')"
    | "sublist footer_marker (replicate 8 32 @ butlast footer_marker)"
    by (metis sublist_sep)
  then show False
  proof cases
    case 1
    with ne show ?thesis by simp
  next
    case 2
    with assms show ?thesis using sublist_skip_hd [OF ne sp] by blast
  next
    case 3
    then have "length footer_marker \<le> 14" by (auto dest: sublist_length_le simp: u_def)
    with len show ?thesis by simp
  next
    case 4
    then have "sublist footer_marker (butlast footer_marker)" using sublist_skip_hd [OF ne sp] by blast
    then have "length footer_marker \<le> length (butlast footer_marker)" by (rule sublist_length_le)
    with len show ?thesis by simp
  qed
qed

lemma find_all_render_page:
  assumes "0 \<le> n" and "\<not> sublist footer_marker c"
  shows "find_all (render_page c n t @ r) = (str_nat (nat n), page_body c) # find_all r"
proof -
  have m: "match_at (content_marker @ str_nat (nat n) @ digits_close @ page_body c @ footer_marker @
                     page_close @ r) = Some (str_nat (nat n), page_body c, page_close @ r)"
    by (rule match_at_fragment) (rule page_body_footer_free [OF assms(2)])
  have "find_all (render_page c n t @ r) =
        find_all (content_marker @ str_nat (nat n) @ digits_close @ page_body c @ footer_marker @ page_close @ r)"
    using find_all_skip [OF page_head_inert] assms(1)
    by (simp add: render_page_split str_int_nonneg)
  also have "\<dots> = (str_nat (nat n), page_body c) # find_all (page_close @ r)"
    by (rule find_all_match [OF m])
  also have "find_all (page_close @ r) = find_all r"
    by (rule find_all_skip [OF page_close_inert])
  finally show ?thesis .
qed

lemma find_all_pages:
  "\<forall>(c, n) \<in> set ps. 0 \<le> n \<and> \<not> sublist footer_marker c \<Longrightarrow>
   find_all (concat (map (\<lambda>(c, n). render_page c n t) ps) @ r) =
   map (\<lambda>(c, n). (str_nat (nat n), page_body c)) ps @ find_all r"
proof (induction ps)
  case Nil
  then show ?case by simp
next
  case (Cons p ps)
  obtain c n where p: "p = (c, n)" by fastforce
  with Cons.prems have "0 \<le> n" and "\<not> sublist footer_marker c" by auto
  from find_all_render_page [OF this, of t "concat (map (\<lambda>(c, n). render_page c n t) ps) @ r"]
    Cons p show ?case by simp
qed

lemma page_key: "0 \<le> n \<Longrightarrow> int (digits_val (str_nat (nat n))) - 1 = n - 1"
  by simp

text \<open>Reading back a sequence of rendered pages, each numbered from 1 and
  with a text that holds no footer marker, gives for page \<open>n - 1\<close> the text of its
  content block followed by the footer marker; a page rendered twice keeps its last
  text.\<close>

lemma extract_content_pages:
  assumes "\<forall>(c, n) \<in> set ps. 0 \<le> n \<and> \<not> sublist footer_marker c"
  shows "extract_content (concat (map (\<lambda>(c, n). render_page c n t) ps)) =
         map_of (rev (map (\<lambda>(c, n). (n - 1, page_body c @ footer_marker)) ps))"
proof -
  have fa: "find_all (concat (map (\<lambda>(c, n). render_page c n t) ps)) =
            map (\<lambda>(c, n). (str_nat (nat n), page_body c)) ps"
    using find_all_pages [OF assms, of t "[]"] by simp
  have ec: "extract_content h = map_of (rev (map (\<lambda>(ds, body). (int (digits_val ds) - 1,
                    body @ footer_marker)) (find_all h)))" for h
    using fold_update_map_of [of "\<lambda>ds. int (digits_val ds) - 1" "\<lambda>body. body @ footer_marker"
        "find_all h" Map.empty]
    by (simp add: extract_content_def)
  have "extract_content (concat (map (\<lambda>(c, n). render_page c n t) ps)) =
        map_of (rev (map (\<lambda>(ds, body). (int (digits_val ds) - 1, body @ footer_marker))
          (map (\<lambda>(c, n). (str_nat (nat n), page_body c)) ps)))"
    by (simp only: ec fa)
  also have "map (\<lambda>(ds, body). (int (digits_val ds) - 1, body @ footer_marker))
          (map (\<lambda>(c, n). (str_nat (nat n), page_body c)) ps) =
        map (\<lambda>(c, n). (n - 1, page_body c @ footer_marker)) ps"
    using assms by (auto simp: page_key)
  finally show ?thesis .
qed

text \<open>C19. One page: reading back the fragment of page \<open>n\<close> (1-based) recovers its
  cleaned text inside the fixed indentation of the content block, under the 0-based key.\<close>

theorem extract_render_page:
  "0 \<le> n \<Longrightarrow> \<not> sublist footer_marker c \<Longrightarrow>
   extract_content (render_page c n t) =
   [n - 1 \<mapsto> [10] @ u ''            '' @ c @ [10] @ u ''        </div>'' @ [10] @ u ''        '' @ footer_marker]"
  using extract_content_pages [of "[(c, n)]" t] by (simp add: page_body_def)

theorem extract_render_page_witness:
  "extract_content (render_page (u ''x = 1'') 1 2) =
   [0 \<mapsto> [10] @ u ''            '' @ u ''x = 1'' @ [10] @ u ''        </div>'' @ [10] @ u ''        '' @ footer_marker]"
proof -
  have "0 \<le> (1::int)" by simp
  moreover have "\<not> sublist footer_marker (u ''x = 1'')"
    by (auto dest: sublist_length_le simp: marker_defs)
  ultimately show ?thesis using extract_render_page [of 1 "u ''x = 1''" 2] by simp
qed

subsection \<open>The static template holds no content marker\<close>

lemma no_start_of_lines_nl:
  "no_start_of m [10] \<Longrightarrow> list_all (no_start_of m) ls \<Longrightarrow> no_start_of m (lines_nl ls)"
proof (induction ls)
  case Nil
  then show ?case by simp
next
  case (Cons l ls)
  then have "no_start_of m (l @ [10] @ lines_nl ls)"
    by (intro no_start_of_append) simp_all
  then show ?case by simp
qed

lemma html_head_doc_inert: "list_all (no_start_of content_marker) html_head_doc"
  by (simp add: html_head_doc_def marker_defs)

lemma html_head_style_1_inert: "list_all (no_start_of content_marker) html_head_style_1"
  by (simp add: html_head_style_1_def marker_defs)

lemma html_head_style_2_inert: "list_all (no_start_of content_marker) html_head_style_2"
  by (simp add: html_head_style_2_def marker_defs)

lemma html_head_style_3_inert: "list_all (no_start_of content_marker) html_head_style_3"
  by (simp add: html_head_style_3_def marker_defs)

lemma html_head_body_inert: "list_all (no_start_of content_marker) html_head_body"
  by (simp add: html_head_body_def marker_defs)

lemma html_tail_controls_inert: "list_all (no_start_of content_marker) html_tail_controls"
  by (simp add: html_tail_controls_def marker_defs)

lemma html_tail_script_1_inert: "list_all (no_start_of content_marker) html_tail_script_1"
  by (simp add: html_tail_script_1_def marker_defs)

lemma html_tail_script_2_inert: "list_all (no_start_of content_marker) html_tail_script_2"
  by (simp add: html_tail_script_2_def marker_defs)

lemma html_index_lines_inert: "list_all (no_start_of content_marker) html_index_lines"
  by (simp add: html_index_lines_def marker_defs)

lemma html_main_lines_inert: "list_all (no_start_of content_marker) html_main_lines"
  by (simp add: html_main_lines_def marker_defs)

lemma no_start_of_concat:
  "list_all (no_start_of m) xs \<Longrightarrow> no_start_of m (concat xs)"
  by (induction xs) (simp_all add: no_start_of_append)

lemma no_start_of_str_nat [simp]: "no_start_of content_marker (str_nat k)"
  using no_start_of_str_int [of "int k"] by (simp add: str_int_def)

lemma generate_index_links_inert: "no_start_of content_marker (generate_index_links ps)"
proof -
  have "no_start_of content_marker (index_link p)" for p
    unfolding index_link_def Let_def
    by (intro no_start_of_append no_start_of_str_int) (simp_all add: marker_defs)
  then show ?thesis
    unfolding generate_index_links_def by (intro no_start_of_concat) (simp add: list_all_iff)
qed

lemma html_head_inert: "no_start_of content_marker html_head"
  unfolding html_head_def
  by (intro no_start_of_append no_start_of_lines_nl)
    (simp_all add: html_head_doc_inert html_head_style_1_inert html_head_style_2_inert
      html_head_style_3_inert html_head_body_inert, simp_all add: marker_defs)

lemma html_tail_inert: "no_start_of content_marker html_tail"
  unfolding html_tail_def
  by (intro no_start_of_append no_start_of_lines_nl)
    (simp_all add: html_tail_controls_inert html_tail_script_1_inert html_tail_script_2_inert,
     simp_all add: marker_defs)

lemma html_middle_inert:
  "no_start_of content_marker html_bar_close" "no_start_of content_marker html_count_sep"
  "no_start_of content_marker html_pages_label" "no_start_of content_marker html_index_open"
  "no_start_of content_marker html_main_open"
proof -
  show "no_start_of content_marker html_bar_close"
    by (simp add: html_bar_close_def marker_defs)
  show "no_start_of content_marker html_count_sep"
    by (simp add: html_count_sep_def marker_defs)
  show "no_start_of content_marker html_pages_label"
    by (simp add: html_pages_label_def marker_defs)
  show "no_start_of content_marker html_index_open"
    unfolding html_index_open_def
    by (intro no_start_of_append no_start_of_lines_nl html_index_lines_inert) (simp_all add: marker_defs)
  show "no_start_of content_marker html_main_open"
    unfolding html_main_open_def
    by (intro no_start_of_append no_start_of_lines_nl html_main_lines_inert) (simp_all add: marker_defs)
qed

text \<open>Everything \<open>_save_html_file\<close> writes around the content is passed over by the scan,
  provided the formatted percentage holds no content marker (CPython prints a float as
  digits, a point, a sign or an exponent).\<close>

lemma html_document_find_all:
  assumes fmt: "\<forall>n t. no_start_of content_marker (fmt n t)"
    and doc: "html_document fmt ps tot content = Inr d"
  shows "find_all d = find_all (content @ html_tail)"
proof -
  from doc have t: "tot \<noteq> 0" by (auto simp: html_document_def)
  let ?P = "html_head @ fmt (length ps) tot @ html_bar_close @ str_nat (length ps) @ html_count_sep @
            str_int tot @ html_pages_label @ fmt (length ps) tot @ html_index_open @
            generate_index_links ps @ html_main_open"
  from doc t have d: "d = ?P @ content @ html_tail" by (simp add: html_document_Inr)
  have "no_start_of content_marker ?P"
    using fmt by (intro no_start_of_append html_head_inert html_middle_inert
        generate_index_links_inert no_start_of_str_nat no_start_of_str_int) simp_all
  then have "find_all (?P @ (content @ html_tail)) = find_all (content @ html_tail)"
    by (rule find_all_skip)
  with d show ?thesis by simp
qed

lemma find_all_html_tail: "find_all html_tail = []"
  using find_all_skip [OF html_tail_inert, of "[]"] by simp

text \<open>The Content Merger reads back every page of a document written by
  \<open>_save_html_file\<close> whose content is a sequence of rendered pages: the static template,
  the progress banner and the index never produce or hide a match.\<close>

lemma extract_saved_document:
  assumes fmt: "\<forall>n t. no_start_of content_marker (fmt n t)"
    and pages: "\<forall>(c, n) \<in> set pages. 0 \<le> n \<and> \<not> sublist footer_marker c"
    and doc: "html_document fmt ps tot (concat (map (\<lambda>(c, n). render_page c n t) pages)) = Inr d"
  shows "extract_content d = extract_content (concat (map (\<lambda>(c, n). render_page c n t) pages))"
proof -
  have "find_all d = find_all (concat (map (\<lambda>(c, n). render_page c n t) pages) @ html_tail)"
    by (rule html_document_find_all [OF fmt doc])
  also have "\<dots> = find_all (concat (map (\<lambda>(c, n). render_page c n t) pages))"
    using find_all_pages [OF pages, of t html_tail] find_all_pages [OF pages, of t "[]"]
    by (simp add: find_all_html_tail)
  finally show ?thesis by (simp add: extract_content_def)
qed

lemma reemitted_entry_inert:
  assumes "\<not> sublist content_marker c"
  shows "no_start_of content_marker (page_body c @ footer_marker)"
proof -
  have ne: "content_marker \<noteq> []" and nl: "10 \<notin> set content_marker"
    and h: "hd content_marker = 60" and len: "length content_marker = 37"
    by (simp_all add: marker_defs)
  have sp: "\<And>n. hd content_marker \<notin> set (replicate n (32::nat))" using h by simp
  have c: "\<not> sublist content_marker (replicate 12 32 @ c)"
    using assms sublist_skip_hd [OF ne sp] by blast
  have d: "\<not> sublist content_marker (replicate 8 32 @ u ''</div>'')"
    using len by (auto dest: sublist_length_le simp: u_def)
  have f: "no_start_of content_marker (replicate 8 32 @ footer_marker)"
    by (intro no_start_of_append footer_inert no_start_of_hd [OF ne]) (simp add: h)
  have eq: "page_body c @ footer_marker =
        [] @ 10 # (replicate 12 32 @ c) @ 10 # (replicate 8 32 @ u ''</div>'') @
        10 # (replicate 8 32 @ footer_marker)"
    by (simp add: page_body_def u_def numeral_eq_Suc)
  show ?thesis
    unfolding eq using ne nl c d f by (intro no_start_of_sep) simp_all
qed

lemma no_start_of_suffix: "no_start_of m (a @ b) \<Longrightarrow> no_start_of m b"
  by (induction a) simp_all

text \<open>C18. What line 184 stores for a page of a document the program wrote (the
  captured text and the footer marker, \<open>existing_content[page_num]\<close>) has lost the header
  and the content marker: when a skipped page re-emits it (line 99) and the document is
  written again, a later run reads nothing back from it, and the page drops out of the
  merge.\<close>

theorem extract_reemitted_entry:
  assumes fmt: "\<forall>n t. no_start_of content_marker (fmt n t)"
    and pages: "\<forall>(c, n) \<in> set pages. 0 \<le> n \<and> \<not> sublist footer_marker c \<and> \<not> sublist content_marker c"
    and doc: "html_document fmt ps tot (concat (map (\<lambda>(c, n). render_page c n t) pages)) = Inr d"
    and stored: "extract_content d q = Some x"
  shows "extract_content x = Map.empty"
proof -
  have pg: "\<forall>(c, n) \<in> set pages. 0 \<le> n \<and> \<not> sublist footer_marker c" using pages by auto
  have "extract_content d = map_of (rev (map (\<lambda>(c, n). (n - 1, page_body c @ footer_marker)) pages))"
    using extract_saved_document [OF fmt pg doc] extract_content_pages [OF pg] by simp
  with stored have "(q, x) \<in> set (map (\<lambda>(c, n). (n - 1, page_body c @ footer_marker)) pages)"
    by (auto dest: map_of_SomeD)
  then obtain c n where "(c, n) \<in> set pages" and x: "x = page_body c @ footer_marker" by auto
  with pages have "\<not> sublist content_marker c" by auto
  from find_all_skip [OF reemitted_entry_inert [OF this], of "[]"] x
  show ?thesis by (simp add: extract_content_def)
qed

theorem extract_reemitted_entry_witness:
  "\<exists>d x. html_document (\<lambda>n t. str_nat n) [0] 1 (concat (map (\<lambda>(c, n). render_page c n 1) [(u ''x'', 1)])) = Inr d \<and>
         extract_content d 0 = Some x \<and> extract_content x = Map.empty"
proof -
  have fmt: "\<forall>n t. no_start_of content_marker ((\<lambda>n (t::int). str_nat n) n t)" by simp
  have nf: "\<not> sublist footer_marker (u ''x'')" and nc: "\<not> sublist content_marker (u ''x'')"
    by (auto dest: sublist_length_le simp: marker_defs)
  then have pages: "\<forall>(c, n) \<in> set [(u ''x'', 1::int)]. 0 \<le> n \<and> \<not> sublist footer_marker c \<and> \<not> sublist content_marker c"
    by simp
  obtain d where doc: "html_document (\<lambda>n t. str_nat n) [0] 1 (concat (map (\<lambda>(c, n). render_page c n 1) [(u ''x'', 1)])) = Inr d"
    by (simp add: html_document_def Let_def)
  have "extract_content d = map_of (rev (map (\<lambda>(c, n). (n - 1, page_body c @ footer_marker)) [(u ''x'', 1::int)]))"
    using extract_saved_document [OF fmt _ doc] extract_content_pages [of "[(u ''x'', 1)]" 1] nf by simp
  then have "extract_content d 0 = Some (page_body (u ''x'') @ footer_marker)" by simp
  with extract_reemitted_entry [OF fmt pages doc this] doc show ?thesis by blast
qed

lemma render_page_cut:
  assumes "c = pre @ footer_marker @ post"
  shows "render_page c n t =
         page_head n t @ content_marker @ str_int n @ digits_close @ ([10] @ u ''            '' @ pre) @
         footer_marker @ (post @ [10] @ u ''        </div>'' @ [10] @ u ''        '' @ footer_marker @ page_close)"
  using assms by (simp add: render_page_split page_body_def)

lemma cut_body_footer_free:
  assumes "\<not> sublist footer_marker (pre @ butlast footer_marker)"
  shows "\<not> sublist footer_marker (([10] @ u ''            '' @ pre) @ butlast footer_marker)"
proof
  assume s: "sublist footer_marker (([10] @ u ''            '' @ pre) @ butlast footer_marker)"
  have nl: "10 \<notin> set footer_marker" and ne: "footer_marker \<noteq> []" and h: "hd footer_marker = 60"
    by (simp_all add: marker_defs)
  have sp: "\<And>n. hd footer_marker \<notin> set (replicate n (32::nat))" using h by simp
  have "([10] @ u ''            '' @ pre) @ butlast footer_marker =
        [] @ 10 # (replicate 12 32 @ pre @ butlast footer_marker)"
    by (simp add: u_def numeral_eq_Suc)
  with s nl have "sublist footer_marker [] \<or> sublist footer_marker (replicate 12 32 @ pre @ butlast footer_marker)"
    by (metis sublist_sep)
  with ne assms sublist_skip_hd [OF ne sp] show False by auto
qed

text \<open>C20. A recognised text that itself contains the footer marker is cut at its first
  occurrence when the page is read back: the lazy group of the pattern stops there, so
  what follows the marker in the text is lost from the merged document.\<close>

theorem extract_truncates_at_footer:
  assumes cut: "split_first footer_marker c = Some (pre, post)"
    and nc: "\<not> sublist content_marker c" and n: "0 \<le> n"
  shows "extract_content (render_page c n t) = [n - 1 \<mapsto> [10] @ u ''            '' @ pre @ footer_marker]"
proof -
  let ?B = "[10] @ u ''            '' @ pre"
  let ?R = "post @ [10] @ u ''        </div>'' @ [10] @ u ''        '' @ footer_marker @ page_close"
  have ne: "footer_marker \<noteq> []" by (simp add: marker_defs)
  have c: "c = pre @ footer_marker @ post" by (rule split_first_Some [OF cut])
  have m: "match_at (content_marker @ str_nat (nat n) @ digits_close @ ?B @ footer_marker @ ?R) =
           Some (str_nat (nat n), ?B, ?R)"
    by (rule match_at_fragment, rule cut_body_footer_free, rule split_first_first [OF ne cut])
  have "no_start_of content_marker (page_body c @ footer_marker)"
    by (rule reemitted_entry_inert [OF nc])
  then have "no_start_of content_marker (([10] @ u ''            '' @ pre @ footer_marker) @
      (post @ [10] @ u ''        </div>'' @ [10] @ u ''        '' @ footer_marker))"
    by (simp add: c page_body_def)
  then have "no_start_of content_marker (post @ [10] @ u ''        </div>'' @ [10] @ u ''        '' @ footer_marker)"
    by (rule no_start_of_suffix)
  from no_start_of_append [OF this page_close_inert]
  have r: "no_start_of content_marker ?R" by (simp del: u_Cons)
  have "find_all (render_page c n t) = find_all (content_marker @ str_nat (nat n) @ digits_close @ ?B @ footer_marker @ ?R)"
    using find_all_skip [OF page_head_inert] n by (simp add: render_page_cut [OF c] str_int_nonneg del: u_Cons)
  also have "\<dots> = [(str_nat (nat n), ?B)]"
    using find_all_match [OF m] find_all_skip [OF r, of "[]"] by simp
  finally show ?thesis using n by (simp add: extract_content_def del: u_Cons)
qed

theorem extract_truncates_at_footer_witness:
  "split_first footer_marker (u ''a'' @ footer_marker @ u ''b'') = Some (u ''a'', u ''b'') \<and>
   \<not> sublist content_marker (u ''a'' @ footer_marker @ u ''b'') \<and> 0 \<le> (1::int) \<and>
   extract_content (render_page (u ''a'' @ footer_marker @ u ''b'') 1 1) =
     [0 \<mapsto> [10] @ u ''            '' @ u ''a'' @ footer_marker]"
proof -
  have cut: "split_first footer_marker (u ''a'' @ footer_marker @ u ''b'') = Some (u ''a'', u ''b'')"
    by (simp add: marker_defs)
  have nc: "\<not> sublist content_marker (u ''a'' @ footer_marker @ u ''b'')"
    by (auto dest: sublist_length_le simp: marker_defs)
  from extract_truncates_at_footer [OF cut nc, of 1 1] cut nc show ?thesis by simp
qed

end
