(* ===== verification/Store.thy ===== *)
theory Store
  imports Prelude
begin

text \<open>
  The state that \<open>src/main.py\<close> keeps between pages and between runs: the fields of a
  \<open>GeminiOCR\<close> object that track a document (\<open>__init__\<close>, lines 18--21), the file
  system the program reads and writes, the JSON progress record of
  \<open>_update_progress_file\<close> (lines 192--204), the text write of \<open>_save_html_file\<close>
  (lines 527--528) and the start-page logic of
  \<open>_process_pdf\<close> (lines 50--75), together with the \<open>os.path\<close> and \<open>str\<close>
  helpers \<open>process_document\<close> uses to name the files (lines 28--30, 54, 57, 629).

  File contents are modelled at the level of the value the program reads: an HTML file
  is its text, a progress file is the JSON object as \<open>json.load\<close> returns it, a PDF
  is the list of its page images at the resolution the program rasterises them, an
  image file is its image. The \<open>json\<close> module's round trip is the library's.
\<close>

record ocr =
  current_page :: int
  total_pages :: int
  processed_pages :: "int list"

definition init_ocr :: ocr where
  "init_ocr = \<lparr>current_page = 0, total_pages = 0, processed_pages = []\<rparr>"

text \<open>\<open>round(n * 100 / t, 2)\<close> as its operands: the float is a function of them.\<close>

datatype pct = Pct_round2 nat int

text \<open>The JSON object of a progress file; \<open>None\<close> stands for a missing key or \<open>null\<close>.\<close>

record progress_json =
  pj_total_pages :: "int option"
  pj_processed_pages :: "int list option"
  pj_last_page :: "int option"
  pj_progress_percentage :: "pct option"

datatype 'img fs_entry =
    Text_File pystr
  | Progress_File progress_json
  | Pdf_File "'img list"
  | Image_File 'img
  | Binary_File

type_synonym 'img files = "path \<rightharpoonup> 'img fs_entry"

subsection \<open>The progress file\<close>

text \<open>The dict of lines 194--201; the division raises when the document has no pages.\<close>

definition progress_record :: "ocr \<Rightarrow> int option \<Rightarrow> error + progress_json" where
  "progress_record st last_processed =
     (if total_pages st = 0 then Inl Zero_Division_Error
      else Inr \<lparr>pj_total_pages = Some (total_pages st),
                pj_processed_pages = Some (sort (processed_pages st)),
                pj_last_page = last_processed,
                pj_progress_percentage =
                  Some (Pct_round2 (length (processed_pages st)) (total_pages st))\<rparr>)"

text \<open>\<open>_update_progress_file\<close>: build the record, then \<open>open(progress_file, "w")\<close> and
  \<open>json.dump\<close>; \<open>writable\<close> says whether the open succeeds.\<close>

definition update_progress_file ::
  "(path \<Rightarrow> bool) \<Rightarrow> ocr \<Rightarrow> path \<Rightarrow> int option \<Rightarrow> 'img files \<Rightarrow> error + 'img files" where
  "update_progress_file writable st progress_file last_processed fs =
     (case progress_record st last_processed of
        Inl e \<Rightarrow> Inl e
      | Inr r \<Rightarrow>
          if writable progress_file then Inr (fs(progress_file \<mapsto> Progress_File r))
          else Inl (Write_Error progress_file))"

text \<open>Lines 527--528 of \<open>_save_html_file\<close>: \<open>open(output_path, "w")\<close> and
  \<open>f.write(html)\<close>; the file is replaced by the text, or the open raises.\<close>

definition write_text_file :: "(path \<Rightarrow> bool) \<Rightarrow> path \<Rightarrow> pystr \<Rightarrow> 'img files \<Rightarrow> error + 'img files" where
  "write_text_file writable output_path html fs =
     (if writable output_path then Inr (fs(output_path \<mapsto> Text_File html))
      else Inl (Write_Error output_path))"

text \<open>Lines 60--75: what a run learns from the progress file. \<open>None\<close> when the file does
  not exist; else \<open>progress_data.get("processed_pages", [])\<close> and
  \<open>progress_data.get("last_page")\<close>; a file that is not a progress object makes
  \<open>json.load\<close> (or \<open>.get\<close>) raise.\<close>

definition load_progress :: "'img files \<Rightarrow> path \<Rightarrow> error + (int list \<times> int option) option" where
  "load_progress fs progress_file =
     (case fs progress_file of
        None \<Rightarrow> Inr None
      | Some (Progress_File pj) \<Rightarrow>
          Inr (Some (case pj_processed_pages pj of None \<Rightarrow> [] | Some ps \<Rightarrow> ps, pj_last_page pj))
      | Some _ \<Rightarrow> Inl (Json_Error progress_file))"

text \<open>Lines 51 and 65--70: clamp the requested start page into \<open>[0, total_pages - 1]\<close>
  (to 0 when the document is empty), then resume after \<open>last_page\<close> when the clamped
  value is 0 and the progress file records a last page.\<close>

definition start_page_of :: "int \<Rightarrow> int \<Rightarrow> (int list \<times> int option) option \<Rightarrow> int" where
  "start_page_of start_page page_count loaded =
     (let cp = max 0 (min start_page (page_count - 1))
      in case loaded of
           Some (_, Some last_page) \<Rightarrow> if cp = 0 then last_page + 1 else cp
         | _ \<Rightarrow> cp)"

subsection \<open>Names of files\<close>

definition ascii_lower :: "nat \<Rightarrow> nat" where
  "ascii_lower c = (if 65 \<le> c \<and> c \<le> 90 then c + 32 else c)"

text \<open>\<open>s.split(".")[-1]\<close>: the text after the last dot, or all of \<open>s\<close>.\<close>

definition last_dot_segment :: "pystr \<Rightarrow> pystr" where
  "last_dot_segment s = rev (takeWhile (\<lambda>c. c \<noteq> 46) (rev s))"

text \<open>\<open>s.rsplit(".", 1)[0]\<close>: the text before the last dot, or all of \<open>s\<close>.\<close>

definition before_last_dot :: "pystr \<Rightarrow> pystr" where
  "before_last_dot s = (if 46 \<in> set s then rev (tl (dropWhile (\<lambda>c. c \<noteq> 46) (rev s))) else s)"

text \<open>\<open>posixpath.basename\<close>, \<open>posixpath.dirname\<close> and \<open>posixpath.join\<close> (47 is \<open>/\<close>).\<close>

definition basename :: "path \<Rightarrow> path" where
  "basename p = rev (takeWhile (\<lambda>c. c \<noteq> 47) (rev p))"

definition dirname :: "path \<Rightarrow> path" where
  "dirname p =
     (let head = rev (dropWhile (\<lambda>c. c \<noteq> 47) (rev p))
      in if head \<noteq> [] \<and> head \<noteq> replicate (length head) 47
         then rev (dropWhile (\<lambda>c. c = 47) (rev head)) else head)"

definition path_join :: "path \<Rightarrow> path \<Rightarrow> path" where
  "path_join a b =
     (if b \<noteq> [] \<and> hd b = 47 then b
      else if a = [] \<or> last a = 47 then a @ b
      else a @ [47] @ b)"


subsection \<open>Properties\<close>

text \<open>With no start page requested (any value that clamps to 0), a run resumes right
  after the last page the progress file records, whatever that page is.\<close>

theorem start_page_resume:
  "max 0 (min start_page (page_count - 1)) = 0 \<Longrightarrow>
   start_page_of start_page page_count (Some (ps, Some k)) = k + 1"
  by (simp add: start_page_of_def)

theorem start_page_resume_witness:
  "max 0 (min 0 (3 - 1)) = (0::int) \<and> start_page_of 0 3 (Some ([0, 1], Some 1)) = 2"
  using start_page_resume [of 0 3 "[0, 1]" 1] by simp

text \<open>C7. An explicit request to start at page 0 is not honoured when a progress
  file records a last page: the run starts after it, so a document cannot be redone from
  its first page while its progress file exists.\<close>

theorem start_page_zero_overridden:
  "0 \<le> k \<Longrightarrow> start_page_of 0 page_count (Some (ps, Some k)) \<noteq> 0"
  by (simp add: start_page_of_def)

theorem start_page_zero_overridden_witness:
  "0 \<le> (1::int) \<and> start_page_of 0 3 (Some ([0, 1], Some 1)) \<noteq> 0"
  using start_page_zero_overridden [of 1 3 "[0, 1]"] by simp

text \<open>Without a progress record the start page is the requested one clamped into
  the document: never negative, and inside the document when it has pages.\<close>

theorem start_page_fresh_range:
  "0 \<le> start_page_of start_page page_count None \<and>
   (0 < page_count \<longrightarrow> start_page_of start_page page_count None < page_count)"
  by (simp add: start_page_of_def, arith)


theorem start_page_fresh_range_witness:
  "0 \<le> start_page_of 5 3 None \<and> start_page_of 5 3 None < 3"
  using start_page_fresh_range [of 5 3] by simp

lemma last_path_join: "b \<noteq> [] \<Longrightarrow> last (path_join a b) = last b"
  by (simp add: path_join_def)

lemma last_dot_segment_pdf:
  assumes "last_dot_segment (map ascii_lower p) = u ''pdf''"
  shows "p \<noteq> [] \<and> ascii_lower (last p) = 102"
proof -
  from assms have r: "takeWhile (\<lambda>c. c \<noteq> 46) (rev (map ascii_lower p)) = [102, 100, 112]"
    by (simp add: last_dot_segment_def u_def rev_swap)
  then have "rev (map ascii_lower p) \<noteq> []" by auto
  then have ne: "p \<noteq> []" by simp
  from r have "hd (rev (map ascii_lower p)) = 102"
    by (metis hd_append2 list.sel(1) list.simps(3) takeWhile_dropWhile_id)
  with ne show ?thesis by (simp add: hd_rev last_map)
qed


lemma ascii_lower_102: "ascii_lower c = 102 \<Longrightarrow> c = 102 \<or> c = 70"
  by (simp add: ascii_lower_def split: if_splits)

text \<open>C23. For a PDF input the output document, the progress file and the input are three
  different files, so writing one never overwrites another.\<close>

theorem pdf_output_paths_distinct:
  assumes "last_dot_segment (map ascii_lower p) = u ''pdf''"
  shows "path_join (dirname p) (before_last_dot (basename p) @ u ''_processado.html'') \<noteq>
           path_join (dirname p) (before_last_dot (basename p) @ u ''_progresso.json'') \<and>
         path_join (dirname p) (before_last_dot (basename p) @ u ''_processado.html'') \<noteq> p \<and>
         path_join (dirname p) (before_last_dot (basename p) @ u ''_progresso.json'') \<noteq> p"
proof -
  let ?h = "path_join (dirname p) (before_last_dot (basename p) @ u ''_processado.html'')"
  let ?j = "path_join (dirname p) (before_last_dot (basename p) @ u ''_progresso.json'')"
  from last_dot_segment_pdf [OF assms] have "ascii_lower (last p) = 102" by simp
  then have lp: "last p = 102 \<or> last p = 70" by (rule ascii_lower_102)
  have h: "last ?h = 108" and j: "last ?j = 110"
    by (simp_all add: last_path_join u_def)
  have "last ?h \<noteq> last ?j" using h j by simp
  then have "?h \<noteq> ?j" by (rule contrapos_nn) simp
  moreover have "last ?h \<noteq> last p" using h lp by auto
  then have "?h \<noteq> p" by (rule contrapos_nn) simp
  moreover have "last ?j \<noteq> last p" using j lp by auto
  then have "?j \<noteq> p" by (rule contrapos_nn) simp
  ultimately show ?thesis by blast
qed


theorem pdf_output_paths_distinct_witness:
  "last_dot_segment (map ascii_lower (u ''docs/Livro.PDF'')) = u ''pdf'' \<and>
   path_join (dirname (u ''docs/Livro.PDF'')) (before_last_dot (basename (u ''docs/Livro.PDF'')) @ u ''_processado.html'') \<noteq>
     path_join (dirname (u ''docs/Livro.PDF'')) (before_last_dot (basename (u ''docs/Livro.PDF'')) @ u ''_progresso.json'')"
proof -
  have a: "last_dot_segment (map ascii_lower (u ''docs/Livro.PDF'')) = u ''pdf''"
    by (simp add: last_dot_segment_def ascii_lower_def u_def)
  have "path_join (dirname (u ''docs/Livro.PDF'')) (before_last_dot (basename (u ''docs/Livro.PDF'')) @ u ''_processado.html'') \<noteq>
     path_join (dirname (u ''docs/Livro.PDF'')) (before_last_dot (basename (u ''docs/Livro.PDF'')) @ u ''_progresso.json'')"
    using pdf_output_paths_distinct [OF a] by (rule conjunct1)
  with a show ?thesis by (rule conjI)
qed

end
