(* ===== verification/Pipeline.thy ===== *)
theory Pipeline
  imports Normalizer Extractor Store
begin

text \<open>
  The Document Pipeline of \<open>src/main.py\<close>: \<open>_process_page_content\<close> (lines 540--580),
  \<open>_save_html_file\<close> (lines 206--528), \<open>_extract_existing_content\<close>'s read
  (lines 171--190), the page loop and the error handler of \<open>_process_pdf\<close> (lines
  41--169), \<open>_process_technical\<close> (lines 626--635) and \<open>process_document\<close> (lines
  23--39). Effects are explicit: a run takes the object's fields (\<open>ocr\<close>) and a world of
  files and of the requests sent to the recognition service, and returns them updated.
  The external collaborators are the parameters in \<open>env\<close>: the service
  (\<open>self.model.generate_content([prompt, image])\<close>, which returns a response or raises),
  whether \<open>open(path, "w")\<close> succeeds, and CPython's text of the rounded percentage.
\<close>

record 'img env =
  recognize :: "pystr \<Rightarrow> 'img \<Rightarrow> error + response"
  writable :: "path \<Rightarrow> bool"
  fmt_pct :: "nat \<Rightarrow> int \<Rightarrow> pystr"

record 'img world =
  files :: "'img files"
  requests :: "'img list"

text \<open>The instruction sent with every page image (lines 542--566, a raw string).\<close>

definition ocr_prompt_lines :: "pystr list" where
  \<open>ocr_prompt_lines =
   [ u ''        Analise esta imagem e extraia:''
   , u ''        1. Texto completo preservando a formata'' @ [231] @ [227] @ u ''o''
   , u ''        2. Equa'' @ [231] @ [245] @ u ''es matem'' @ [225] @ u ''ticas em LaTeX (use $$ para display mode, $ para inline)''
   , u ''        3. Mantenha a precis'' @ [227] @ u ''o t'' @ [233] @ u ''cnica do conte'' @ [250] @ u ''do''
   , u ''        4. Preserve s'' @ [237] @ u ''mbolos especiais e nota'' @ [231] @ [245] @ u ''es matem'' @ [225] @ u ''ticas''
   , u ''        ''
   , u ''        IMPORTANTE para nota'' @ [231] @ [227] @ u ''o matem'' @ [225] @ u ''tica:''
   , u ''        1. Use '' @ [92] @ u ''arcsin (n'' @ [227] @ u ''o extarcsen ou arcsen)''
   , u ''        2. Use '' @ [92] @ u ''arccos (n'' @ [227] @ u ''o extarccos ou arccos)''
   , u ''        3. Use '' @ [92] @ u ''arctan (n'' @ [227] @ u ''o extarctan ou arctan)''
   , u ''        4. Use '' @ [92] @ u ''sin (n'' @ [227] @ u ''o sen)''
   , u ''        5. Use '' @ [92] @ u ''cos (n'' @ [227] @ u ''o cos)''
   , u ''        6. Use '' @ [92] @ u ''tan (n'' @ [227] @ u ''o tan)''
   , u ''        7. Use '' @ [92] @ u ''sqrt{} para raiz quadrada''
   , u ''        8. Use '' @ [92] @ u ''frac{}{} para fra'' @ [231] @ [245] @ u ''es''
   , u ''        ''
   , u ''        Para express'' @ [245] @ u ''es matem'' @ [225] @ u ''ticas:''
   , u ''        - Use $ $ para equa'' @ [231] @ [245] @ u ''es inline''
   , u ''        - Use $$ $$ para equa'' @ [231] @ [245] @ u ''es em display mode''
   , u ''        - Preserve todos os par'' @ [234] @ u ''nteses e sinais''
   , u ''        - Mantenha a formata'' @ [231] @ [227] @ u ''o precisa das fun'' @ [231] @ [245] @ u ''es trigonom'' @ [233] @ u ''tricas''
   , u ''        ''
   , u ''        Mantenha a estrutura do documento e a formata'' @ [231] @ [227] @ u ''o original.'' ]\<close>

definition ocr_prompt :: pystr where
  \<open>ocr_prompt = lines_nl ([] # ocr_prompt_lines) @ u ''        ''\<close>

text \<open>\<open>_process_page_content\<close>: one request to the service (recorded in \<open>requests\<close>
  whether it succeeds or not), then \<open>_clean_text\<close>, then the fragment.\<close>

definition process_page_content ::
  "'img env \<Rightarrow> 'img \<Rightarrow> int \<Rightarrow> int \<Rightarrow> 'img world \<Rightarrow> (error + pystr) \<times> 'img world" where
  "process_page_content E img page_num page_count w =
     (let w' = w\<lparr>requests := requests w @ [img]\<rparr>
      in case recognize E ocr_prompt img of
           Inl e \<Rightarrow> (Inl e, w')
         | Inr result \<Rightarrow>
             (case clean_text result of
                Inl e \<Rightarrow> (Inl e, w')
              | Inr cleaned_result \<Rightarrow> (Inr (render_page cleaned_result page_num page_count), w')))"

text \<open>\<open>_save_html_file\<close>: build the document, then write it.\<close>

definition save_html_file :: "'img env \<Rightarrow> ocr \<Rightarrow> path \<Rightarrow> pystr \<Rightarrow> 'img files \<Rightarrow> error + 'img files" where
  "save_html_file E st output_path content fs =
     (case html_document (fmt_pct E) (processed_pages st) (total_pages st) content of
        Inl e \<Rightarrow> Inl e
      | Inr html \<Rightarrow> write_text_file (writable E) output_path html fs)"

text \<open>\<open>_extract_existing_content\<close>: any failure to read the file gives the empty dict.\<close>

definition extract_existing_content :: "'img files \<Rightarrow> path \<Rightarrow> (int \<rightharpoonup> pystr)" where
  "extract_existing_content fs html_path =
     (case fs html_path of Some (Text_File html_content) \<Rightarrow> extract_content html_content | _ \<Rightarrow> Map.empty)"

text \<open>\<open>pdf_document[page_num]\<close>: negative indices count from the end, others raise.\<close>

definition doc_page :: "'img list \<Rightarrow> int \<Rightarrow> error + 'img" where
  "doc_page doc i =
     (let n = int (length doc)
      in if 0 \<le> i \<and> i < n then Inr (doc ! nat i)
         else if - n \<le> i \<and> i < 0 then Inr (doc ! nat (n + i))
         else Inl Index_Error)"

subsection \<open>The page loop of \<open>_process_pdf\<close>\<close>

text \<open>The locals of the loop (\<open>all_content\<close>, \<open>last_processed\<close>) with the object and the world.\<close>

record 'img run =
  obj :: ocr
  world :: "'img world"
  all_content :: pystr
  last_processed :: "int option"

text \<open>
  The body of an iteration for a page that is not skipped (lines 102--129): rasterise the
  page, send it to the service, append the fragment, record the page, rewrite the
  progress file and then the document. An exception leaves the loop with the state at
  that point: \<open>Inl (e, s)\<close>.
\<close>

definition process_new_page ::
  "'img env \<Rightarrow> path \<Rightarrow> path \<Rightarrow> 'img list \<Rightarrow> int \<Rightarrow> 'img run \<Rightarrow> (error \<times> 'img run) + 'img run" where
  "process_new_page E output_html progress_file doc page_num s1 =
     (case doc_page doc page_num of
        Inl e \<Rightarrow> Inl (e, s1)
      | Inr img \<Rightarrow>
          (case process_page_content E img (page_num + 1) (total_pages (obj s1)) (world s1) of
             (Inl e, w) \<Rightarrow> Inl (e, s1\<lparr>world := w\<rparr>)
           | (Inr page_content, w) \<Rightarrow>
               (let ps = processed_pages (obj s1);
                    st = (obj s1)\<lparr>processed_pages := (if page_num \<in> set ps then ps else ps @ [page_num])\<rparr>;
                    s2 = s1\<lparr>obj := st, world := w, all_content := all_content s1 @ page_content,
                            last_processed := Some page_num\<rparr>
                in case update_progress_file (writable E) st progress_file (Some page_num) (files w) of
                     Inl e \<Rightarrow> Inl (e, s2)
                   | Inr fs1 \<Rightarrow>
                       (case save_html_file E st output_html (all_content s2) fs1 of
                          Inl e \<Rightarrow> Inl (e, s2\<lparr>world := w\<lparr>files := fs1\<rparr>\<rparr>)
                        | Inr fs2 \<Rightarrow> Inr (s2\<lparr>world := w\<lparr>files := fs2\<rparr>\<rparr>)))))"

text \<open>
  One iteration (lines 91--133): \<open>self.current_page = page_num\<close>; a page that is in
  \<open>processed_pages\<close> and in the dict read back from the old document is skipped and its
  stored text appended (lines 95--101); any other page is processed.
\<close>

definition pdf_step ::
  "'img env \<Rightarrow> path \<Rightarrow> path \<Rightarrow> 'img list \<Rightarrow> (int \<rightharpoonup> pystr) \<Rightarrow> int \<Rightarrow> 'img run \<Rightarrow>
   (error \<times> 'img run) + 'img run" where
  "pdf_step E output_html progress_file doc existing_content page_num s =
     (let s1 = s\<lparr>obj := (obj s)\<lparr>current_page := page_num\<rparr>\<rparr>
      in if page_num \<in> set (processed_pages (obj s1)) \<and> page_num \<in> dom existing_content
         then Inr (s1\<lparr>all_content := all_content s1 @ the (existing_content page_num)\<rparr>)
         else process_new_page E output_html progress_file doc page_num s1)"

text \<open>\<open>for page_num in range(self.current_page, self.total_pages)\<close>, stopping at the first exception.\<close>

fun pdf_loop ::
  "'img env \<Rightarrow> path \<Rightarrow> path \<Rightarrow> 'img list \<Rightarrow> (int \<rightharpoonup> pystr) \<Rightarrow> int list \<Rightarrow> 'img run \<Rightarrow>
   (error \<times> 'img run) + 'img run" where
  "pdf_loop E output_html progress_file doc existing_content [] s = Inr s"
| "pdf_loop E output_html progress_file doc existing_content (page_num # pages) s =
     (case pdf_step E output_html progress_file doc existing_content page_num s of
        Inl r \<Rightarrow> Inl r
      | Inr s' \<Rightarrow> pdf_loop E output_html progress_file doc existing_content pages s')"

subsection \<open>\<open>_process_pdf\<close>, \<open>_process_technical\<close>, \<open>process_document\<close>\<close>

text \<open>
  \<open>_process_pdf\<close>: open the document, set \<open>total_pages\<close> and the clamped
  \<open>current_page\<close>, load the progress file and resume, read back the old document, run the
  loop. After an exception (lines 142--162) the accumulated content is saved once more if
  there is any; every exception that escapes is caught at line 167. The result is the
  return value (the output path or \<open>None\<close>), the object and the world.
\<close>

definition process_pdf ::
  "'img env \<Rightarrow> path \<Rightarrow> path \<Rightarrow> pystr \<Rightarrow> int \<Rightarrow> ocr \<Rightarrow> 'img world \<Rightarrow> path option \<times> ocr \<times> 'img world" where
  "process_pdf E pdf_path output_dir file_base start_page st w =
     (case files w pdf_path of
        Some (Pdf_File doc) \<Rightarrow>
          (let n = int (length doc);
               st1 = st\<lparr>total_pages := n, current_page := max 0 (min start_page (n - 1))\<rparr>;
               output_html = path_join output_dir (file_base @ u ''_processado.html'');
               progress_file = path_join output_dir (file_base @ u ''_progresso.json'')
           in case load_progress (files w) progress_file of
                Inl e \<Rightarrow> (None, st1, w)
              | Inr loaded \<Rightarrow>
                  (let st2 = st1\<lparr>processed_pages := (case loaded of None \<Rightarrow> [] | Some (ps, _) \<Rightarrow> ps),
                                  current_page := start_page_of start_page n loaded\<rparr>;
                       existing_content = (if files w output_html = None then Map.empty
                                           else extract_existing_content (files w) output_html);
                       s0 = \<lparr>obj = st2, world = w, all_content = [], last_processed = None\<rparr>
                   in case pdf_loop E output_html progress_file doc existing_content
                             [current_page st2 .. n - 1] s0 of
                        Inr s \<Rightarrow> (Some output_html, obj s, world s)
                      | Inl (e, s) \<Rightarrow>
                          if all_content s \<noteq> [] then
                            (case save_html_file E (obj s) output_html (all_content s) (files (world s)) of
                               Inl e' \<Rightarrow> (None, obj s, world s)
                             | Inr fs \<Rightarrow> (Some output_html, obj s, (world s)\<lparr>files := fs\<rparr>))
                          else (None, obj s, world s)))
      | _ \<Rightarrow> (None, st, w))"

text \<open>\<open>_process_technical\<close>: one page numbered 1 of 1, written next to the image; the
  document is built from the object's fields as they are.\<close>

definition process_technical ::
  "'img env \<Rightarrow> path \<Rightarrow> 'img \<Rightarrow> ocr \<Rightarrow> 'img world \<Rightarrow> (error + path) \<times> 'img world" where
  "process_technical E image_path img st w =
     (let output_path = before_last_dot image_path @ u ''_tecnico.html''
      in case process_page_content E img 1 1 w of
           (Inl e, w1) \<Rightarrow> (Inl e, w1)
         | (Inr content, w1) \<Rightarrow>
             (case save_html_file E st output_path content (files w1) of
                Inl e \<Rightarrow> (Inl e, w1)
              | Inr fs \<Rightarrow> (Inr output_path, w1\<lparr>files := fs\<rparr>)))"

text \<open>\<open>process_document\<close>: dispatch on the extension; any exception gives \<open>None\<close>.\<close>

definition process_document ::
  "'img env \<Rightarrow> path \<Rightarrow> int \<Rightarrow> ocr \<Rightarrow> 'img world \<Rightarrow> path option \<times> ocr \<times> 'img world" where
  "process_document E file_path start_page st w =
     (let file_ext = last_dot_segment (map ascii_lower file_path);
          output_dir = dirname file_path;
          file_base = before_last_dot (basename file_path)
      in if file_ext = u ''pdf'' then process_pdf E file_path output_dir file_base start_page st w
         else
           (case files w file_path of
              Some (Image_File img) \<Rightarrow>
                (case process_technical E file_path img st w of
                   (Inl e, w1) \<Rightarrow> (None, st, w1)
                 | (Inr output_path, w1) \<Rightarrow> (Some output_path, st, w1))
            | _ \<Rightarrow> (None, st, w)))"

subsection \<open>Agreement of the files with the run\<close>

text \<open>Both files agree with the state: the progress file holds the record of the processed
  pages and the last processed page, the document holds the accumulated content.\<close>

definition files_synced :: "'img env \<Rightarrow> path \<Rightarrow> path \<Rightarrow> 'img run \<Rightarrow> bool" where
  "files_synced E output_html progress_file s \<longleftrightarrow>
     (\<exists>r d. progress_record (obj s) (last_processed s) = Inr r \<and>
            html_document (fmt_pct E) (processed_pages (obj s)) (total_pages (obj s)) (all_content s) = Inr d \<and>
            files (world s) progress_file = Some (Progress_File r) \<and>
            files (world s) output_html = Some (Text_File d))"

text \<open>The rendered fragments of a list of recognised pages, numbered from 1, in loop order.\<close>

definition rendered_pages :: "(int \<Rightarrow> pystr) \<Rightarrow> int \<Rightarrow> int list \<Rightarrow> pystr" where
  "rendered_pages res page_count pages =
     concat (map (\<lambda>p. render_page (clean_str (res p)) (p + 1) page_count) pages)"

subsection \<open>What the scan of the Content Merger finds in the accumulated content\<close>

text \<open>The 0-based page numbers the scan of \<open>_extract_existing_content\<close> finds, in order.\<close>

definition scan_keys :: "pystr \<Rightarrow> int list" where
  "scan_keys x = map (\<lambda>(ds, body). int (digits_val ds) - 1) (find_all x)"

text \<open>A small instance used by the examples below: a service that always answers
  \<open>x\<close>, every file writable, percentages printed as the count; a two-page document whose
  page 0 is recorded and read back from the old document.\<close>

abbreviation sample_env :: "nat env" where
  "sample_env \<equiv> \<lparr>recognize = \<lambda>_ _. Inr (Response_Text (u ''x'')), writable = \<lambda>_. True,
                   fmt_pct = \<lambda>n t. str_nat n\<rparr>"

abbreviation sample_existing :: "int \<rightharpoonup> pystr" where
  "sample_existing \<equiv> [0 \<mapsto> page_body (u ''a'') @ footer_marker]"

abbreviation sample_run :: "nat run" where
  "sample_run \<equiv> \<lparr>obj = \<lparr>current_page = 0, total_pages = 2, processed_pages = [0]\<rparr>,
                  world = \<lparr>files = Map.empty, requests = []\<rparr>, all_content = [], last_processed = None\<rparr>"

lemmas step_defs = pdf_step_def process_new_page_def process_page_content_def save_html_file_def write_text_file_def update_progress_file_def Let_def

lemma pdf_step_skip:
  "p \<in> set (processed_pages (obj s)) \<Longrightarrow> existing_content p = Some old \<Longrightarrow>
   pdf_step E output_html progress_file doc existing_content p s =
     Inr (s\<lparr>obj := (obj s)\<lparr>current_page := p\<rparr>, all_content := all_content s @ old\<rparr>)"
  by (simp add: pdf_step_def Let_def domI)

lemma pdf_step_Inr_cases:
  assumes "pdf_step E output_html progress_file doc existing_content p s = Inr s'"
  obtains (skip) old where "p \<in> set (processed_pages (obj s))" "existing_content p = Some old"
      "s' = s\<lparr>obj := (obj s)\<lparr>current_page := p\<rparr>, all_content := all_content s @ old\<rparr>"
  | (page) img res r d where "\<not> (p \<in> set (processed_pages (obj s)) \<and> p \<in> dom existing_content)"
      "doc_page doc p = Inr img" "recognize E ocr_prompt img = Inr (Response_Text res)"
      "current_page (obj s') = p" "total_pages (obj s') = total_pages (obj s)"
      "processed_pages (obj s') = (if p \<in> set (processed_pages (obj s)) then processed_pages (obj s)
                                  else processed_pages (obj s) @ [p])"
      "all_content s' = all_content s @ render_page (clean_str res) (p + 1) (total_pages (obj s))"
      "last_processed s' = Some p"
      "requests (world s') = requests (world s) @ [img]"
      "progress_record (obj s') (Some p) = Inr r"
      "html_document (fmt_pct E) (processed_pages (obj s')) (total_pages (obj s')) (all_content s') = Inr d"
      "files (world s') = (files (world s))(progress_file \<mapsto> Progress_File r, output_html \<mapsto> Text_File d)"
proof (cases "p \<in> set (processed_pages (obj s)) \<and> p \<in> dom existing_content")
  case True
  then obtain old where "existing_content p = Some old" by auto
  with True assms show ?thesis by (intro skip) (auto simp: pdf_step_def)
next
  assume guard: "\<not> (p \<in> set (processed_pages (obj s)) \<and> p \<in> dom existing_content)"
  with assms have step: "process_new_page E output_html progress_file doc p
      (s\<lparr>obj := (obj s)\<lparr>current_page := p\<rparr>\<rparr>) = Inr s'"
    by (simp add: pdf_step_def)
  then obtain img where img: "doc_page doc p = Inr img"
    by (auto simp: process_new_page_def split: sum.splits)
  with step obtain res where res: "recognize E ocr_prompt img = Inr (Response_Text res)"
    by (auto simp: process_new_page_def process_page_content_def clean_text_def Let_def
        split: sum.splits response.splits)
  define st' where "st' = (obj s)\<lparr>current_page := p, processed_pages :=
      (if p \<in> set (processed_pages (obj s)) then processed_pages (obj s) else processed_pages (obj s) @ [p])\<rparr>"
  define c' where "c' = all_content s @ render_page (clean_str res) (p + 1) (total_pages (obj s))"
  from step img res have "\<exists>r d. progress_record st' (Some p) = Inr r \<and>
      html_document (fmt_pct E) (processed_pages st') (total_pages st') c' = Inr d \<and>
      s' = s\<lparr>obj := st', all_content := c', last_processed := Some p,
             world := (world s)\<lparr>requests := requests (world s) @ [img],
               files := (files (world s))(progress_file \<mapsto> Progress_File r, output_html \<mapsto> Text_File d)\<rparr>\<rparr>"
    by (auto simp: st'_def c'_def process_new_page_def process_page_content_def save_html_file_def write_text_file_def
         update_progress_file_def clean_text_def Let_def split: sum.splits if_splits)
  then obtain r d where "progress_record st' (Some p) = Inr r"
      "html_document (fmt_pct E) (processed_pages st') (total_pages st') c' = Inr d"
      "s' = s\<lparr>obj := st', all_content := c', last_processed := Some p,
             world := (world s)\<lparr>requests := requests (world s) @ [img],
               files := (files (world s))(progress_file \<mapsto> Progress_File r, output_html \<mapsto> Text_File d)\<rparr>\<rparr>"
    by blast
  then show ?thesis
    by (intro page [OF guard img res, of r d]) (simp_all add: st'_def c'_def)
qed

lemma output_progress_paths_differ:
  "path_join d (b @ u ''_processado.html'') \<noteq> path_join d (b @ u ''_progresso.json'')"
proof -
  have "last (path_join d (b @ u ''_processado.html'')) \<noteq> last (path_join d (b @ u ''_progresso.json''))"
    by (simp add: last_path_join u_def)
  then show ?thesis by (rule contrapos_nn) simp
qed

lemma doc_page_in_range: "0 \<le> p \<Longrightarrow> p < int (length doc) \<Longrightarrow> doc_page doc p = Inr (doc ! nat p)"
  by (simp add: doc_page_def)

text \<open>A page that is not yet recorded, recognised, with both files writable: the step
  appends its fragment, records it, and leaves both files in agreement with the state.\<close>

lemma pdf_step_fresh:
  assumes new: "p \<notin> set (processed_pages (obj s))"
    and rng: "0 \<le> p" "p < int (length doc)"
    and ok: "recognize E ocr_prompt (doc ! nat p) = Inr (Response_Text res)"
    and tot: "total_pages (obj s) \<noteq> 0"
    and wr: "writable E progress_file" "writable E output_html"
    and ne: "output_html \<noteq> progress_file"
  shows "\<exists>s'. pdf_step E output_html progress_file doc existing_content p s = Inr s' \<and>
           obj s' = (obj s)\<lparr>current_page := p, processed_pages := processed_pages (obj s) @ [p]\<rparr> \<and>
           all_content s' = all_content s @ render_page (clean_str res) (p + 1) (total_pages (obj s)) \<and>
           last_processed s' = Some p \<and>
           requests (world s') = requests (world s) @ [doc ! nat p] \<and>
           files_synced E output_html progress_file s'"
  using new ok tot wr ne
  by (simp add: step_defs doc_page_in_range [OF rng] clean_text_def progress_record_def
      html_document_Inr files_synced_def)

lemma pdf_loop_fresh:
  assumes "\<forall>p \<in> set pages. p \<notin> set (processed_pages (obj s)) \<and> 0 \<le> p \<and> p < int (length doc) \<and>
             recognize E ocr_prompt (doc ! nat p) = Inr (Response_Text (res p))"
    and "distinct pages"
    and "total_pages (obj s) \<noteq> 0"
    and "writable E progress_file" "writable E output_html"
    and "output_html \<noteq> progress_file"
  shows "\<exists>s'. pdf_loop E output_html progress_file doc existing_content pages s = Inr s' \<and>
           total_pages (obj s') = total_pages (obj s) \<and>
           processed_pages (obj s') = processed_pages (obj s) @ pages \<and>
           all_content s' = all_content s @ rendered_pages res (total_pages (obj s)) pages \<and>
           requests (world s') = requests (world s) @ map (\<lambda>p. doc ! nat p) pages \<and>
           (pages \<noteq> [] \<longrightarrow> last_processed s' = Some (last pages) \<and>
                           files_synced E output_html progress_file s')"
  using assms
proof (induction pages arbitrary: s)
  case Nil
  then show ?case by (simp add: rendered_pages_def)
next
  case (Cons p pages)
  from Cons.prems obtain s1 where
    step: "pdf_step E output_html progress_file doc existing_content p s = Inr s1" and
    o1: "obj s1 = (obj s)\<lparr>current_page := p, processed_pages := processed_pages (obj s) @ [p]\<rparr>" and
    c1: "all_content s1 = all_content s @ render_page (clean_str (res p)) (p + 1) (total_pages (obj s))" and
    l1: "last_processed s1 = Some p" and
    r1: "requests (world s1) = requests (world s) @ [doc ! nat p]" and
    f1: "files_synced E output_html progress_file s1"
    using pdf_step_fresh [of p s doc E "res p" progress_file output_html existing_content] by auto
  have "\<forall>q \<in> set pages. q \<notin> set (processed_pages (obj s1)) \<and> 0 \<le> q \<and> q < int (length doc) \<and>
          recognize E ocr_prompt (doc ! nat q) = Inr (Response_Text (res q))"
    using Cons.prems(1,2) o1 by auto
  moreover have "distinct pages" "total_pages (obj s1) \<noteq> 0"
    using Cons.prems(2,3) o1 by simp_all
  ultimately obtain s' where
    "pdf_loop E output_html progress_file doc existing_content pages s1 = Inr s' \<and>
     total_pages (obj s') = total_pages (obj s1) \<and>
     processed_pages (obj s') = processed_pages (obj s1) @ pages \<and>
     all_content s' = all_content s1 @ rendered_pages res (total_pages (obj s1)) pages \<and>
     requests (world s') = requests (world s1) @ map (\<lambda>p. doc ! nat p) pages \<and>
     (pages \<noteq> [] \<longrightarrow> last_processed s' = Some (last pages) \<and> files_synced E output_html progress_file s')"
    using Cons.IH Cons.prems(4-6) by blast
  with step o1 c1 l1 r1 f1 show ?case
    by (cases "pages = []") (auto simp: rendered_pages_def)
qed

lemma extract_rendered_pages:
  assumes "\<forall>p \<in> set pages. 0 \<le> p \<and> \<not> sublist footer_marker (clean_str (res p))"
  shows "dom (extract_content (rendered_pages res t pages)) = set pages"
proof -
  let ?ps = "map (\<lambda>p. (clean_str (res p), p + 1)) pages"
  have ps: "\<forall>(c, n) \<in> set ?ps. 0 \<le> n \<and> \<not> sublist footer_marker c" using assms by auto
  have r: "rendered_pages res t pages = concat (map (\<lambda>(c, n). render_page c n t) ?ps)"
    by (simp add: rendered_pages_def comp_def)
  have "dom (map_of (rev (map (\<lambda>(c, n). (n - 1, page_body c @ footer_marker)) ?ps))) = set pages"
    by (simp add: dom_map_of_conv_image_fst image_image)
  with extract_content_pages [OF ps, of t] r show ?thesis by simp
qed

lemma extract_saved_rendered_pages:
  assumes "\<forall>n t. no_start_of content_marker (fmt n t)"
    and "\<forall>p \<in> set pages. 0 \<le> p \<and> \<not> sublist footer_marker (clean_str (res p))"
    and "html_document fmt ps tot (rendered_pages res t pages) = Inr d"
  shows "dom (extract_content d) = set pages"
proof -
  let ?ps = "map (\<lambda>p. (clean_str (res p), p + 1)) pages"
  have ps: "\<forall>(c, n) \<in> set ?ps. 0 \<le> n \<and> \<not> sublist footer_marker c" using assms(2) by auto
  have r: "rendered_pages res t pages = concat (map (\<lambda>(c, n). render_page c n t) ?ps)"
    by (simp add: rendered_pages_def comp_def)
  from extract_saved_document [OF assms(1) ps] assms(3) r
  have "extract_content d = extract_content (rendered_pages res t pages)" by simp
  with extract_rendered_pages [OF assms(2)] show ?thesis by simp
qed

lemma dom_extract_content: "dom (extract_content x) = set (scan_keys x)"
proof -
  have "extract_content x = map_of (rev (map (\<lambda>(ds, body). (int (digits_val ds) - 1,
                    body @ footer_marker)) (find_all x)))"
    using fold_update_map_of [of "\<lambda>ds. int (digits_val ds) - 1" "\<lambda>body. body @ footer_marker"
        "find_all x" Map.empty]
    by (simp add: extract_content_def)
  then show ?thesis
    by (simp add: dom_map_of_conv_image_fst scan_keys_def image_image case_prod_beta)
qed

lemma scan_split_render:
  "0 \<le> n \<Longrightarrow> \<not> sublist footer_marker c \<Longrightarrow>
   find_all (render_page c n t @ r) = find_all (render_page c n t) @ find_all r"
  using find_all_render_page [of n c t r] find_all_render_page [of n c t "[]"] by simp

lemma scan_split_inert:
  "no_start_of content_marker x \<Longrightarrow> find_all (x @ r) = find_all x @ find_all r"
  using find_all_skip [of x r] find_all_skip [of x "[]"] by simp

lemma scan_split_append:
  assumes "\<forall>r. find_all (x @ r) = find_all x @ find_all r"
    and "\<forall>r. find_all (y @ r) = find_all y @ find_all r"
  shows "\<forall>r. find_all ((x @ y) @ r) = find_all (x @ y) @ find_all r"
  using assms by (metis append.assoc)

lemma scan_keys_render_page:
  "0 \<le> p \<Longrightarrow> \<not> sublist footer_marker c \<Longrightarrow> scan_keys (render_page c (p + 1) t) = [p]"
  using find_all_render_page [of "p + 1" c t "[]"] page_key [of "p + 1"]
  by (simp add: scan_keys_def)

lemma scan_keys_saved_document:
  assumes fmt: "\<forall>n t. no_start_of content_marker (fmt n t)"
    and split: "\<forall>r. find_all (content @ r) = find_all content @ find_all r"
    and doc: "html_document fmt ps tot content = Inr d"
  shows "scan_keys d = scan_keys content"
  using html_document_find_all [OF fmt doc] split find_all_html_tail
  by (simp add: scan_keys_def)

lemma pdf_loop_append:
  "pdf_loop E out prog doc ex (xs @ ys) s =
     (case pdf_loop E out prog doc ex xs s of Inl r \<Rightarrow> Inl r | Inr s' \<Rightarrow> pdf_loop E out prog doc ex ys s')"
  by (induction xs arbitrary: s) (simp_all split: sum.splits)

text \<open>A page whose recognition raises: the request was sent, nothing else changed.\<close>

lemma pdf_step_service_error:
  assumes "p \<notin> set (processed_pages (obj s))" "0 \<le> p" "p < int (length doc)"
    and "recognize E ocr_prompt (doc ! nat p) = Inl e"
  shows "pdf_step E out prog doc ex p s =
           Inl (e, s\<lparr>obj := (obj s)\<lparr>current_page := p\<rparr>,
                     world := (world s)\<lparr>requests := requests (world s) @ [doc ! nat p]\<rparr>\<rparr>)"
  using assms by (simp add: step_defs doc_page_in_range)

lemma clean_str_sample: "clean_str (u ''x'') = u ''x''"
  by (simp add: clean_eval)

lemma sample_footer_free: "\<not> sublist footer_marker (u ''x'')"
  by (auto dest: sublist_length_le simp: marker_defs)

lemma sample_existing_inert: "\<forall>q old. sample_existing q = Some old \<longrightarrow> no_start_of content_marker old"
proof -
  have "\<not> sublist content_marker (u ''a'')" by (auto dest: sublist_length_le simp: marker_defs)
  from reemitted_entry_inert [OF this] show ?thesis by simp
qed

lemma sample_env_footer:
  "\<forall>img res. recognize sample_env ocr_prompt img = Inr (Response_Text res) \<longrightarrow>
             \<not> sublist footer_marker (clean_str res)"
  using clean_str_sample sample_footer_free by simp

lemma sample_env_fmt: "\<forall>n t. no_start_of content_marker (fmt_pct sample_env n t)"
  by simp

lemma sample_loop:
  "\<exists>s'. pdf_loop sample_env (u ''b_processado.html'') (u ''b_progresso.json'') [1, 2] sample_existing
          [0, 1] sample_run = Inr s' \<and> last_processed s' = Some 1"
  by (simp add: step_defs doc_page_def progress_record_def html_document_def clean_text_def
      clean_str_sample del: u_Cons)

text \<open>A run whose pages from the start page on are all new and all recognised.\<close>

lemma process_pdf_fresh_run:
  assumes pdf: "files w pdf_path = Some (Pdf_File doc)"
    and load: "load_progress (files w) (path_join dir (base @ u ''_progresso.json'')) = Inr loaded"
    and cur: "0 \<le> start_page_of sp (int (length doc)) loaded"
      "start_page_of sp (int (length doc)) loaded < int (length doc)"
    and ok: "\<forall>p \<in> {start_page_of sp (int (length doc)) loaded..<int (length doc)}.
               p \<notin> set (case loaded of None \<Rightarrow> [] | Some (ps, _) \<Rightarrow> ps) \<and>
               recognize E ocr_prompt (doc ! nat p) = Inr (Response_Text (res p)) \<and>
               \<not> sublist footer_marker (clean_str (res p))"
    and wr: "\<forall>f. writable E f"
    and fmt: "\<forall>n t. no_start_of content_marker (fmt_pct E n t)"
  shows "\<exists>st' w' d.
           process_pdf E pdf_path dir base sp st w =
             (Some (path_join dir (base @ u ''_processado.html'')), st', w') \<and>
           processed_pages st' = (case loaded of None \<Rightarrow> [] | Some (ps, _) \<Rightarrow> ps) @
                                 [start_page_of sp (int (length doc)) loaded..int (length doc) - 1] \<and>
           total_pages st' = int (length doc) \<and>
           requests w' = requests w @ map (\<lambda>p. doc ! nat p)
                                 [start_page_of sp (int (length doc)) loaded..int (length doc) - 1] \<and>
           files w' (path_join dir (base @ u ''_progresso.json'')) =
             Some (Progress_File \<lparr>pj_total_pages = Some (total_pages st'),
                                   pj_processed_pages = Some (sort (processed_pages st')),
                                   pj_last_page = Some (int (length doc) - 1),
                                   pj_progress_percentage =
                                     Some (Pct_round2 (length (processed_pages st')) (total_pages st'))\<rparr>) \<and>
           files w' (path_join dir (base @ u ''_processado.html'')) = Some (Text_File d) \<and>
           dom (extract_content d) = {start_page_of sp (int (length doc)) loaded..<int (length doc)}"
proof -
  let ?n = "int (length doc)"
  let ?out = "path_join dir (base @ u ''_processado.html'')"
  let ?prog = "path_join dir (base @ u ''_progresso.json'')"
  let ?cur = "start_page_of sp ?n loaded"
  let ?ps = "case loaded of None \<Rightarrow> [] | Some (ps, _) \<Rightarrow> ps"
  let ?pages = "[?cur..?n - 1]"
  let ?ex = "if files w ?out = None then Map.empty else extract_existing_content (files w) ?out"
  let ?s0 = "\<lparr>obj = st\<lparr>total_pages := ?n, current_page := max 0 (min sp (?n - 1)),
                     processed_pages := ?ps, current_page := ?cur\<rparr>,
              world = w, all_content = [], last_processed = None\<rparr>"
  have set_pages: "set ?pages = {?cur..<?n}" by auto
  have last: "last ?pages = ?n - 1" using cur by (simp add: upto_rec2)
  have "\<forall>p \<in> set ?pages. p \<notin> set (processed_pages (obj ?s0)) \<and> 0 \<le> p \<and> p < ?n \<and>
          recognize E ocr_prompt (doc ! nat p) = Inr (Response_Text (res p))"
    using ok cur by auto
  moreover have "total_pages (obj ?s0) \<noteq> 0" using cur by auto
  ultimately obtain s' where s': "pdf_loop E ?out ?prog doc ?ex ?pages ?s0 = Inr s'"
      and tp: "total_pages (obj s') = ?n"
      and pp: "processed_pages (obj s') = ?ps @ ?pages"
      and rq: "requests (world s') = requests w @ map (\<lambda>p. doc ! nat p) ?pages"
      and ac: "all_content s' = rendered_pages res ?n ?pages"
      and lp: "last_processed s' = Some (?n - 1)"
      and sy: "files_synced E ?out ?prog s'"
    using pdf_loop_fresh [of ?pages ?s0 doc E res ?prog ?out ?ex] wr output_progress_paths_differ cur last
    by (auto simp del: u_Cons)
  from sy ac lp obtain d r where d: "html_document (fmt_pct E) (processed_pages (obj s')) (total_pages (obj s'))
        (rendered_pages res ?n ?pages) = Inr d" and fo: "files (world s') ?out = Some (Text_File d)"
      and r: "progress_record (obj s') (Some (?n - 1)) = Inr r"
      and fr: "files (world s') ?prog = Some (Progress_File r)"
    by (auto simp: files_synced_def)
  have "dom (extract_content d) = set ?pages"
    by (rule extract_saved_rendered_pages [OF fmt _ d]) (use ok cur in auto)
  moreover have "process_pdf E pdf_path dir base sp st w = (Some ?out, obj s', world s')"
    using pdf load s' by (simp add: process_pdf_def Let_def del: u_Cons)
  moreover have "r = \<lparr>pj_total_pages = Some (total_pages (obj s')),
                       pj_processed_pages = Some (sort (processed_pages (obj s'))),
                       pj_last_page = Some (?n - 1),
                       pj_progress_percentage =
                         Some (Pct_round2 (length (processed_pages (obj s'))) (total_pages (obj s')))\<rparr>"
    using r by (simp add: progress_record_def split: if_splits)
  ultimately show ?thesis using fo fr rq pp tp set_pages by auto
qed

lemma process_pdf_nothing_left:
  assumes pdf: "files w pdf_path = Some (Pdf_File doc)"
    and load: "load_progress (files w) (path_join dir (base @ u ''_progresso.json'')) = Inr loaded"
    and past: "int (length doc) \<le> start_page_of sp (int (length doc)) loaded"
  shows "process_pdf E pdf_path dir base sp st w =
           (Some (path_join dir (base @ u ''_processado.html'')),
            st\<lparr>total_pages := int (length doc),
               processed_pages := (case loaded of None \<Rightarrow> [] | Some (ps, _) \<Rightarrow> ps),
               current_page := start_page_of sp (int (length doc)) loaded\<rparr>, w)"
  using pdf load past by (simp add: process_pdf_def Let_def del: u_Cons)

text \<open>C1. A run resumed after page \<open>l\<close> (no start page requested, the progress file
  lists pages \<open>0..l\<close> with last page \<open>l\<close>) in which every remaining page is recognised
  ends with all pages of the document recorded as processed, yet the document it writes
  holds only the pages of this run: \<open>all_content\<close> starts empty and pages \<open>0..l\<close> are
  never read back, so the work of the earlier run is overwritten.\<close>

theorem resume_overwrites_earlier_pages:
  assumes pdf: "files w pdf_path = Some (Pdf_File doc)"
    and prog: "files w (path_join dir (base @ u ''_progresso.json'')) = Some (Progress_File pj)"
    and pj: "pj_processed_pages pj = Some [0..l]" "pj_last_page pj = Some l"
    and l: "0 \<le> l" "l + 1 < int (length doc)"
    and ok: "\<forall>p \<in> {l + 1..<int (length doc)}.
               recognize E ocr_prompt (doc ! nat p) = Inr (Response_Text (res p)) \<and>
               \<not> sublist footer_marker (clean_str (res p))"
    and wr: "\<forall>f. writable E f"
    and fmt: "\<forall>n t. no_start_of content_marker (fmt_pct E n t)"
  shows "\<exists>st' w' d.
           process_pdf E pdf_path dir base 0 st w =
             (Some (path_join dir (base @ u ''_processado.html'')), st', w') \<and>
           set (processed_pages st') = {0..<int (length doc)} \<and>
           files w' (path_join dir (base @ u ''_processado.html'')) = Some (Text_File d) \<and>
           dom (extract_content d) = {l + 1..<int (length doc)}"
proof -
  let ?loaded = "Some ([0..l], Some l)"
  have load: "load_progress (files w) (path_join dir (base @ u ''_progresso.json'')) = Inr ?loaded"
    using prog pj by (simp add: load_progress_def del: u_Cons)
  have start: "start_page_of 0 (int (length doc)) ?loaded = l + 1"
    using l by (simp add: start_page_of_def)
  have "\<forall>p \<in> {start_page_of 0 (int (length doc)) ?loaded..<int (length doc)}.
          p \<notin> set (case ?loaded of None \<Rightarrow> [] | Some (ps, _) \<Rightarrow> ps) \<and>
          recognize E ocr_prompt (doc ! nat p) = Inr (Response_Text (res p)) \<and>
          \<not> sublist footer_marker (clean_str (res p))"
    using ok by (simp add: start)
  from process_pdf_fresh_run [OF pdf load _ _ this wr fmt, of st] start l
  obtain st' w' d where "process_pdf E pdf_path dir base 0 st w =
             (Some (path_join dir (base @ u ''_processado.html'')), st', w')"
      and "processed_pages st' = [0..l] @ [l + 1..int (length doc) - 1]"
      and "files w' (path_join dir (base @ u ''_processado.html'')) = Some (Text_File d)"
      and "dom (extract_content d) = {l + 1..<int (length doc)}"
    by (simp only: start) (use l in \<open>simp del: u_Cons\<close>, blast)
  moreover have "set ([0..l] @ [l + 1..int (length doc) - 1]) = {0..<int (length doc)}"
    using l by auto
  ultimately show ?thesis by auto
qed

theorem resume_overwrites_earlier_pages_witness:
  "\<exists>st' w' d.
     process_pdf \<lparr>recognize = \<lambda>_ _. Inr (Response_Text (u ''x'')), writable = \<lambda>_. True,
                  fmt_pct = \<lambda>n t. str_nat n\<rparr>
       (u ''b.pdf'') [] (u ''b'') 0 init_ocr
       \<lparr>files = [u ''b.pdf'' \<mapsto> Pdf_File [1, 2, 3 :: nat],
                 u ''b_progresso.json'' \<mapsto> Progress_File \<lparr>pj_total_pages = Some 3,
                    pj_processed_pages = Some [0], pj_last_page = Some 0,
                    pj_progress_percentage = Some (Pct_round2 1 3)\<rparr>],
        requests = []\<rparr> =
       (Some (path_join [] (u ''b'' @ u ''_processado.html'')), st', w') \<and>
     set (processed_pages st') = {0..<3} \<and>
     files w' (path_join [] (u ''b'' @ u ''_processado.html'')) = Some (Text_File d) \<and>
     dom (extract_content d) = {1..<3}"
proof -
  note c = clean_str_sample and f = sample_footer_free
  show ?thesis
    using resume_overwrites_earlier_pages
      [of "\<lparr>files = [u ''b.pdf'' \<mapsto> Pdf_File [1, 2, 3 :: nat],
                 u ''b_progresso.json'' \<mapsto> Progress_File \<lparr>pj_total_pages = Some 3,
                    pj_processed_pages = Some [0], pj_last_page = Some 0,
                    pj_progress_percentage = Some (Pct_round2 1 3)\<rparr>],
          requests = []\<rparr>" "u ''b.pdf''" "[1, 2, 3]" "[]" "u ''b''"
          "\<lparr>pj_total_pages = Some 3, pj_processed_pages = Some [0], pj_last_page = Some 0,
             pj_progress_percentage = Some (Pct_round2 1 3)\<rparr>" 0
          "\<lparr>recognize = \<lambda>_ _. Inr (Response_Text (u ''x'')), writable = \<lambda>_. True,
             fmt_pct = \<lambda>n t. str_nat n\<rparr>" "\<lambda>_. u ''x''" init_ocr]
    using c f by (simp add: path_join_def)
qed

text \<open>One successful iteration, seen by the scan: a skipped page adds text the scan passes
  over, a processed page adds its own key, and after a processed page the document on disk
  is read back with the keys of the accumulated content.\<close>

lemma pdf_step_scan:
  assumes step: "pdf_step E out prog doc ex p s = Inr s'"
    and ex: "\<forall>q old. ex q = Some old \<longrightarrow> no_start_of content_marker old"
    and rec_ok: "\<forall>img res. recognize E ocr_prompt img = Inr (Response_Text res) \<longrightarrow>
                         \<not> sublist footer_marker (clean_str res)"
    and fmt: "\<forall>n t. no_start_of content_marker (fmt_pct E n t)"
    and nn: "0 \<le> p"
    and split: "\<forall>r. find_all (all_content s @ r) = find_all (all_content s) @ find_all r"
  shows "(\<forall>r. find_all (all_content s' @ r) = find_all (all_content s') @ find_all r) \<and>
         scan_keys (all_content s') = scan_keys (all_content s) @
           (if p \<in> set (processed_pages (obj s)) \<and> p \<in> dom ex then [] else [p]) \<and>
         set (processed_pages (obj s')) = insert p (set (processed_pages (obj s))) \<and>
         total_pages (obj s') = total_pages (obj s) \<and>
         (if p \<in> set (processed_pages (obj s)) \<and> p \<in> dom ex
          then last_processed s' = last_processed s \<and> world s' = world s
          else \<exists>d. files (world s') out = Some (Text_File d) \<and>
                    scan_keys d = scan_keys (all_content s'))"
  using step
proof (cases rule: pdf_step_Inr_cases)
  case (skip old)
  with ex have i: "no_start_of content_marker old" by blast
  have "\<forall>r. find_all (all_content s' @ r) = find_all (all_content s') @ find_all r"
    using skip split scan_split_append [OF split, of old] scan_split_inert [OF i] by simp
  moreover have "scan_keys (all_content s') = scan_keys (all_content s)"
    using skip split find_all_skip [OF i, of "[]"] by (simp add: scan_keys_def)
  ultimately show ?thesis using skip by auto
next
  case (page img res r d)
  let ?c = "render_page (clean_str res) (p + 1) (total_pages (obj s))"
  from page rec_ok have f: "\<not> sublist footer_marker (clean_str res)" by blast
  have sc: "\<forall>r. find_all (all_content s' @ r) = find_all (all_content s') @ find_all r"
    using page scan_split_append [OF split, of ?c] scan_split_render [OF _ f, of "p + 1"] nn by simp
  moreover have "scan_keys (all_content s') = scan_keys (all_content s) @ [p]"
    using page split scan_keys_render_page [OF nn f] by (simp add: scan_keys_def)
  moreover have "scan_keys d = scan_keys (all_content s')"
    using scan_keys_saved_document [OF fmt sc] page by blast
  ultimately show ?thesis using page by auto
qed

lemma pdf_loop_scan:
  assumes "pdf_loop E out prog doc ex pages s = Inr s'"
    and ex: "\<forall>q old. ex q = Some old \<longrightarrow> no_start_of content_marker old"
    and rec_ok: "\<forall>img res. recognize E ocr_prompt img = Inr (Response_Text res) \<longrightarrow>
                         \<not> sublist footer_marker (clean_str res)"
    and fmt: "\<forall>n t. no_start_of content_marker (fmt_pct E n t)"
    and "\<forall>p \<in> set pages. 0 \<le> p" and "distinct pages"
    and "\<forall>r. find_all (all_content s @ r) = find_all (all_content s) @ find_all r"
    and "last_processed s \<noteq> None \<longrightarrow>
           (\<exists>d. files (world s) out = Some (Text_File d) \<and> scan_keys d = scan_keys (all_content s))"
  shows "scan_keys (all_content s') = scan_keys (all_content s) @
           filter (\<lambda>p. \<not> (p \<in> set (processed_pages (obj s)) \<and> p \<in> dom ex)) pages \<and>
         set (processed_pages (obj s')) = set (processed_pages (obj s)) \<union> set pages \<and>
         (last_processed s' \<noteq> None \<longrightarrow>
           (\<exists>d. files (world s') out = Some (Text_File d) \<and> scan_keys d = scan_keys (all_content s')))"
  using assms(1,5-8)
proof (induction pages arbitrary: s)
  case Nil
  then show ?case by simp
next
  case (Cons p pages)
  from Cons.prems(1) obtain s1 where step: "pdf_step E out prog doc ex p s = Inr s1"
      and loop: "pdf_loop E out prog doc ex pages s1 = Inr s'"
    by (auto split: sum.splits)
  have s1: "(\<forall>r. find_all (all_content s1 @ r) = find_all (all_content s1) @ find_all r) \<and>
         scan_keys (all_content s1) = scan_keys (all_content s) @
           (if p \<in> set (processed_pages (obj s)) \<and> p \<in> dom ex then [] else [p]) \<and>
         set (processed_pages (obj s1)) = insert p (set (processed_pages (obj s))) \<and>
         total_pages (obj s1) = total_pages (obj s) \<and>
         (if p \<in> set (processed_pages (obj s)) \<and> p \<in> dom ex
          then last_processed s1 = last_processed s \<and> world s1 = world s
          else \<exists>d. files (world s1) out = Some (Text_File d) \<and>
                    scan_keys d = scan_keys (all_content s1))"
    using Cons.prems(2,4) by (intro pdf_step_scan [OF step ex rec_ok fmt]) simp_all
  have disk1: "last_processed s1 \<noteq> None \<longrightarrow>
      (\<exists>d. files (world s1) out = Some (Text_File d) \<and> scan_keys d = scan_keys (all_content s1))"
  proof (cases "p \<in> set (processed_pages (obj s)) \<and> p \<in> dom ex")
    case True
    then have "last_processed s1 = last_processed s" "world s1 = world s"
        "scan_keys (all_content s1) = scan_keys (all_content s)"
      using s1 True by simp_all
    with Cons.prems(5) show ?thesis by simp
  next
    assume g: "\<not> (p \<in> set (processed_pages (obj s)) \<and> p \<in> dom ex)"
    from s1 [unfolded if_not_P [OF g]] show ?thesis by blast
  qed
  have IH: "scan_keys (all_content s') = scan_keys (all_content s1) @
           filter (\<lambda>p. \<not> (p \<in> set (processed_pages (obj s1)) \<and> p \<in> dom ex)) pages \<and>
         set (processed_pages (obj s')) = set (processed_pages (obj s1)) \<union> set pages \<and>
         (last_processed s' \<noteq> None \<longrightarrow>
           (\<exists>d. files (world s') out = Some (Text_File d) \<and> scan_keys d = scan_keys (all_content s')))"
    using Cons.prems(2,3) s1 disk1 by (intro Cons.IH [OF loop]) simp_all
  have "filter (\<lambda>q. \<not> (q \<in> set (processed_pages (obj s1)) \<and> q \<in> dom ex)) pages =
        filter (\<lambda>q. \<not> (q \<in> set (processed_pages (obj s)) \<and> q \<in> dom ex)) pages"
    using s1 Cons.prems(3) by (intro filter_cong) auto
  with IH s1 have "scan_keys (all_content s') = scan_keys (all_content s) @
           filter (\<lambda>p. \<not> (p \<in> set (processed_pages (obj s)) \<and> p \<in> dom ex)) (p # pages)"
    by simp
  moreover have "set (processed_pages (obj s')) = set (processed_pages (obj s)) \<union> set (p # pages)"
    using IH s1 by auto
  moreover have "last_processed s' \<noteq> None \<longrightarrow>
           (\<exists>d. files (world s') out = Some (Text_File d) \<and> scan_keys d = scan_keys (all_content s'))"
    using IH by blast
  ultimately show ?case by blast
qed

text \<open>C2. In a pass of the page loop that raises nothing, started as \<open>_process_pdf\<close>
  starts it (no content, no page processed yet), the document on disk at the end is read
  back with exactly the pages recognised in this pass, while every page of the pass is
  recorded as processed. A page skipped because it was read back from the old document
  is re-emitted without its header and marker, so it is recorded but no longer found.\<close>

theorem pdf_loop_document_pages:
  assumes loop: "pdf_loop E out prog doc ex pages s = Inr s'"
    and fresh: "all_content s = []" "last_processed s = None"
    and ex: "\<forall>q old. ex q = Some old \<longrightarrow> no_start_of content_marker old"
    and rec_ok: "\<forall>img res. recognize E ocr_prompt img = Inr (Response_Text res) \<longrightarrow>
                         \<not> sublist footer_marker (clean_str res)"
    and fmt: "\<forall>n t. no_start_of content_marker (fmt_pct E n t)"
    and pages: "\<forall>p \<in> set pages. 0 \<le> p" "distinct pages"
  shows "set (processed_pages (obj s')) = set (processed_pages (obj s)) \<union> set pages \<and>
         (last_processed s' \<noteq> None \<longrightarrow>
           (\<exists>d. files (world s') out = Some (Text_File d) \<and>
                dom (extract_content d) =
                  {p \<in> set pages. \<not> (p \<in> set (processed_pages (obj s)) \<and> p \<in> dom ex)}))"
proof -
  have "scan_keys (all_content s') = scan_keys (all_content s) @
           filter (\<lambda>p. \<not> (p \<in> set (processed_pages (obj s)) \<and> p \<in> dom ex)) pages \<and>
         set (processed_pages (obj s')) = set (processed_pages (obj s)) \<union> set pages \<and>
         (last_processed s' \<noteq> None \<longrightarrow>
           (\<exists>d. files (world s') out = Some (Text_File d) \<and> scan_keys d = scan_keys (all_content s')))"
    using fresh pages by (intro pdf_loop_scan [OF loop ex rec_ok fmt]) simp_all
  moreover have "scan_keys [] = []" by (simp add: scan_keys_def)
  ultimately show ?thesis using fresh by (auto simp: dom_extract_content)
qed

theorem pdf_loop_document_pages_witness:
  "\<exists>s'. pdf_loop sample_env (u ''b_processado.html'') (u ''b_progresso.json'') [1, 2] sample_existing
          [0, 1] sample_run = Inr s' \<and>
       set (processed_pages (obj s')) = {0, 1} \<and>
       (\<exists>d. files (world s') (u ''b_processado.html'') = Some (Text_File d) \<and>
            dom (extract_content d) = {1})"
proof -
  obtain s' where loop: "pdf_loop sample_env (u ''b_processado.html'') (u ''b_progresso.json'') [1, 2]
      sample_existing [0, 1] sample_run = Inr s'" and l: "last_processed s' = Some 1"
    using sample_loop by blast
  from pdf_loop_document_pages [OF loop _ _ sample_existing_inert sample_env_footer sample_env_fmt] loop l
  show ?thesis by auto
qed

text \<open>C5. On a freshly constructed object (\<open>total_pages = 0\<close>) the image mode
  always fails: the page is sent to the recognition service, and then the document of
  \<open>_save_html_file\<close> divides by \<open>self.total_pages\<close>, whether or not the service answered.
  Nothing is written and \<open>process_document\<close> returns \<open>None\<close>.\<close>

theorem image_mode_fresh_object_fails:
  assumes "last_dot_segment (map ascii_lower p) \<noteq> u ''pdf''"
    and "files w p = Some (Image_File img)"
  shows "process_document E p start_page init_ocr w =
           (None, init_ocr, w\<lparr>requests := requests w @ [img]\<rparr>)"
  using assms
  by (auto simp: process_document_def process_technical_def process_page_content_def
      save_html_file_def write_text_file_def html_document_def init_ocr_def Let_def
      split: sum.splits simp del: u_Cons)

theorem image_mode_fresh_object_fails_witness:
  "process_document \<lparr>recognize = \<lambda>_ _. Inr (Response_Text (u ''x'')), writable = \<lambda>_. True,
                     fmt_pct = \<lambda>n t. str_nat n\<rparr>
     (u ''scan.png'') 0 init_ocr
     \<lparr>files = [u ''scan.png'' \<mapsto> Image_File (7 :: nat)], requests = []\<rparr> =
   (None, init_ocr, \<lparr>files = [u ''scan.png'' \<mapsto> Image_File 7], requests = [7]\<rparr>)"
proof -
  have "last_dot_segment (map ascii_lower (u ''scan.png'')) \<noteq> u ''pdf''"
    by (simp add: last_dot_segment_def ascii_lower_def)
  from image_mode_fresh_object_fails [OF this,
      of "\<lparr>files = [u ''scan.png'' \<mapsto> Image_File (7 :: nat)], requests = []\<rparr>" 7
         "\<lparr>recognize = \<lambda>_ _. Inr (Response_Text (u ''x'')), writable = \<lambda>_. True,
            fmt_pct = \<lambda>n t. str_nat n\<rparr>" 0]
  show ?thesis by simp
qed

text \<open>A first run that meets a service error at page \<open>k\<close>.\<close>

lemma process_pdf_service_error_run:
  assumes pdf: "files w pdf_path = Some (Pdf_File doc)"
    and noprog: "files w (path_join dir (base @ u ''_progresso.json'')) = None"
    and k: "0 < k" "k < int (length doc)"
    and ok: "\<forall>p \<in> {0..<k}. recognize E ocr_prompt (doc ! nat p) = Inr (Response_Text (res p)) \<and>
               \<not> sublist footer_marker (clean_str (res p))"
    and fail: "recognize E ocr_prompt (doc ! nat k) = Inl e"
    and wr: "\<forall>f. writable E f"
    and fmt: "\<forall>n t. no_start_of content_marker (fmt_pct E n t)"
  shows "\<exists>st' w' r d.
           process_pdf E pdf_path dir base 0 st w =
             (Some (path_join dir (base @ u ''_processado.html'')), st', w') \<and>
           processed_pages st' = [0..k - 1] \<and> current_page st' = k \<and>
           files w' (path_join dir (base @ u ''_progresso.json'')) = Some (Progress_File r) \<and>
           pj_processed_pages r = Some [0..k - 1] \<and> pj_last_page r = Some (k - 1) \<and>
           files w' (path_join dir (base @ u ''_processado.html'')) = Some (Text_File d) \<and>
           dom (extract_content d) = {0..<k} \<and>
           requests w' = requests w @ map (\<lambda>p. doc ! nat p) [0..k]"
proof -
  let ?n = "int (length doc)"
  let ?out = "path_join dir (base @ u ''_processado.html'')"
  let ?prog = "path_join dir (base @ u ''_progresso.json'')"
  let ?ex = "if files w ?out = None then Map.empty else extract_existing_content (files w) ?out"
  let ?s0 = "\<lparr>obj = st\<lparr>total_pages := ?n, current_page := max 0 (min 0 (?n - 1)),
                     processed_pages := [], current_page := max 0 (min 0 (?n - 1))\<rparr>,
              world = w, all_content = [], last_processed = None\<rparr>"
  have load: "load_progress (files w) ?prog = Inr None"
    using noprog by (simp add: load_progress_def)
  have start: "start_page_of 0 ?n None = 0"
    using k by (simp add: start_page_of_def)
  have range: "[0..?n - 1] = [0..k - 1] @ k # [k + 1..?n - 1]"
    using k by (intro upto_split3) simp_all
  have "\<forall>p \<in> set [0..k - 1]. p \<notin> set (processed_pages (obj ?s0)) \<and> 0 \<le> p \<and> p < ?n \<and>
          recognize E ocr_prompt (doc ! nat p) = Inr (Response_Text (res p))"
    using ok k by auto
  moreover have "total_pages (obj ?s0) \<noteq> 0" using k by auto
  moreover have "last [0..k - 1] = k - 1" using k by (simp add: upto_rec2)
  ultimately obtain s1 where s1: "pdf_loop E ?out ?prog doc ?ex [0..k - 1] ?s0 = Inr s1"
      and tp: "total_pages (obj s1) = ?n"
      and pp: "processed_pages (obj s1) = [0..k - 1]"
      and ac: "all_content s1 = rendered_pages res ?n [0..k - 1]"
      and rq: "requests (world s1) = requests w @ map (\<lambda>p. doc ! nat p) [0..k - 1]"
      and lp: "last_processed s1 = Some (k - 1)"
      and sy: "files_synced E ?out ?prog s1"
    using pdf_loop_fresh [of "[0..k - 1]" ?s0 doc E res ?prog ?out ?ex] wr output_progress_paths_differ k
    by (auto simp del: u_Cons)
  let ?s2 = "s1\<lparr>obj := (obj s1)\<lparr>current_page := k\<rparr>,
                 world := (world s1)\<lparr>requests := requests (world s1) @ [doc ! nat k]\<rparr>\<rparr>"
  have "pdf_loop E ?out ?prog doc ?ex [0..?n - 1] ?s0 = Inl (e, ?s2)"
    using s1 pdf_step_service_error [of k s1 doc E e ?out ?prog ?ex] pp k fail
    by (simp add: range pdf_loop_append)
  moreover from sy lp obtain r d where r: "progress_record (obj s1) (Some (k - 1)) = Inr r"
      and d: "html_document (fmt_pct E) (processed_pages (obj s1)) ?n (all_content s1) = Inr d"
      and fr: "files (world s1) ?prog = Some (Progress_File r)"
      and fd: "files (world s1) ?out = Some (Text_File d)"
    by (auto simp: files_synced_def tp)
  moreover have "all_content s1 \<noteq> []"
    using ac k by (simp add: rendered_pages_def render_page_def upto_rec1)
  ultimately have run: "process_pdf E pdf_path dir base 0 st w =
      (Some ?out, obj ?s2, (world ?s2)\<lparr>files := (files (world s1))(?out \<mapsto> Text_File d)\<rparr>)"
    using pdf load start wr tp
    by (simp add: process_pdf_def save_html_file_def write_text_file_def Let_def del: u_Cons)
  have "dom (extract_content d) = set [0..k - 1]"
    using ac d ok by (intro extract_saved_rendered_pages [OF fmt]) auto
  moreover have "pj_processed_pages r = Some [0..k - 1] \<and> pj_last_page r = Some (k - 1)"
    using r pp by (auto simp: progress_record_def sorted_sort_id sorted_upto split: if_splits)
  moreover have "map (\<lambda>p. doc ! nat p) [0..k] = map (\<lambda>p. doc ! nat p) [0..k - 1] @ [doc ! nat k]"
    using k by (simp add: upto_rec2)
  ultimately show ?thesis
    using run pp rq fr output_progress_paths_differ [of dir base] by auto
qed

text \<open>C4. A first run (no progress file, no output yet) in which the service raises on
  page \<open>k\<close> after pages \<open>0..k-1\<close> were recognised returns the output path; the progress
  file records pages \<open>0..k-1\<close> with last page \<open>k-1\<close>, the document holds exactly those
  pages, the object points at page \<open>k\<close>, and one request was sent for each page up to \<open>k\<close>.\<close>

theorem service_error_keeps_processed_pages:
  assumes pdf: "files w pdf_path = Some (Pdf_File doc)"
    and noprog: "files w (path_join dir (base @ u ''_progresso.json'')) = None"
    and k: "0 < k" "k < int (length doc)"
    and ok: "\<forall>p \<in> {0..<k}. recognize E ocr_prompt (doc ! nat p) = Inr (Response_Text (res p)) \<and>
               \<not> sublist footer_marker (clean_str (res p))"
    and fail: "recognize E ocr_prompt (doc ! nat k) = Inl e"
    and wr: "\<forall>f. writable E f"
    and fmt: "\<forall>n t. no_start_of content_marker (fmt_pct E n t)"
  shows "\<exists>st' w' r d.
           process_pdf E pdf_path dir base 0 st w =
             (Some (path_join dir (base @ u ''_processado.html'')), st', w') \<and>
           processed_pages st' = [0..k - 1] \<and> current_page st' = k \<and>
           files w' (path_join dir (base @ u ''_progresso.json'')) = Some (Progress_File r) \<and>
           pj_processed_pages r = Some [0..k - 1] \<and> pj_last_page r = Some (k - 1) \<and>
           files w' (path_join dir (base @ u ''_processado.html'')) = Some (Text_File d) \<and>
           dom (extract_content d) = {0..<k} \<and>
           requests w' = requests w @ map (\<lambda>p. doc ! nat p) [0..k]"
  by (rule process_pdf_service_error_run [OF pdf noprog k ok fail wr fmt])

theorem service_error_keeps_processed_pages_witness:
  "\<exists>st' w' r d.
     process_pdf \<lparr>recognize = \<lambda>_ img. if img = 3 then Inl Service_Error else Inr (Response_Text (u ''x'')),
                  writable = \<lambda>_. True, fmt_pct = \<lambda>n t. str_nat n\<rparr>
       (u ''b.pdf'') [] (u ''b'') 0 init_ocr
       \<lparr>files = [u ''b.pdf'' \<mapsto> Pdf_File [1, 2, 3 :: nat]], requests = []\<rparr> =
       (Some (path_join [] (u ''b'' @ u ''_processado.html'')), st', w') \<and>
     processed_pages st' = [0..2 - 1] \<and> current_page st' = 2 \<and>
     files w' (path_join [] (u ''b'' @ u ''_progresso.json'')) = Some (Progress_File r) \<and>
     pj_processed_pages r = Some [0..2 - 1] \<and> pj_last_page r = Some (2 - 1) \<and>
     files w' (path_join [] (u ''b'' @ u ''_processado.html'')) = Some (Text_File d) \<and>
     dom (extract_content d) = {0..<2} \<and>
     requests w' = [] @ map (\<lambda>p. [1, 2, 3] ! nat p) [0..2]"
proof -
  note c = clean_str_sample and f = sample_footer_free
  have two: "{0..<(2::int)} = {0, 1}" by auto
  show ?thesis
    using service_error_keeps_processed_pages
      [of "\<lparr>files = [u ''b.pdf'' \<mapsto> Pdf_File [1, 2, 3 :: nat]], requests = []\<rparr>" "u ''b.pdf''"
          "[1, 2, 3]" "[]" "u ''b''" 2
          "\<lparr>recognize = \<lambda>_ img. if img = 3 then Inl Service_Error else Inr (Response_Text (u ''x'')),
             writable = \<lambda>_. True, fmt_pct = \<lambda>n t. str_nat n\<rparr>" "\<lambda>_. u ''x''" Service_Error init_ocr]
    using c f by (simp add: path_join_def two)
qed

end
