(* ===== verification/Machine.thy ===== *)
theory Machine
  imports Pipeline
begin

text \<open>
  The page loop of \<open>_process_pdf\<close> as a state machine. \<open>loop_reach\<close> is the set of states
  a run reaches by successful iterations, one page at a time, from its start state;
  invariants of it are proved by rule induction. \<open>spec_page\<close> is the PROCESSING state of
  the design (section 4.6): a page both recorded and read back is reused, any other page
  is recognised, recorded and becomes the last page; the loop is shown to refine it.
\<close>

subsection \<open>Reachable states of the page loop\<close>

inductive loop_reach ::
  "'img env \<Rightarrow> path \<Rightarrow> path \<Rightarrow> 'img list \<Rightarrow> (int \<rightharpoonup> pystr) \<Rightarrow> 'img run \<Rightarrow> 'img run \<Rightarrow> bool"
  for E out prog doc ex s0 where
  start: "loop_reach E out prog doc ex s0 s0"
| step: "loop_reach E out prog doc ex s0 s \<Longrightarrow> pdf_step E out prog doc ex p s = Inr s' \<Longrightarrow>
         loop_reach E out prog doc ex s0 s'"

text \<open>The progress file agrees with the object: once a page has been processed, the file
  holds the record of the processed pages and of the last processed page, which is one
  of them.\<close>

definition progress_synced :: "path \<Rightarrow> 'img run \<Rightarrow> bool" where
  "progress_synced prog s =
     (case last_processed s of
        None \<Rightarrow> True
      | Some p \<Rightarrow> p \<in> set (processed_pages (obj s)) \<and>
                  (case progress_record (obj s) (Some p) of
                     Inl _ \<Rightarrow> False
                   | Inr r \<Rightarrow> files (world s) prog = Some (Progress_File r)))"

subsection \<open>The PROCESSING state of the design\<close>

record aprog =
  a_processed :: "int set"
  a_last :: "int option"
  a_sent :: "int list"

inductive spec_page :: "(int \<rightharpoonup> pystr) \<Rightarrow> aprog \<Rightarrow> int \<Rightarrow> aprog \<Rightarrow> bool" for ex where
  reuse: "p \<in> a_processed a \<Longrightarrow> p \<in> dom ex \<Longrightarrow> spec_page ex a p a"
| recognise: "\<not> (p \<in> a_processed a \<and> p \<in> dom ex) \<Longrightarrow>
     spec_page ex a p (a\<lparr>a_processed := insert p (a_processed a), a_last := Some p,
                        a_sent := a_sent a @ [p]\<rparr>)"

inductive spec_pages :: "(int \<rightharpoonup> pystr) \<Rightarrow> aprog \<Rightarrow> int list \<Rightarrow> aprog \<Rightarrow> bool" for ex where
  nil: "spec_pages ex a [] a"
| cons: "spec_page ex a p b \<Longrightarrow> spec_pages ex b ps c \<Longrightarrow> spec_pages ex a (p # ps) c"

text \<open>The abstraction: the set of processed pages, the last page, and the pages whose images
  were sent, read off the request log after the requests \<open>req0\<close> made before the loop.\<close>

definition sim :: "'img list \<Rightarrow> 'img list \<Rightarrow> aprog \<Rightarrow> 'img run \<Rightarrow> bool" where
  "sim doc req0 a s \<longleftrightarrow>
     a_processed a = set (processed_pages (obj s)) \<and> a_last a = last_processed s \<and>
     requests (world s) = req0 @ map (\<lambda>p. doc ! nat p) (a_sent a)"

inductive_cases spec_pages_NilE: "spec_pages ex a [] c"
inductive_cases spec_pages_ConsE: "spec_pages ex a (p # ps) c"

subsection \<open>Properties\<close>

lemma pdf_loop_reach:
  "loop_reach E out prog doc ex s0 s \<Longrightarrow> pdf_loop E out prog doc ex pages s = Inr s' \<Longrightarrow>
   loop_reach E out prog doc ex s0 s'"
proof (induction pages arbitrary: s)
  case Nil
  then show ?case by simp
next
  case (Cons p pages)
  then obtain s1 where "pdf_step E out prog doc ex p s = Inr s1"
      and "pdf_loop E out prog doc ex pages s1 = Inr s'"
    by (auto split: sum.splits)
  with Cons show ?case by (blast intro: loop_reach.step)
qed

lemma progress_record_current_page:
  "progress_record (st\<lparr>current_page := p\<rparr>) l = progress_record st l"
  by (simp add: progress_record_def)

text \<open>C10. In every state the page loop reaches by successful iterations from a start
  with no page processed, the progress file holds exactly the record of the object's
  processed pages and last processed page, and that page is among the processed ones:
  a skipped page changes neither.\<close>

theorem loop_reach_progress_synced:
  assumes "loop_reach E out prog doc ex s0 s" and "last_processed s0 = None" and "out \<noteq> prog"
  shows "progress_synced prog s"
  using assms(1)
proof (induction rule: loop_reach.induct)
  case start
  with assms(2) show ?case by (simp add: progress_synced_def)
next
  case (step s p s')
  from step.hyps(2) show ?case
  proof (cases rule: pdf_step_Inr_cases)
    case (skip old)
    with step.IH show ?thesis
      by (simp add: progress_synced_def progress_record_current_page split: option.splits sum.splits)
  next
    case (page img res r d)
    with assms(3) show ?thesis by (auto simp: progress_synced_def)
  qed
qed

lemma pdf_step_sim:
  assumes sim: "sim doc req0 a s" and step: "pdf_step E out prog doc ex p s = Inr s'"
    and rng: "0 \<le> p" "p < int (length doc)"
  shows "\<exists>a'. spec_page ex a p a' \<and> sim doc req0 a' s'"
  using step
proof (cases rule: pdf_step_Inr_cases)
  case (skip old)
  with sim have "spec_page ex a p a" by (auto simp: sim_def intro: spec_page.reuse)
  moreover from skip sim have "sim doc req0 a s'" by (simp add: sim_def)
  ultimately show ?thesis by blast
next
  case (page img res r d)
  let ?a' = "a\<lparr>a_processed := insert p (a_processed a), a_last := Some p, a_sent := a_sent a @ [p]\<rparr>"
  from page(1) sim have "\<not> (p \<in> a_processed a \<and> p \<in> dom ex)" by (simp add: sim_def)
  then have "spec_page ex a p ?a'" by (rule spec_page.recognise)
  moreover from page sim doc_page_in_range [OF rng] have "sim doc req0 ?a' s'"
    by (auto simp: sim_def)
  ultimately show ?thesis by blast
qed

text \<open>C8. The page loop refines the PROCESSING state of the design: every pass that
  raises nothing, over pages of the document, is matched by a run of \<open>spec_page\<close> from
  the abstract state of its start to the abstract state of its end, the processed set,
  the last page and the pages sent to the service included.\<close>

theorem pdf_loop_refines_spec:
  assumes "sim doc req0 a s" "pdf_loop E out prog doc ex pages s = Inr s'"
    and "list_all (\<lambda>p. 0 \<le> p \<and> p < int (length doc)) pages"
  shows "\<exists>a'. spec_pages ex a pages a' \<and> sim doc req0 a' s'"
  using assms
proof (induction pages arbitrary: a s)
  case Nil
  then show ?case by (auto intro: spec_pages.nil)
next
  case (Cons p pages)
  from Cons.prems(2) obtain s1 where step: "pdf_step E out prog doc ex p s = Inr s1"
      and loop: "pdf_loop E out prog doc ex pages s1 = Inr s'"
    by (auto split: sum.splits)
  from pdf_step_sim [OF Cons.prems(1) step] Cons.prems(3) obtain b
    where b: "spec_page ex a p b" "sim doc req0 b s1" by auto
  from Cons.IH [OF b(2) loop] Cons.prems(3) obtain c
    where "spec_pages ex b pages c" "sim doc req0 c s'" by auto
  with b show ?case by (blast intro: spec_pages.cons)
qed

theorem loop_reach_progress_synced_witness:
  "\<exists>s'. pdf_loop \<lparr>recognize = \<lambda>_ _. Inr (Response_Text (u ''x'')), writable = \<lambda>_. True,
                    fmt_pct = \<lambda>n t. str_nat n\<rparr>
           (u ''b_processado.html'') (u ''b_progresso.json'') [1, 2 :: nat]
           [0 \<mapsto> page_body (u ''a'') @ footer_marker] [0, 1]
           \<lparr>obj = \<lparr>current_page = 0, total_pages = 2, processed_pages = [0]\<rparr>,
            world = \<lparr>files = Map.empty, requests = []\<rparr>, all_content = [], last_processed = None\<rparr> =
         Inr s' \<and> progress_synced (u ''b_progresso.json'') s'"
proof -
  let ?E = "\<lparr>recognize = \<lambda>_ _. Inr (Response_Text (u ''x'')), writable = \<lambda>_. True,
            fmt_pct = \<lambda>n (t :: int). str_nat n\<rparr>"
  let ?s = "\<lparr>obj = \<lparr>current_page = 0, total_pages = 2, processed_pages = [0 :: int]\<rparr>,
            world = \<lparr>files = Map.empty, requests = [] :: nat list\<rparr>, all_content = [],
            last_processed = None\<rparr>"
  let ?ex = "[0 \<mapsto> page_body (u ''a'') @ footer_marker] :: int \<rightharpoonup> pystr"
  have c: "clean_str (u ''x'') = u ''x''" by (simp add: clean_eval)
  obtain s' where loop: "pdf_loop ?E (u ''b_processado.html'') (u ''b_progresso.json'') [1, 2] ?ex [0, 1] ?s = Inr s'"
    by (simp add: step_defs doc_page_def progress_record_def html_document_def clean_text_def c
        del: u_Cons)
  have "loop_reach ?E (u ''b_processado.html'') (u ''b_progresso.json'') [1, 2] ?ex ?s s'"
    by (rule pdf_loop_reach [OF loop_reach.start loop])
  from loop_reach_progress_synced [OF this] loop show ?thesis by auto
qed

theorem pdf_loop_refines_spec_witness:
  "\<exists>s'. pdf_loop \<lparr>recognize = \<lambda>_ _. Inr (Response_Text (u ''x'')), writable = \<lambda>_. True,
                    fmt_pct = \<lambda>n t. str_nat n\<rparr>
           (u ''b_processado.html'') (u ''b_progresso.json'') [1, 2 :: nat]
           [0 \<mapsto> page_body (u ''a'') @ footer_marker] [0, 1]
           \<lparr>obj = \<lparr>current_page = 0, total_pages = 2, processed_pages = [0]\<rparr>,
            world = \<lparr>files = Map.empty, requests = []\<rparr>, all_content = [], last_processed = None\<rparr> =
         Inr s' \<and>
       (\<exists>a'. spec_pages [0 \<mapsto> page_body (u ''a'') @ footer_marker]
               \<lparr>a_processed = {0}, a_last = None, a_sent = []\<rparr> [0, 1] a' \<and>
             sim [1, 2 :: nat] [] a' s')"
proof -
  let ?E = "\<lparr>recognize = \<lambda>_ _. Inr (Response_Text (u ''x'')), writable = \<lambda>_. True,
            fmt_pct = \<lambda>n (t :: int). str_nat n\<rparr>"
  let ?s = "\<lparr>obj = \<lparr>current_page = 0, total_pages = 2, processed_pages = [0 :: int]\<rparr>,
            world = \<lparr>files = Map.empty, requests = [] :: nat list\<rparr>, all_content = [],
            last_processed = None\<rparr>"
  let ?ex = "[0 \<mapsto> page_body (u ''a'') @ footer_marker] :: int \<rightharpoonup> pystr"
  have c: "clean_str (u ''x'') = u ''x''" by (simp add: clean_eval)
  obtain s' where loop: "pdf_loop ?E (u ''b_processado.html'') (u ''b_progresso.json'') [1, 2] ?ex [0, 1] ?s = Inr s'"
    by (simp add: step_defs doc_page_def progress_record_def html_document_def clean_text_def c
        del: u_Cons)
  have "sim [1, 2 :: nat] [] \<lparr>a_processed = {0}, a_last = None, a_sent = []\<rparr> ?s"
    by (simp add: sim_def)
  from pdf_loop_refines_spec [OF this loop] loop show ?thesis by auto
qed

end
