(* ===== verification/Runs.thy ===== *)
theory Runs
  imports Pipeline
begin

text \<open>
  Whole runs of \<open>_process_pdf\<close>: what a run leaves in the two files it owns and in the log
  of service requests, for the situations the design names (a completed document run
  again, an explicit start page, a file that cannot be written), and the invariant of the
  progress file across runs.
\<close>

text \<open>The invariant the design states for the progress file (section 3 of the design):
  the processed pages are distinct page indices of the document, stored sorted, with the
  total, the percentage computed from them, and a last page among them.\<close>

definition progress_wf :: "int \<Rightarrow> progress_json \<Rightarrow> bool" where
  "progress_wf n r \<longleftrightarrow>
     (case pj_processed_pages r of
        None \<Rightarrow> False
      | Some ps \<Rightarrow> sorted ps \<and> distinct ps \<and> list_all (\<lambda>p. 0 \<le> p \<and> p < n) ps \<and>
                  pj_total_pages r = Some n \<and>
                  pj_progress_percentage r = Some (Pct_round2 (length ps) n) \<and>
                  (case pj_last_page r of None \<Rightarrow> True | Some l \<Rightarrow> l \<in> set ps))"

definition progress_file_ok :: "int \<Rightarrow> 'img files \<Rightarrow> path \<Rightarrow> bool" where
  "progress_file_ok n fs progress_file =
     (case fs progress_file of
        None \<Rightarrow> True
      | Some (Progress_File r) \<Rightarrow> progress_wf n r
      | Some _ \<Rightarrow> False)"

text \<open>The state a loop is left in, normally or by an exception.\<close>

definition loop_state :: "(error \<times> 'img run) + 'img run \<Rightarrow> 'img run" where
  "loop_state r = (case r of Inl (e, s) \<Rightarrow> s | Inr s \<Rightarrow> s)"

text \<open>What every state of the page loop keeps: the object's page count, its processed pages
  distinct and inside the document, and a well-formed progress file (or none).\<close>

definition run_inv :: "int \<Rightarrow> path \<Rightarrow> 'img run \<Rightarrow> bool" where
  "run_inv n progress_file s \<longleftrightarrow>
     total_pages (obj s) = n \<and> distinct (processed_pages (obj s)) \<and>
     list_all (\<lambda>p. 0 \<le> p \<and> p < n) (processed_pages (obj s)) \<and>
     progress_file_ok n (files (world s)) progress_file"

text \<open>C17. What \<open>_save_html_file\<close> writes, \<open>_extract_existing_content\<close> reads back:
  for a content made of rendered pages (numbered from 1, texts without a footer marker),
  the dict maps each page's 0-based index to its content block and footer marker.\<close>

theorem save_then_extract:
  assumes fmt: "\<forall>n t. no_start_of content_marker (fmt_pct E n t)"
    and pages: "\<forall>(c, n) \<in> set ps. 0 \<le> n \<and> \<not> sublist footer_marker c"
    and save: "save_html_file E st out (concat (map (\<lambda>(c, n). render_page c n t) ps)) fs = Inr fs'"
  shows "extract_existing_content fs' out =
           map_of (rev (map (\<lambda>(c, n). (n - 1, page_body c @ footer_marker)) ps))"
proof -
  from save obtain d where
    d: "html_document (fmt_pct E) (processed_pages st) (total_pages st)
          (concat (map (\<lambda>(c, n). render_page c n t) ps)) = Inr d"
    and fs': "fs' = fs(out \<mapsto> Text_File d)"
    by (auto simp: save_html_file_def write_text_file_def split: sum.splits if_splits)
  have "extract_content d = extract_content (concat (map (\<lambda>(c, n). render_page c n t) ps))"
    by (rule extract_saved_document [OF fmt pages d])
  with extract_content_pages [OF pages, of t] fs' show ?thesis
    by (simp add: extract_existing_content_def)
qed

theorem save_then_extract_witness:
  "\<exists>fs'. save_html_file \<lparr>recognize = \<lambda>_ (_ :: nat). Inr Response_No_Text, writable = \<lambda>_. True,
                            fmt_pct = \<lambda>n t. str_nat n\<rparr>
           \<lparr>current_page = 0, total_pages = 1, processed_pages = [0]\<rparr> (u ''b_processado.html'')
           (concat (map (\<lambda>(c, n). render_page c n 1) [(u ''x'', 1)])) Map.empty = Inr fs' \<and>
         extract_existing_content fs' (u ''b_processado.html'') =
           map_of (rev (map (\<lambda>(c, n). (n - 1, page_body c @ footer_marker)) [(u ''x'', 1 :: int)]))"
proof -
  let ?E = "\<lparr>recognize = \<lambda>_ (_ :: nat). Inr Response_No_Text, writable = \<lambda>_. True,
             fmt_pct = \<lambda>n (t :: int). str_nat n\<rparr>"
  let ?c = "concat (map (\<lambda>(c, n). render_page c n 1) [(u ''x'', 1 :: int)])"
  obtain fs' where save: "save_html_file ?E \<lparr>current_page = 0, total_pages = 1, processed_pages = [0]\<rparr>
      (u ''b_processado.html'') ?c Map.empty = Inr fs'"
    by (simp add: save_html_file_def write_text_file_def html_document_def Let_def del: u_Cons)
  have fmt: "\<forall>n t. no_start_of content_marker (fmt_pct ?E n t)" by simp
  have pages: "\<forall>(c, n) \<in> set [(u ''x'', 1 :: int)]. 0 \<le> n \<and> \<not> sublist footer_marker c"
    by (auto dest: sublist_length_le simp: marker_defs)
  from save_then_extract [OF fmt pages save] save show ?thesis by blast
qed

text \<open>C14. Running again a document whose progress file records its last page as the last
  processed one (no start page requested) does nothing: no request is sent, no file is
  written, and the output path is returned. The design's idempotence requirement for a
  second run holds.\<close>

theorem rerun_after_completion_is_noop:
  assumes pdf: "files w pdf_path = Some (Pdf_File doc)"
    and prog: "files w (path_join dir (base @ u ''_progresso.json'')) = Some (Progress_File pj)"
    and last: "pj_last_page pj = Some (int (length doc) - 1)"
  shows "process_pdf E pdf_path dir base 0 st w =
           (Some (path_join dir (base @ u ''_processado.html'')),
            st\<lparr>total_pages := int (length doc),
               processed_pages := (case pj_processed_pages pj of None \<Rightarrow> [] | Some ps \<Rightarrow> ps),
               current_page := int (length doc)\<rparr>, w)"
proof -
  let ?n = "int (length doc)"
  let ?loaded = "Some (case pj_processed_pages pj of None \<Rightarrow> [] | Some ps \<Rightarrow> ps, Some (?n - 1))"
  have load: "load_progress (files w) (path_join dir (base @ u ''_progresso.json'')) = Inr ?loaded"
    using prog last by (simp add: load_progress_def del: u_Cons)
  have start: "start_page_of 0 ?n ?loaded = ?n"
    by (simp add: start_page_of_def)
  from process_pdf_nothing_left [OF pdf load, of 0 E st] start show ?thesis by simp
qed

theorem rerun_after_completion_is_noop_witness:
  "process_pdf \<lparr>recognize = \<lambda>_ _. Inr (Response_Text (u ''x'')), writable = \<lambda>_. True,
                fmt_pct = \<lambda>n t. str_nat n\<rparr>
     (u ''b.pdf'') [] (u ''b'') 0 init_ocr
     \<lparr>files = [u ''b.pdf'' \<mapsto> Pdf_File [1, 2 :: nat],
               u ''b_progresso.json'' \<mapsto> Progress_File \<lparr>pj_total_pages = Some 2,
                  pj_processed_pages = Some [0, 1], pj_last_page = Some 1,
                  pj_progress_percentage = Some (Pct_round2 2 2)\<rparr>],
      requests = []\<rparr> =
   (Some (path_join [] (u ''b'' @ u ''_processado.html'')),
    init_ocr\<lparr>total_pages := 2, processed_pages := [0, 1], current_page := 2\<rparr>,
    \<lparr>files = [u ''b.pdf'' \<mapsto> Pdf_File [1, 2],
               u ''b_progresso.json'' \<mapsto> Progress_File \<lparr>pj_total_pages = Some 2,
                  pj_processed_pages = Some [0, 1], pj_last_page = Some 1,
                  pj_progress_percentage = Some (Pct_round2 2 2)\<rparr>],
      requests = []\<rparr>)"
  using rerun_after_completion_is_noop
      [of "\<lparr>files = [u ''b.pdf'' \<mapsto> Pdf_File [1, 2 :: nat],
               u ''b_progresso.json'' \<mapsto> Progress_File \<lparr>pj_total_pages = Some 2,
                  pj_processed_pages = Some [0, 1], pj_last_page = Some 1,
                  pj_progress_percentage = Some (Pct_round2 2 2)\<rparr>],
          requests = []\<rparr>" "u ''b.pdf''" "[1, 2]" "[]" "u ''b''"
          "\<lparr>pj_total_pages = Some 2, pj_processed_pages = Some [0, 1], pj_last_page = Some 1,
             pj_progress_percentage = Some (Pct_round2 2 2)\<rparr>"
          "\<lparr>recognize = \<lambda>_ _. Inr (Response_Text (u ''x'')), writable = \<lambda>_. True,
             fmt_pct = \<lambda>n t. str_nat n\<rparr>" init_ocr]
  by (simp add: path_join_def)

text \<open>C15. A first run with an explicit start page \<open>sp\<close> inside the document, in
  which every page from \<open>sp\<close> on is recognised, never sends the pages before \<open>sp\<close> to the
  service and writes a document that holds exactly the pages from \<open>sp\<close> on.\<close>

theorem explicit_start_page_run:
  assumes pdf: "files w pdf_path = Some (Pdf_File doc)"
    and noprog: "files w (path_join dir (base @ u ''_progresso.json'')) = None"
    and sp: "0 < sp" "sp < int (length doc)"
    and ok: "\<forall>p \<in> {sp..<int (length doc)}.
               recognize E ocr_prompt (doc ! nat p) = Inr (Response_Text (res p)) \<and>
               \<not> sublist footer_marker (clean_str (res p))"
    and wr: "\<forall>f. writable E f"
    and fmt: "\<forall>n t. no_start_of content_marker (fmt_pct E n t)"
  shows "\<exists>st' w' d.
           process_pdf E pdf_path dir base sp st w =
             (Some (path_join dir (base @ u ''_processado.html'')), st', w') \<and>
           requests w' = requests w @ map (\<lambda>p. doc ! nat p) [sp..int (length doc) - 1] \<and>
           files w' (path_join dir (base @ u ''_processado.html'')) = Some (Text_File d) \<and>
           dom (extract_content d) = {sp..<int (length doc)}"
proof -
  let ?n = "int (length doc)"
  have load: "load_progress (files w) (path_join dir (base @ u ''_progresso.json'')) = Inr None"
    using noprog by (simp add: load_progress_def del: u_Cons)
  have start: "start_page_of sp ?n None = sp"
    using sp by (simp add: start_page_of_def)
  have "\<forall>p \<in> {start_page_of sp ?n None..<?n}.
          p \<notin> set (case None of None \<Rightarrow> [] | Some (ps, _) \<Rightarrow> ps) \<and>
          recognize E ocr_prompt (doc ! nat p) = Inr (Response_Text (res p)) \<and>
          \<not> sublist footer_marker (clean_str (res p))"
    using ok by (simp add: start)
  from process_pdf_fresh_run [OF pdf load _ _ this wr fmt, of st] start sp
  show ?thesis by (simp del: u_Cons) blast
qed

theorem explicit_start_page_run_witness:
  "\<exists>st' w' d.
     process_pdf \<lparr>recognize = \<lambda>_ _. Inr (Response_Text (u ''x'')), writable = \<lambda>_. True,
                  fmt_pct = \<lambda>n t. str_nat n\<rparr>
       (u ''b.pdf'') [] (u ''b'') 1 init_ocr
       \<lparr>files = [u ''b.pdf'' \<mapsto> Pdf_File [1, 2, 3 :: nat]], requests = []\<rparr> =
       (Some (path_join [] (u ''b'' @ u ''_processado.html'')), st', w') \<and>
     requests w' = [] @ map (\<lambda>p. [1, 2, 3] ! nat p) [1..3 - 1] \<and>
     files w' (path_join [] (u ''b'' @ u ''_processado.html'')) = Some (Text_File d) \<and>
     dom (extract_content d) = {1..<3}"
proof -
  note c = clean_str_sample and f = sample_footer_free
  show ?thesis
    using explicit_start_page_run
      [of "\<lparr>files = [u ''b.pdf'' \<mapsto> Pdf_File [1, 2, 3 :: nat]], requests = []\<rparr>" "u ''b.pdf''"
          "[1, 2, 3]" "[]" "u ''b''" 1
          "\<lparr>recognize = \<lambda>_ _. Inr (Response_Text (u ''x'')), writable = \<lambda>_. True,
             fmt_pct = \<lambda>n t. str_nat n\<rparr>" "\<lambda>_. u ''x''" init_ocr]
    using c f by (simp add: path_join_def)
qed

lemma pdf_step_progress_write_error:
  assumes "p \<notin> set (processed_pages (obj s))" "0 \<le> p" "p < int (length doc)"
    and "recognize E ocr_prompt (doc ! nat p) = Inr (Response_Text res)"
    and "total_pages (obj s) \<noteq> 0" "\<not> writable E prog"
  shows "pdf_step E out prog doc ex p s =
           Inl (Write_Error prog,
                s\<lparr>obj := (obj s)\<lparr>current_page := p, processed_pages := processed_pages (obj s) @ [p]\<rparr>,
                  world := (world s)\<lparr>requests := requests (world s) @ [doc ! nat p]\<rparr>,
                  all_content := all_content s @ render_page (clean_str res) (p + 1) (total_pages (obj s)),
                  last_processed := Some p\<rparr>)"
  using assms
  by (simp add: step_defs doc_page_in_range clean_text_def progress_record_def)

text \<open>C3. When the progress file cannot be written after the first page of a first
  run, the error handler still writes the document with that page and returns the output
  path as on success: the document holds page 0 while no progress file records it. The
  design asks for a persistence error to be fatal and reported.\<close>

theorem progress_write_failure_desync:
  assumes pdf: "files w pdf_path = Some (Pdf_File doc)"
    and noprog: "files w (path_join dir (base @ u ''_progresso.json'')) = None"
    and ne: "doc \<noteq> []"
    and ok: "recognize E ocr_prompt (doc ! 0) = Inr (Response_Text res)"
      "\<not> sublist footer_marker (clean_str res)"
    and nw: "\<not> writable E (path_join dir (base @ u ''_progresso.json''))"
    and wo: "writable E (path_join dir (base @ u ''_processado.html''))"
    and fmt: "\<forall>n t. no_start_of content_marker (fmt_pct E n t)"
  shows "\<exists>st' w' d.
           process_pdf E pdf_path dir base 0 st w =
             (Some (path_join dir (base @ u ''_processado.html'')), st', w') \<and>
           processed_pages st' = [0] \<and>
           files w' (path_join dir (base @ u ''_progresso.json'')) = None \<and>
           files w' (path_join dir (base @ u ''_processado.html'')) = Some (Text_File d) \<and>
           dom (extract_content d) = {0}"
proof -
  let ?n = "int (length doc)"
  let ?out = "path_join dir (base @ u ''_processado.html'')"
  let ?prog = "path_join dir (base @ u ''_progresso.json'')"
  let ?ex = "if files w ?out = None then Map.empty else extract_existing_content (files w) ?out"
  let ?st = "st\<lparr>total_pages := ?n, current_page := 0, processed_pages := [], current_page := 0\<rparr>"
  let ?s0 = "\<lparr>obj = ?st, world = w, all_content = [], last_processed = None\<rparr>"
  let ?c = "render_page (clean_str res) 1 ?n"
  let ?s1 = "?s0\<lparr>obj := ?st\<lparr>current_page := 0, processed_pages := [0]\<rparr>,
                  world := w\<lparr>requests := requests w @ [doc ! 0]\<rparr>,
                  all_content := ?c, last_processed := Some 0\<rparr>"
  have n: "0 < ?n" using ne by simp
  have load: "load_progress (files w) ?prog = Inr None"
    using noprog by (simp add: load_progress_def del: u_Cons)
  have start: "start_page_of 0 ?n None = 0" using n by (simp add: start_page_of_def)
  have range: "[0..?n - 1] = 0 # [1..?n - 1]" using n by (simp add: upto_rec1)
  have "pdf_step E ?out ?prog doc ?ex 0 ?s0 = Inl (Write_Error ?prog, ?s1)"
    using pdf_step_progress_write_error [of 0 ?s0 doc E res ?prog ?out ?ex] n ok nw by simp
  then have loop: "pdf_loop E ?out ?prog doc ?ex [0..?n - 1] ?s0 = Inl (Write_Error ?prog, ?s1)"
    by (simp add: range)
  obtain d where d: "html_document (fmt_pct E) [0] ?n ?c = Inr d"
    using n by (simp add: html_document_def Let_def del: u_Cons)
  have "?c \<noteq> []" by (simp add: render_page_def)
  then have run: "process_pdf E pdf_path dir base 0 st w =
      (Some ?out, obj ?s1, w\<lparr>requests := requests w @ [doc ! 0], files := (files w)(?out \<mapsto> Text_File d)\<rparr>)"
    using pdf load start loop d wo n by (simp add: process_pdf_def save_html_file_def write_text_file_def Let_def del: u_Cons)
  have "dom (extract_content d) = set [0]"
    using d ok(2) extract_saved_rendered_pages [OF fmt, of "[0]" "\<lambda>_. res" "[0]" ?n ?n d]
    by (simp add: rendered_pages_def)
  then show ?thesis using run noprog output_progress_paths_differ [of dir base] by auto
qed

theorem progress_write_failure_desync_witness:
  "\<exists>st' w' d.
     process_pdf \<lparr>recognize = \<lambda>_ _. Inr (Response_Text (u ''x'')),
                  writable = \<lambda>f. f \<noteq> u ''b_progresso.json'', fmt_pct = \<lambda>n t. str_nat n\<rparr>
       (u ''b.pdf'') [] (u ''b'') 0 init_ocr
       \<lparr>files = [u ''b.pdf'' \<mapsto> Pdf_File [1, 2 :: nat]], requests = []\<rparr> =
       (Some (path_join [] (u ''b'' @ u ''_processado.html'')), st', w') \<and>
     processed_pages st' = [0] \<and>
     files w' (path_join [] (u ''b'' @ u ''_progresso.json'')) = None \<and>
     files w' (path_join [] (u ''b'' @ u ''_processado.html'')) = Some (Text_File d) \<and>
     dom (extract_content d) = {0}"
proof -
  note c = clean_str_sample and f = sample_footer_free
  show ?thesis
    using progress_write_failure_desync
      [of "\<lparr>files = [u ''b.pdf'' \<mapsto> Pdf_File [1, 2 :: nat]], requests = []\<rparr>" "u ''b.pdf''"
          "[1, 2]" "[]" "u ''b''"
          "\<lparr>recognize = \<lambda>_ _. Inr (Response_Text (u ''x'')),
             writable = \<lambda>f. f \<noteq> u ''b_progresso.json'', fmt_pct = \<lambda>n t. str_nat n\<rparr>"
          "u ''x''" init_ocr]
    using c f by (simp add: path_join_def)
qed

lemma pdf_step_Inr_requests:
  assumes step: "pdf_step E out prog doc ex p s = Inr s'"
    and rng: "0 \<le> p" "p < int (length doc)"
  shows "requests (world s') = requests (world s) @
           (if p \<in> set (processed_pages (obj s)) \<and> p \<in> dom ex then [] else [doc ! nat p]) \<and>
         set (processed_pages (obj s')) = insert p (set (processed_pages (obj s)))"
  using step
proof (cases rule: pdf_step_Inr_cases)
  case (skip old)
  then show ?thesis by auto
next
  case (page img res r d)
  then show ?thesis using doc_page_in_range [OF rng] by auto
qed

text \<open>C11. In a pass of the page loop that raises nothing, the service receives exactly
  the pages of the pass that are not both recorded as processed and read back from the old
  document, once each and in page order: a page present in both is never sent again.\<close>

theorem pdf_loop_requests:
  assumes "pdf_loop E out prog doc ex pages s = Inr s'"
    and "distinct pages" and "\<forall>p \<in> set pages. 0 \<le> p \<and> p < int (length doc)"
  shows "requests (world s') = requests (world s) @
           map (\<lambda>p. doc ! nat p) (filter (\<lambda>p. \<not> (p \<in> set (processed_pages (obj s)) \<and> p \<in> dom ex)) pages)"
  using assms
proof (induction pages arbitrary: s)
  case Nil
  then show ?case by simp
next
  case (Cons p pages)
  from Cons.prems(1) obtain s1 where step: "pdf_step E out prog doc ex p s = Inr s1"
      and loop: "pdf_loop E out prog doc ex pages s1 = Inr s'"
    by (auto split: sum.splits)
  have s1: "requests (world s1) = requests (world s) @
           (if p \<in> set (processed_pages (obj s)) \<and> p \<in> dom ex then [] else [doc ! nat p]) \<and>
         set (processed_pages (obj s1)) = insert p (set (processed_pages (obj s)))"
    using Cons.prems(3) by (intro pdf_step_Inr_requests [OF step]) simp_all
  have IH: "requests (world s') = requests (world s1) @
      map (\<lambda>p. doc ! nat p) (filter (\<lambda>p. \<not> (p \<in> set (processed_pages (obj s1)) \<and> p \<in> dom ex)) pages)"
    using Cons.prems(2,3) by (intro Cons.IH [OF loop]) simp_all
  have "filter (\<lambda>q. \<not> (q \<in> set (processed_pages (obj s1)) \<and> q \<in> dom ex)) pages =
        filter (\<lambda>q. \<not> (q \<in> set (processed_pages (obj s)) \<and> q \<in> dom ex)) pages"
    using s1 Cons.prems(2) by (intro filter_cong) auto
  with IH s1 show ?case by simp
qed

theorem pdf_loop_requests_witness:
  "\<exists>s'. pdf_loop sample_env (u ''b_processado.html'') (u ''b_progresso.json'') [1, 2] sample_existing
          [0, 1] sample_run = Inr s' \<and> requests (world s') = [2]"
proof -
  obtain s' where loop: "pdf_loop sample_env (u ''b_processado.html'') (u ''b_progresso.json'') [1, 2]
      sample_existing [0, 1] sample_run = Inr s'"
    using sample_loop by blast
  from pdf_loop_requests [OF loop] loop show ?thesis by auto
qed

lemma process_new_page_inv:
  assumes inv: "run_inv n prog s" and p: "0 \<le> p" "p < n" and ne: "out \<noteq> prog"
  shows "run_inv n prog (loop_state (process_new_page E out prog doc p s))"
proof -
  let ?ps = "if p \<in> set (processed_pages (obj s)) then processed_pages (obj s) else processed_pages (obj s) @ [p]"
  have d: "distinct ?ps" and r: "list_all (\<lambda>p. 0 \<le> p \<and> p < n) ?ps" and m: "p \<in> set ?ps"
    using inv p by (auto simp: run_inv_def)
  have wf: "progress_record ((obj s)\<lparr>processed_pages := ?ps\<rparr>) (Some p) = Inr x \<Longrightarrow> progress_wf n x" for x
    using inv p
    by (cases "p \<in> set (processed_pages (obj s))")
      (auto simp: progress_record_def progress_wf_def run_inv_def list_all_iff split: if_splits)
  show ?thesis
    using inv d r wf ne
    by (auto simp: process_new_page_def process_page_content_def update_progress_file_def
        save_html_file_def write_text_file_def loop_state_def run_inv_def progress_file_ok_def Let_def
        split: sum.splits prod.splits if_splits)
qed

lemma pdf_step_inv:
  assumes "run_inv n prog s" "0 \<le> p" "p < n" "out \<noteq> prog"
  shows "run_inv n prog (loop_state (pdf_step E out prog doc ex p s))"
proof (cases "p \<in> set (processed_pages (obj s)) \<and> p \<in> dom ex")
  case True
  with assms(1) show ?thesis by (simp add: pdf_step_def Let_def loop_state_def run_inv_def)
next
  assume g: "\<not> (p \<in> set (processed_pages (obj s)) \<and> p \<in> dom ex)"
  have "run_inv n prog (s\<lparr>obj := (obj s)\<lparr>current_page := p\<rparr>\<rparr>)"
    using assms(1) by (simp add: run_inv_def)
  from process_new_page_inv [OF this assms(2-4)] g show ?thesis
    by (auto simp: pdf_step_def Let_def)
qed

lemma pdf_loop_inv:
  assumes "run_inv n prog s" "list_all (\<lambda>p. 0 \<le> p \<and> p < n) pages" "out \<noteq> prog"
  shows "run_inv n prog (loop_state (pdf_loop E out prog doc ex pages s))"
  using assms
proof (induction pages arbitrary: s)
  case Nil
  then show ?case by (simp add: loop_state_def)
next
  case (Cons p pages)
  have step: "run_inv n prog (loop_state (pdf_step E out prog doc ex p s))"
    using Cons.prems by (intro pdf_step_inv) simp_all
  show ?case
  proof (cases "pdf_step E out prog doc ex p s")
    case (Inl r)
    with step show ?thesis by (simp add: loop_state_def)
  next
    case (Inr s1)
    with step Cons.IH [of s1] Cons.prems(2,3) show ?thesis by (simp add: loop_state_def)
  qed
qed

lemma load_progress_wf:
  assumes "load_progress fs prog = Inr (Some (ps, l))" "progress_file_ok n fs prog"
  shows "distinct ps \<and> list_all (\<lambda>p. 0 \<le> p \<and> p < n) ps \<and> (\<forall>k. l = Some k \<longrightarrow> k \<in> set ps)"
  using assms
  by (auto simp: load_progress_def progress_file_ok_def progress_wf_def
      split: option.splits fs_entry.splits)

lemma start_page_of_nonneg:
  assumes "\<forall>ps k. loaded = Some (ps, Some k) \<longrightarrow> 0 \<le> k"
  shows "0 \<le> start_page_of sp n loaded"
  using assms by (auto simp: start_page_of_def Let_def split: option.splits prod.splits)

text \<open>C9. The progress file of a document stays well formed across runs: if before
  a run it is absent or holds distinct page indices of the document, sorted, with the
  total, the matching percentage and a last page among them, then so it is after the run,
  whatever the service answers, whichever files can be written and wherever the run
  stops.\<close>

theorem progress_file_stays_wf:
  assumes pdf: "files w pdf_path = Some (Pdf_File doc)"
    and ok: "progress_file_ok (int (length doc)) (files w) (path_join dir (base @ u ''_progresso.json''))"
    and run: "process_pdf E pdf_path dir base sp st w = (r, st', w')"
  shows "progress_file_ok (int (length doc)) (files w') (path_join dir (base @ u ''_progresso.json''))"
proof -
  let ?n = "int (length doc)"
  let ?out = "path_join dir (base @ u ''_processado.html'')"
  let ?prog = "path_join dir (base @ u ''_progresso.json'')"
  have ne: "?out \<noteq> ?prog" by (rule output_progress_paths_differ)
  show ?thesis
  proof (cases "load_progress (files w) ?prog")
    case (Inl e)
    with pdf run ok show ?thesis by (simp add: process_pdf_def Let_def del: u_Cons)
  next
    case (Inr loaded)
    let ?ps = "case loaded of None \<Rightarrow> [] | Some (ps, _) \<Rightarrow> ps"
    let ?cur = "start_page_of sp ?n loaded"
    let ?ex = "if files w ?out = None then Map.empty else extract_existing_content (files w) ?out"
    let ?s0 = "\<lparr>obj = st\<lparr>total_pages := ?n, current_page := max 0 (min sp (?n - 1)),
                       processed_pages := ?ps, current_page := ?cur\<rparr>,
                world = w, all_content = [], last_processed = None\<rparr>"
    have lw: "distinct ?ps \<and> list_all (\<lambda>p. 0 \<le> p \<and> p < ?n) ?ps \<and>
              (\<forall>ps k. loaded = Some (ps, Some k) \<longrightarrow> 0 \<le> k)"
      using load_progress_wf [of "files w" ?prog] Inr ok
      by (cases loaded) (auto simp: list_all_iff)
    then have inv0: "run_inv ?n ?prog ?s0" using ok by (simp add: run_inv_def)
    have pages: "list_all (\<lambda>p. 0 \<le> p \<and> p < ?n) [?cur..?n - 1]"
      using start_page_of_nonneg [of loaded sp ?n] lw by (auto simp: list_all_iff)
    have inv: "run_inv ?n ?prog (loop_state (pdf_loop E ?out ?prog doc ?ex [?cur..?n - 1] ?s0))"
      by (rule pdf_loop_inv [OF inv0 pages ne])
    show ?thesis
    proof (cases "pdf_loop E ?out ?prog doc ?ex [?cur..?n - 1] ?s0")
      case (Inr s)
      with pdf run \<open>load_progress (files w) ?prog = Inr loaded\<close> inv show ?thesis
        by (simp add: process_pdf_def Let_def loop_state_def run_inv_def del: u_Cons)
    next
      case (Inl es)
      then obtain e s where es: "pdf_loop E ?out ?prog doc ?ex [?cur..?n - 1] ?s0 = Inl (e, s)"
        by (cases es) auto
      with inv have "progress_file_ok ?n (files (world s)) ?prog"
        by (simp add: loop_state_def run_inv_def)
      with pdf run \<open>load_progress (files w) ?prog = Inr loaded\<close> es ne show ?thesis
        by (auto simp: process_pdf_def Let_def save_html_file_def write_text_file_def progress_file_ok_def
            split: if_splits sum.splits simp del: u_Cons)
    qed
  qed
qed

theorem progress_file_stays_wf_witness:
  "\<exists>r st' w'.
     process_pdf \<lparr>recognize = \<lambda>_ _. Inl Service_Error, writable = \<lambda>_. True, fmt_pct = \<lambda>n t. str_nat n\<rparr>
       (u ''b.pdf'') [] (u ''b'') 0 init_ocr
       \<lparr>files = [u ''b.pdf'' \<mapsto> Pdf_File [1, 2 :: nat],
                 u ''b_progresso.json'' \<mapsto> Progress_File \<lparr>pj_total_pages = Some 2,
                    pj_processed_pages = Some [0], pj_last_page = Some 0,
                    pj_progress_percentage = Some (Pct_round2 1 2)\<rparr>],
        requests = []\<rparr> = (r, st', w') \<and>
     progress_file_ok 2 (files w') (path_join [] (u ''b'' @ u ''_progresso.json''))"
proof -
  let ?E = "\<lparr>recognize = \<lambda>_ (_ :: nat). Inl Service_Error, writable = \<lambda>_. True,
             fmt_pct = \<lambda>n (t :: int). str_nat n\<rparr>"
  let ?w = "\<lparr>files = [u ''b.pdf'' \<mapsto> Pdf_File [1, 2 :: nat],
                 u ''b_progresso.json'' \<mapsto> Progress_File \<lparr>pj_total_pages = Some 2,
                    pj_processed_pages = Some [0], pj_last_page = Some 0,
                    pj_progress_percentage = Some (Pct_round2 1 2)\<rparr>],
        requests = []\<rparr>"
  obtain r st' w' where run: "process_pdf ?E (u ''b.pdf'') [] (u ''b'') 0 init_ocr ?w = (r, st', w')"
    by (cases "process_pdf ?E (u ''b.pdf'') [] (u ''b'') 0 init_ocr ?w") auto
  have pdf: "files ?w (u ''b.pdf'') = Some (Pdf_File [1, 2])" by simp
  have ok: "progress_file_ok (int (length [1, 2 :: nat])) (files ?w) (path_join [] (u ''b'' @ u ''_progresso.json''))"
    by (simp add: progress_file_ok_def progress_wf_def path_join_def)
  from progress_file_stays_wf [OF pdf ok run] run show ?thesis by auto
qed

lemma process_new_page_frame:
  "f \<noteq> out \<Longrightarrow> f \<noteq> prog \<Longrightarrow>
   files (world (loop_state (process_new_page E out prog doc p s))) f = files (world s) f"
  by (auto simp: process_new_page_def process_page_content_def update_progress_file_def
      save_html_file_def write_text_file_def loop_state_def Let_def split: sum.splits prod.splits if_splits)

lemma pdf_loop_frame:
  assumes "f \<noteq> out" "f \<noteq> prog"
  shows "files (world (loop_state (pdf_loop E out prog doc ex pages s))) f = files (world s) f"
proof (induction pages arbitrary: s)
  case Nil
  then show ?case by (simp add: loop_state_def)
next
  case (Cons p pages)
  have step: "files (world (loop_state (pdf_step E out prog doc ex p s))) f = files (world s) f"
    using process_new_page_frame [OF assms, of E doc p "s\<lparr>obj := (obj s)\<lparr>current_page := p\<rparr>\<rparr>"]
    by (simp add: pdf_step_def Let_def loop_state_def)
  show ?case
  proof (cases "pdf_step E out prog doc ex p s")
    case (Inl r)
    with step show ?thesis by (simp add: loop_state_def)
  next
    case (Inr s1)
    with step Cons.IH [of s1] show ?thesis by (simp add: loop_state_def)
  qed
qed

lemma process_pdf_frame:
  assumes run: "process_pdf E pdf_path dir base sp st w = (r, st', w')"
    and f: "f \<noteq> path_join dir (base @ u ''_processado.html'')"
      "f \<noteq> path_join dir (base @ u ''_progresso.json'')"
  shows "files w' f = files w f"
proof (cases "\<exists>doc. files w pdf_path = Some (Pdf_File doc)")
  case False
  with run show ?thesis
    by (auto simp: process_pdf_def split: option.splits fs_entry.splits)
next
  case True
  then obtain doc where pdf: "files w pdf_path = Some (Pdf_File doc)" by blast
  let ?n = "int (length doc)"
  let ?out = "path_join dir (base @ u ''_processado.html'')"
  let ?prog = "path_join dir (base @ u ''_progresso.json'')"
  show ?thesis
  proof (cases "load_progress (files w) ?prog")
    case (Inl e)
    with run pdf show ?thesis by (simp add: process_pdf_def Let_def del: u_Cons)
  next
    case (Inr loaded)
    define L where "L = pdf_loop E ?out ?prog doc
      (if files w ?out = None then Map.empty else extract_existing_content (files w) ?out)
      [start_page_of sp ?n loaded..?n - 1]
      \<lparr>obj = st\<lparr>total_pages := ?n, current_page := max 0 (min sp (?n - 1)),
                  processed_pages := (case loaded of None \<Rightarrow> [] | Some (ps, _) \<Rightarrow> ps),
                  current_page := start_page_of sp ?n loaded\<rparr>,
       world = w, all_content = [], last_processed = None\<rparr>"
    have fr: "files (world (loop_state L)) f = files w f"
      unfolding L_def by (subst pdf_loop_frame [OF f]) simp
    have "process_pdf E pdf_path dir base sp st w =
        (case L of
           Inr s \<Rightarrow> (Some ?out, obj s, world s)
         | Inl (e, s) \<Rightarrow>
             if all_content s \<noteq> [] then
               (case save_html_file E (obj s) ?out (all_content s) (files (world s)) of
                  Inl e' \<Rightarrow> (None, obj s, world s)
                | Inr fs \<Rightarrow> (Some ?out, obj s, (world s)\<lparr>files := fs\<rparr>))
             else (None, obj s, world s))"
      unfolding L_def using pdf Inr by (simp add: process_pdf_def Let_def del: u_Cons)
    with run fr f show ?thesis
      by (cases L) (auto simp: loop_state_def save_html_file_def write_text_file_def split: sum.splits if_splits)
  qed
qed

lemma process_technical_frame:
  assumes "process_technical E image_path img st w = (r, w')"
    and "f \<noteq> before_last_dot image_path @ u ''_tecnico.html''"
  shows "files w' f = files w f"
  using assms
  by (auto simp: process_technical_def process_page_content_def save_html_file_def write_text_file_def Let_def
      split: sum.splits prod.splits if_splits simp del: u_Cons)

text \<open>C12. \<open>process_document\<close> changes no file but the ones its mode names: a PDF run
  only the \<open>_processado.html\<close> document and the \<open>_progresso.json\<close> file next to it, an
  image run only the \<open>_tecnico.html\<close> document (the design's "no progress file" for
  images).\<close>

theorem process_document_frame:
  assumes "process_document E p sp st w = (r, st', w')" and "files w' f \<noteq> files w f"
  shows "if last_dot_segment (map ascii_lower p) = u ''pdf''
         then f = path_join (dirname p) (before_last_dot (basename p) @ u ''_processado.html'') \<or>
              f = path_join (dirname p) (before_last_dot (basename p) @ u ''_progresso.json'')
         else f = before_last_dot p @ u ''_tecnico.html''"
proof (cases "last_dot_segment (map ascii_lower p) = u ''pdf''")
  case True
  with assms process_pdf_frame
    [of E p "dirname p" "before_last_dot (basename p)" sp st w r st' w' f]
  show ?thesis by (auto simp: process_document_def Let_def simp del: u_Cons)
next
  case False
  with assms process_technical_frame [of E p _ st w _ w' f] show ?thesis
    by (auto simp: process_document_def Let_def split: option.splits fs_entry.splits sum.splits prod.splits
        simp del: u_Cons)
qed

text \<open>C6. On an object that has processed a PDF before, image mode succeeds, but
  the document it writes for the single image carries the progress banner and the index
  of the earlier PDF: \<open>_save_html_file\<close> reads \<open>self.processed_pages\<close> and
  \<open>self.total_pages\<close>, which \<open>_process_technical\<close> never sets.\<close>

theorem image_mode_reports_object_progress:
  assumes ext: "last_dot_segment (map ascii_lower p) \<noteq> u ''pdf''"
    and img: "files w p = Some (Image_File i)"
    and ok: "recognize E ocr_prompt i = Inr (Response_Text res)"
    and tot: "total_pages st \<noteq> 0"
    and wr: "writable E (before_last_dot p @ u ''_tecnico.html'')"
  shows "\<exists>d. process_document E p sp st w =
             (Some (before_last_dot p @ u ''_tecnico.html''), st,
              w\<lparr>requests := requests w @ [i],
                files := (files w)(before_last_dot p @ u ''_tecnico.html'' \<mapsto> Text_File d)\<rparr>) \<and>
           html_document (fmt_pct E) (processed_pages st) (total_pages st)
             (render_page (clean_str res) 1 1) = Inr d"
  using assms
  by (simp add: process_document_def process_technical_def process_page_content_def
      save_html_file_def write_text_file_def html_document_def clean_text_def Let_def del: u_Cons)

theorem image_mode_reports_object_progress_witness:
  "\<exists>d. process_document sample_env (u ''scan.png'') 0
         \<lparr>current_page = 2, total_pages = 3, processed_pages = [0, 1, 2]\<rparr>
         \<lparr>files = [u ''scan.png'' \<mapsto> Image_File 7], requests = []\<rparr> =
       (Some (before_last_dot (u ''scan.png'') @ u ''_tecnico.html''),
        \<lparr>current_page = 2, total_pages = 3, processed_pages = [0, 1, 2]\<rparr>,
        \<lparr>files = [u ''scan.png'' \<mapsto> Image_File 7,
                  before_last_dot (u ''scan.png'') @ u ''_tecnico.html'' \<mapsto> Text_File d],
         requests = [7]\<rparr>) \<and>
       html_document (fmt_pct sample_env) [0, 1, 2] 3 (render_page (clean_str (u ''x'')) 1 1) = Inr d"
proof -
  have "last_dot_segment (map ascii_lower (u ''scan.png'')) \<noteq> u ''pdf''"
    by (simp add: last_dot_segment_def ascii_lower_def)
  from image_mode_reports_object_progress [OF this,
      of "\<lparr>files = [u ''scan.png'' \<mapsto> Image_File 7], requests = []\<rparr>" 7 sample_env "u ''x''"
         "\<lparr>current_page = 2, total_pages = 3, processed_pages = [0, 1, 2]\<rparr>" 0]
  show ?thesis by simp
qed

theorem process_document_frame_witness:
  "\<exists>r st' w'. process_document sample_env (u ''scan.png'') 0
         \<lparr>current_page = 2, total_pages = 3, processed_pages = [0, 1, 2]\<rparr>
         \<lparr>files = [u ''scan.png'' \<mapsto> Image_File 7], requests = []\<rparr> = (r, st', w') \<and>
       files w' (u ''scan_tecnico.html'') \<noteq> None \<and>
       (if last_dot_segment (map ascii_lower (u ''scan.png'')) = u ''pdf''
        then u ''scan_tecnico.html'' = path_join (dirname (u ''scan.png''))
               (before_last_dot (basename (u ''scan.png'')) @ u ''_processado.html'') \<or>
             u ''scan_tecnico.html'' = path_join (dirname (u ''scan.png''))
               (before_last_dot (basename (u ''scan.png'')) @ u ''_progresso.json'')
        else u ''scan_tecnico.html'' = before_last_dot (u ''scan.png'') @ u ''_tecnico.html'')"
proof -
  let ?w = "\<lparr>files = [u ''scan.png'' \<mapsto> Image_File (7 :: nat)], requests = []\<rparr>"
  let ?st = "\<lparr>current_page = 2, total_pages = 3, processed_pages = [0, 1, 2 :: int]\<rparr>"
  obtain r st' w' where run: "process_document sample_env (u ''scan.png'') 0 ?st ?w = (r, st', w')"
    by (cases "process_document sample_env (u ''scan.png'') 0 ?st ?w") auto
  have w': "files w' (u ''scan_tecnico.html'') \<noteq> None \<and>
            files w' (u ''scan_tecnico.html'') \<noteq> files ?w (u ''scan_tecnico.html'')"
    using run
    by (auto simp add: process_document_def process_technical_def process_page_content_def
        save_html_file_def write_text_file_def html_document_def clean_text_def clean_str_sample before_last_dot_def
        last_dot_segment_def ascii_lower_def Let_def)
  from process_document_frame [OF run] w' run show ?thesis by blast
qed

text \<open>C13. A first run over a document in which the service answers every page completes
  it: every page is recorded as processed; a second run started in the same way then finds
  nothing left to do, sends nothing and writes nothing.\<close>

theorem first_run_completes_then_rerun_idle:
  assumes pdf: "files w pdf_path = Some (Pdf_File doc)"
    and noprog: "files w (path_join dir (base @ u ''_progresso.json'')) = None"
    and names: "pdf_path \<noteq> path_join dir (base @ u ''_processado.html'')"
      "pdf_path \<noteq> path_join dir (base @ u ''_progresso.json'')"
    and ne: "doc \<noteq> []"
    and ok: "\<forall>p \<in> {0..<int (length doc)}.
               recognize E ocr_prompt (doc ! nat p) = Inr (Response_Text (res p)) \<and>
               \<not> sublist footer_marker (clean_str (res p))"
    and wr: "\<forall>f. writable E f"
    and fmt: "\<forall>n t. no_start_of content_marker (fmt_pct E n t)"
  shows "\<exists>st1 w1 st2.
           process_pdf E pdf_path dir base 0 st w =
             (Some (path_join dir (base @ u ''_processado.html'')), st1, w1) \<and>
           set (processed_pages st1) = {0..<int (length doc)} \<and>
           process_pdf E pdf_path dir base 0 st1 w1 =
             (Some (path_join dir (base @ u ''_processado.html'')), st2, w1) \<and>
           processed_pages st2 = processed_pages st1"
proof -
  let ?n = "int (length doc)"
  let ?prog = "path_join dir (base @ u ''_progresso.json'')"
  have load: "load_progress (files w) ?prog = Inr None"
    using noprog by (simp add: load_progress_def del: u_Cons)
  have start: "start_page_of 0 ?n None = 0" by (simp add: start_page_of_def)
  have n: "0 < ?n" using ne by simp
  have "\<forall>p \<in> {start_page_of 0 ?n None..<?n}.
          p \<notin> set (case None of None \<Rightarrow> [] | Some (ps, _) \<Rightarrow> ps) \<and>
          recognize E ocr_prompt (doc ! nat p) = Inr (Response_Text (res p)) \<and>
          \<not> sublist footer_marker (clean_str (res p))"
    using ok by (simp add: start)
  moreover have c0: "0 \<le> start_page_of 0 ?n None" and c1: "start_page_of 0 ?n None < ?n"
    using n by (simp_all add: start)
  ultimately have "\<exists>st' w' d.
           process_pdf E pdf_path dir base 0 st w =
             (Some (path_join dir (base @ u ''_processado.html'')), st', w') \<and>
           processed_pages st' = [0..?n - 1] \<and> total_pages st' = ?n \<and>
           requests w' = requests w @ map (\<lambda>p. doc ! nat p) [0..?n - 1] \<and>
           files w' ?prog =
             Some (Progress_File \<lparr>pj_total_pages = Some (total_pages st'),
                                   pj_processed_pages = Some (sort (processed_pages st')),
                                   pj_last_page = Some (?n - 1),
                                   pj_progress_percentage =
                                     Some (Pct_round2 (length (processed_pages st')) (total_pages st'))\<rparr>) \<and>
           files w' (path_join dir (base @ u ''_processado.html'')) = Some (Text_File d) \<and>
           dom (extract_content d) = {0..<?n}"
    using process_pdf_fresh_run [OF pdf load c0 c1 _ wr fmt, of res st]
    by (simp only: start option.case(1) append.simps(1))
  then obtain st1 w1 where run1: "process_pdf E pdf_path dir base 0 st w =
             (Some (path_join dir (base @ u ''_processado.html'')), st1, w1)"
      and pp: "processed_pages st1 = [0..?n - 1]"
      and fr: "files w1 ?prog = Some (Progress_File \<lparr>pj_total_pages = Some (total_pages st1),
                 pj_processed_pages = Some (sort (processed_pages st1)), pj_last_page = Some (?n - 1),
                 pj_progress_percentage = Some (Pct_round2 (length (processed_pages st1)) (total_pages st1))\<rparr>)"
    by blast
  have pdf1: "files w1 pdf_path = Some (Pdf_File doc)"
    using process_pdf_frame [OF run1 names] pdf by simp
  have load1: "load_progress (files w1) ?prog = Inr (Some (sort [0..?n - 1], Some (?n - 1)))"
    using fr pp by (simp add: load_progress_def del: u_Cons)
  have start1: "start_page_of 0 ?n (Some (sort [0..?n - 1], Some (?n - 1))) = ?n"
    by (simp add: start_page_of_def)
  have "process_pdf E pdf_path dir base 0 st1 w1 =
          (Some (path_join dir (base @ u ''_processado.html'')),
           st1\<lparr>total_pages := ?n, processed_pages := sort [0..?n - 1], current_page := ?n\<rparr>, w1)"
    using process_pdf_nothing_left [OF pdf1 load1, of 0 E st1] start1 by simp
  moreover have "sort [0..?n - 1] = [0..?n - 1]" by (simp add: sorted_sort_id sorted_upto)
  moreover have "set (processed_pages st1) = {0..<?n}" using pp by auto
  ultimately show ?thesis using run1 pp by auto
qed

theorem first_run_completes_then_rerun_idle_witness:
  "\<exists>st1 w1 st2.
     process_pdf sample_env (u ''b.pdf'') [] (u ''b'') 0 init_ocr
       \<lparr>files = [u ''b.pdf'' \<mapsto> Pdf_File [1, 2 :: nat]], requests = []\<rparr> =
       (Some (path_join [] (u ''b'' @ u ''_processado.html'')), st1, w1) \<and>
     set (processed_pages st1) = {0..<2} \<and>
     process_pdf sample_env (u ''b.pdf'') [] (u ''b'') 0 st1 w1 =
       (Some (path_join [] (u ''b'' @ u ''_processado.html'')), st2, w1) \<and>
     processed_pages st2 = processed_pages st1"
  using first_run_completes_then_rerun_idle
      [of "\<lparr>files = [u ''b.pdf'' \<mapsto> Pdf_File [1, 2 :: nat]], requests = []\<rparr>" "u ''b.pdf''"
          "[1, 2]" "[]" "u ''b''" sample_env "\<lambda>_. u ''x''" init_ocr]
    clean_str_sample sample_footer_free
  by (simp add: path_join_def)

end
