(* ===== verification/Resume.thy ===== *)
theory Resume
  imports Runs
begin

text \<open>
  Resumption and the boundary inputs of \<open>_process_pdf\<close>: the processed pages only grow
  within a run, a run cut short by a service error is completed by the next run, and what a
  run does with a progress file that is not a progress record and with a PDF of no pages.
\<close>

text \<open>The resume call printed by the handler of the page loop (lines 152--155):
  \<open>f"ocr.process_document('{pdf_path}', start_page={self.current_page + 1})"\<close>.\<close>

definition resume_hint_start :: "ocr \<Rightarrow> int" where
  "resume_hint_start st = current_page st + 1"

definition resume_hint :: "path \<Rightarrow> ocr \<Rightarrow> pystr" where
  "resume_hint pdf_path st =
     u ''ocr.process_document('' @ [39] @ pdf_path @ [39] @ u '', start_page='' @
     str_int (resume_hint_start st) @ u '')''"

lemma pdf_step_processed_prefix:
  "prefix (processed_pages (obj s)) (processed_pages (obj (loop_state (pdf_step E out prog doc ex p s))))"
  by (auto simp: step_defs loop_state_def split: sum.splits prod.splits if_splits)

text \<open>C31. Within one run the processed pages never shrink: every state the page loop
  passes through, and the state it is left in by an exception, extends the list of
  processed pages it started from (section 8 of the design, monotonicity).\<close>

theorem processed_pages_never_shrink:
  "prefix (processed_pages (obj s))
     (processed_pages (obj (loop_state (pdf_loop E out prog doc ex pages s))))"
proof (induction pages arbitrary: s)
  case Nil
  then show ?case by (simp add: loop_state_def)
next
  case (Cons p pages)
  note step = pdf_step_processed_prefix [of s E out prog doc ex p]
  show ?case
  proof (cases "pdf_step E out prog doc ex p s")
    case (Inl r)
    with step show ?thesis by (simp add: loop_state_def)
  next
    case (Inr s1)
    with step Cons.IH [of s1] show ?thesis
      by (auto simp: loop_state_def intro: prefix_order.trans)
  qed
qed

text \<open>C32. The scenario of section 8 of the design: a first run in which the service
  raises at page \<open>k\<close> leaves pages \<open>0..k-1\<close> recorded with last page \<open>k-1\<close>; the next
  run, with no start page and a service that answers, resumes at page \<open>k\<close>, sends only
  pages \<open>k..n-1\<close> and ends with every page of the document recorded as processed. The
  document it writes holds pages \<open>k..n-1\<close> only.\<close>

theorem crash_then_resume_completes:
  assumes pdf: "files w pdf_path = Some (Pdf_File doc)"
    and noprog: "files w (path_join dir (base @ u ''_progresso.json'')) = None"
    and paths: "pdf_path \<noteq> path_join dir (base @ u ''_processado.html'')"
      "pdf_path \<noteq> path_join dir (base @ u ''_progresso.json'')"
    and k: "0 < k" "k < int (length doc)"
    and ok1: "\<forall>p \<in> {0..<k}. recognize E1 ocr_prompt (doc ! nat p) = Inr (Response_Text (res p)) \<and>
               \<not> sublist footer_marker (clean_str (res p))"
    and fail: "recognize E1 ocr_prompt (doc ! nat k) = Inl e"
    and ok2: "\<forall>p \<in> {k..<int (length doc)}. recognize E2 ocr_prompt (doc ! nat p) = Inr (Response_Text (res p)) \<and>
               \<not> sublist footer_marker (clean_str (res p))"
    and wr: "\<forall>f. writable E1 f" "\<forall>f. writable E2 f"
    and fmt: "\<forall>n t. no_start_of content_marker (fmt_pct E1 n t)"
      "\<forall>n t. no_start_of content_marker (fmt_pct E2 n t)"
  shows "\<exists>st1 w1 st2 w2 d.
           process_pdf E1 pdf_path dir base 0 st w =
             (Some (path_join dir (base @ u ''_processado.html'')), st1, w1) \<and>
           process_pdf E2 pdf_path dir base 0 st1 w1 =
             (Some (path_join dir (base @ u ''_processado.html'')), st2, w2) \<and>
           set (processed_pages st2) = {0..<int (length doc)} \<and>
           requests w2 = requests w1 @ map (\<lambda>p. doc ! nat p) [k..int (length doc) - 1] \<and>
           files w2 (path_join dir (base @ u ''_processado.html'')) = Some (Text_File d) \<and>
           dom (extract_content d) = {k..<int (length doc)}"
proof -
  let ?out = "path_join dir (base @ u ''_processado.html'')"
  let ?prog = "path_join dir (base @ u ''_progresso.json'')"
  let ?n = "int (length doc)"
  let ?loaded = "Some ([0..k - 1], Some (k - 1))"
  obtain st1 w1 r d1 where run1: "process_pdf E1 pdf_path dir base 0 st w = (Some ?out, st1, w1)"
      and fr: "files w1 ?prog = Some (Progress_File r)"
      and pj: "pj_processed_pages r = Some [0..k - 1]" "pj_last_page r = Some (k - 1)"
    using process_pdf_service_error_run [OF pdf noprog k ok1 fail wr(1) fmt(1)] by blast
  have pdf1: "files w1 pdf_path = Some (Pdf_File doc)"
    using process_pdf_frame [OF run1 paths] pdf by simp
  have load: "load_progress (files w1) ?prog = Inr ?loaded"
    using fr pj by (simp add: load_progress_def)
  have start: "start_page_of 0 ?n ?loaded = k"
    using k by (simp add: start_page_of_def)
  have "\<forall>p \<in> {start_page_of 0 ?n ?loaded..<?n}.
          p \<notin> set (case ?loaded of None \<Rightarrow> [] | Some (ps, _) \<Rightarrow> ps) \<and>
          recognize E2 ocr_prompt (doc ! nat p) = Inr (Response_Text (res p)) \<and>
          \<not> sublist footer_marker (clean_str (res p))"
    using ok2 by (simp add: start)
  from process_pdf_fresh_run [OF pdf1 load _ _ this wr(2) fmt(2), of st1] start k
  obtain st2 w2 d where "process_pdf E2 pdf_path dir base 0 st1 w1 = (Some ?out, st2, w2)"
      and "processed_pages st2 = [0..k - 1] @ [k..?n - 1]"
      and "requests w2 = requests w1 @ map (\<lambda>p. doc ! nat p) [k..?n - 1]"
      and "files w2 ?out = Some (Text_File d)"
      and "dom (extract_content d) = {k..<?n}"
    by (simp only: start) (use k in \<open>simp del: u_Cons\<close>, blast)
  moreover have "set ([0..k - 1] @ [k..?n - 1]) = {0..<?n}" using k by auto
  ultimately show ?thesis using run1 by auto
qed

text \<open>C33. A progress file that is not a progress record (\<open>json.load\<close> raises) aborts the
  run before any page: the result is \<open>None\<close>, no request is sent and no file is written.
  The design (section 7, class (c)) asks that format errors met on resume degrade to
  treating pages as unprocessed, never be fatal.\<close>

theorem corrupt_progress_file_aborts:
  assumes "files w pdf_path = Some (Pdf_File doc)"
    and "files w (path_join dir (base @ u ''_progresso.json'')) = Some f"
    and "\<forall>r. f \<noteq> Progress_File r"
  shows "process_pdf E pdf_path dir base sp st w =
           (None, st\<lparr>total_pages := int (length doc),
                     current_page := max 0 (min sp (int (length doc) - 1))\<rparr>, w)"
  using assms by (cases f) (simp_all add: process_pdf_def load_progress_def Let_def del: u_Cons)

text \<open>C35. A PDF with no pages: the loop has nothing to do, nothing is written, and the run
  reports success with the path of an output document that it never created.\<close>

theorem empty_pdf_reports_unwritten_output:
  assumes "files w pdf_path = Some (Pdf_File [])"
    and "files w (path_join dir (base @ u ''_progresso.json'')) = None"
  shows "process_pdf E pdf_path dir base sp st w =
           (Some (path_join dir (base @ u ''_processado.html'')),
            st\<lparr>total_pages := 0, processed_pages := [], current_page := 0\<rparr>, w)"
proof -
  have load: "load_progress (files w) (path_join dir (base @ u ''_progresso.json'')) = Inr None"
    using assms(2) by (simp add: load_progress_def)
  have "start_page_of sp 0 None = 0" by (simp add: start_page_of_def)
  with process_pdf_nothing_left [OF assms(1) load, of sp E st] show ?thesis by simp
qed

text \<open>C37. The resume call printed after an error is off by one. When the first run fails
  at page \<open>k\<close> (0-based), the handler prints \<open>start_page=k+1\<close>, a 1-based page number
  for a 0-based parameter. Following it, with a service that now answers, sends pages
  \<open>k+1..n-1\<close> only: page \<open>k\<close>, the one that failed, is never processed, and every
  other page is recorded.\<close>

theorem resume_hint_skips_failed_page:
  assumes pdf: "files w pdf_path = Some (Pdf_File doc)"
    and noprog: "files w (path_join dir (base @ u ''_progresso.json'')) = None"
    and paths: "pdf_path \<noteq> path_join dir (base @ u ''_processado.html'')"
      "pdf_path \<noteq> path_join dir (base @ u ''_progresso.json'')"
    and k: "0 < k" "k + 1 < int (length doc)"
    and ok1: "\<forall>p \<in> {0..<k}. recognize E1 ocr_prompt (doc ! nat p) = Inr (Response_Text (res p)) \<and>
               \<not> sublist footer_marker (clean_str (res p))"
    and fail: "recognize E1 ocr_prompt (doc ! nat k) = Inl e"
    and ok2: "\<forall>p \<in> {k + 1..<int (length doc)}. recognize E2 ocr_prompt (doc ! nat p) = Inr (Response_Text (res p)) \<and>
               \<not> sublist footer_marker (clean_str (res p))"
    and wr: "\<forall>f. writable E1 f" "\<forall>f. writable E2 f"
    and fmt: "\<forall>n t. no_start_of content_marker (fmt_pct E1 n t)"
      "\<forall>n t. no_start_of content_marker (fmt_pct E2 n t)"
  shows "\<exists>st1 w1 st2 w2.
           process_pdf E1 pdf_path dir base 0 st w =
             (Some (path_join dir (base @ u ''_processado.html'')), st1, w1) \<and>
           resume_hint pdf_path st1 =
             u ''ocr.process_document('' @ [39] @ pdf_path @ [39] @ u '', start_page='' @
             str_int (k + 1) @ u '')'' \<and>
           process_pdf E2 pdf_path dir base (resume_hint_start st1) st1 w1 =
             (Some (path_join dir (base @ u ''_processado.html'')), st2, w2) \<and>
           requests w2 = requests w1 @ map (\<lambda>p. doc ! nat p) [k + 1..int (length doc) - 1] \<and>
           set (processed_pages st2) = {0..<int (length doc)} - {k}"
proof -
  let ?out = "path_join dir (base @ u ''_processado.html'')"
  let ?prog = "path_join dir (base @ u ''_progresso.json'')"
  let ?n = "int (length doc)"
  let ?loaded = "Some ([0..k - 1], Some (k - 1))"
  have k': "0 < k" "k < ?n" using k by auto
  obtain st1 w1 r where run1: "process_pdf E1 pdf_path dir base 0 st w = (Some ?out, st1, w1)"
      and cp: "current_page st1 = k"
      and fr: "files w1 ?prog = Some (Progress_File r)"
      and pj: "pj_processed_pages r = Some [0..k - 1]" "pj_last_page r = Some (k - 1)"
    using process_pdf_service_error_run [OF pdf noprog k' ok1 fail wr(1) fmt(1)] by blast
  have hint: "resume_hint_start st1 = k + 1" using cp by (simp add: resume_hint_start_def)
  have pdf1: "files w1 pdf_path = Some (Pdf_File doc)"
    using process_pdf_frame [OF run1 paths] pdf by simp
  have load: "load_progress (files w1) ?prog = Inr ?loaded"
    using fr pj by (simp add: load_progress_def)
  have start: "start_page_of (k + 1) ?n ?loaded = k + 1"
    using k by (simp add: start_page_of_def)
  have "\<forall>p \<in> {start_page_of (k + 1) ?n ?loaded..<?n}.
          p \<notin> set (case ?loaded of None \<Rightarrow> [] | Some (ps, _) \<Rightarrow> ps) \<and>
          recognize E2 ocr_prompt (doc ! nat p) = Inr (Response_Text (res p)) \<and>
          \<not> sublist footer_marker (clean_str (res p))"
    using ok2 by (simp add: start)
  from process_pdf_fresh_run [OF pdf1 load _ _ this wr(2) fmt(2), of st1] start k
  obtain st2 w2 where "process_pdf E2 pdf_path dir base (k + 1) st1 w1 = (Some ?out, st2, w2)"
      and "processed_pages st2 = [0..k - 1] @ [k + 1..?n - 1]"
      and "requests w2 = requests w1 @ map (\<lambda>p. doc ! nat p) [k + 1..?n - 1]"
    by (simp only: start) (use k in \<open>simp del: u_Cons\<close>, blast)
  moreover have "set ([0..k - 1] @ [k + 1..?n - 1]) = {0..<?n} - {k}" using k by auto
  moreover have "resume_hint pdf_path st1 =
      u ''ocr.process_document('' @ [39] @ pdf_path @ [39] @ u '', start_page='' @ str_int (k + 1) @ u '')''"
    by (simp add: resume_hint_def hint del: u_Cons)
  ultimately show ?thesis using run1 hint by auto
qed

theorem resume_hint_skips_failed_page_witness:
  "\<exists>st1 w1 st2 w2.
     process_pdf \<lparr>recognize = \<lambda>_ img. if img = 2 then Inl Service_Error else Inr (Response_Text (u ''x'')),
                  writable = \<lambda>_. True, fmt_pct = \<lambda>n t. str_nat n\<rparr>
       (u ''b.pdf'') [] (u ''b'') 0 init_ocr
       \<lparr>files = [u ''b.pdf'' \<mapsto> Pdf_File [1, 2, 3 :: nat]], requests = []\<rparr> =
       (Some (path_join [] (u ''b'' @ u ''_processado.html'')), st1, w1) \<and>
     resume_hint (u ''b.pdf'') st1 =
       u ''ocr.process_document('' @ [39] @ u ''b.pdf'' @ [39] @ u '', start_page='' @ str_int (1 + 1) @ u '')'' \<and>
     process_pdf sample_env (u ''b.pdf'') [] (u ''b'') (resume_hint_start st1) st1 w1 =
       (Some (path_join [] (u ''b'' @ u ''_processado.html'')), st2, w2) \<and>
     requests w2 = requests w1 @ map (\<lambda>p. [1, 2, 3] ! nat p) [1 + 1..3 - 1] \<and>
     set (processed_pages st2) = {0..<3} - {1}"
proof -
  note c = clean_str_sample and f = sample_footer_free
  have one: "{0..<(1::int)} = {0}" and two: "{2..<(3::int)} = {2}" by auto
  show ?thesis
    using resume_hint_skips_failed_page
      [of "\<lparr>files = [u ''b.pdf'' \<mapsto> Pdf_File [1, 2, 3 :: nat]], requests = []\<rparr>" "u ''b.pdf''"
          "[1, 2, 3]" "[]" "u ''b''" 1
          "\<lparr>recognize = \<lambda>_ img. if img = 2 then Inl Service_Error else Inr (Response_Text (u ''x'')),
             writable = \<lambda>_. True, fmt_pct = \<lambda>n t. str_nat n\<rparr>" "\<lambda>_. u ''x''" Service_Error sample_env init_ocr]
    using c f by (simp add: path_join_def one two)
qed

text \<open>C34. An input that cannot be opened as a document of its kind (no file, or a file
  that is neither a PDF nor an image) is reported as \<open>None\<close> and creates no partial state:
  the object and every file are left as they were, and nothing is sent (section 7 of the
  design, class (a)). Both \<open>fitz.open\<close> and \<open>Image.open\<close> raise before any field is set.\<close>

theorem unreadable_input_no_partial_state:
  assumes "\<forall>doc. files w p \<noteq> Some (Pdf_File doc)" and "\<forall>img. files w p \<noteq> Some (Image_File img)"
  shows "process_document E p sp st w = (None, st, w)"
  using assms
  by (auto simp: process_document_def process_pdf_def Let_def split: option.splits fs_entry.splits
      simp del: u_Cons)

theorem crash_then_resume_completes_witness:
  "\<exists>st1 w1 st2 w2 d.
     process_pdf \<lparr>recognize = \<lambda>_ img. if img = 2 then Inl Service_Error else Inr (Response_Text (u ''x'')),
                  writable = \<lambda>_. True, fmt_pct = \<lambda>n t. str_nat n\<rparr>
       (u ''b.pdf'') [] (u ''b'') 0 init_ocr
       \<lparr>files = [u ''b.pdf'' \<mapsto> Pdf_File [1, 2 :: nat]], requests = []\<rparr> =
       (Some (path_join [] (u ''b'' @ u ''_processado.html'')), st1, w1) \<and>
     process_pdf sample_env (u ''b.pdf'') [] (u ''b'') 0 st1 w1 =
       (Some (path_join [] (u ''b'' @ u ''_processado.html'')), st2, w2) \<and>
     set (processed_pages st2) = {0..<2} \<and>
     requests w2 = requests w1 @ map (\<lambda>p. [1, 2] ! nat p) [1..2 - 1] \<and>
     files w2 (path_join [] (u ''b'' @ u ''_processado.html'')) = Some (Text_File d) \<and>
     dom (extract_content d) = {1..<2}"
proof -
  note c = clean_str_sample and f = sample_footer_free
  have one: "{0..<(1::int)} = {0}" and two: "{1..<(2::int)} = {1}" by auto
  show ?thesis
    using crash_then_resume_completes
      [of "\<lparr>files = [u ''b.pdf'' \<mapsto> Pdf_File [1, 2 :: nat]], requests = []\<rparr>" "u ''b.pdf''"
          "[1, 2]" "[]" "u ''b''" 1
          "\<lparr>recognize = \<lambda>_ img. if img = 2 then Inl Service_Error else Inr (Response_Text (u ''x'')),
             writable = \<lambda>_. True, fmt_pct = \<lambda>n t. str_nat n\<rparr>" "\<lambda>_. u ''x''" Service_Error sample_env init_ocr]
    using c f by (simp add: path_join_def one two)
qed

theorem corrupt_progress_file_aborts_witness:
  "process_pdf sample_env (u ''b.pdf'') [] (u ''b'') 0 init_ocr
     \<lparr>files = [u ''b.pdf'' \<mapsto> Pdf_File [1, 2], u ''b_progresso.json'' \<mapsto> Text_File (u ''{'')],
      requests = []\<rparr> =
   (None, init_ocr\<lparr>total_pages := 2, current_page := 0\<rparr>,
    \<lparr>files = [u ''b.pdf'' \<mapsto> Pdf_File [1, 2], u ''b_progresso.json'' \<mapsto> Text_File (u ''{'')],
     requests = []\<rparr>)"
  using corrupt_progress_file_aborts
    [of "\<lparr>files = [u ''b.pdf'' \<mapsto> Pdf_File [1, 2], u ''b_progresso.json'' \<mapsto> Text_File (u ''{'')],
          requests = []\<rparr>" "u ''b.pdf''" "[1, 2]" "[]" "u ''b''" "Text_File (u ''{'')" sample_env 0 init_ocr]
  by (simp add: path_join_def)

theorem empty_pdf_reports_unwritten_output_witness:
  "process_pdf sample_env (u ''b.pdf'') [] (u ''b'') 3 init_ocr
     \<lparr>files = [u ''b.pdf'' \<mapsto> Pdf_File []], requests = []\<rparr> =
   (Some (u ''b_processado.html''), init_ocr,
    \<lparr>files = [u ''b.pdf'' \<mapsto> Pdf_File []], requests = []\<rparr>) \<and>
   ([u ''b.pdf'' \<mapsto> Pdf_File []] :: nat files) (u ''b_processado.html'') = None"
  using empty_pdf_reports_unwritten_output
    [of "\<lparr>files = [u ''b.pdf'' \<mapsto> Pdf_File []], requests = []\<rparr> :: nat world" "u ''b.pdf''" "[]" "u ''b''"
        sample_env 3 init_ocr]
  by (simp add: path_join_def init_ocr_def)

theorem unreadable_input_no_partial_state_witness:
  "process_document sample_env (u ''a.pdf'') 0 init_ocr
     \<lparr>files = [u ''a.pdf'' \<mapsto> Text_File (u ''%PDF'')], requests = []\<rparr> =
   (None, init_ocr, \<lparr>files = [u ''a.pdf'' \<mapsto> Text_File (u ''%PDF'')], requests = []\<rparr>)"
  by (rule unreadable_input_no_partial_state) simp_all

end
