(* ===== verification/Script.thy ===== *)
theory Script
  imports Pipeline
begin

text \<open>
  The constructor \<open>GeminiOCR.__init__\<close> (lines 9--21) and the module-level script
  (lines 638--642). The constructor configures the \<open>google.generativeai\<close> library with the
  key and creates the model object: the client record holds the key the library is
  configured with and the model's name, and the object's progress fields start as
  \<open>init_ocr\<close>. The model itself is the service \<open>recognize\<close> of \<open>env\<close>. The script builds
  an object with a placeholder key and calls \<open>process_document\<close> once on a placeholder path.
\<close>

record gemini_client =
  api_key :: pystr
  model_name :: pystr

definition gemini_init :: "pystr \<Rightarrow> gemini_client \<times> ocr" where
  "gemini_init key = (\<lparr>api_key = key, model_name = u ''gemini-1.5-flash''\<rparr>, init_ocr)"

definition script_path :: path where
  "script_path = u ''caminho_arquivo.pdf ou png''"

definition module_script :: "'img env \<Rightarrow> 'img world \<Rightarrow> gemini_client \<times> path option \<times> ocr \<times> 'img world" where
  "module_script E w =
     (let (client, st) = gemini_init (u ''suachave'')
      in (client, process_document E script_path 0 st w))"

lemma script_path_not_pdf: "last_dot_segment (map ascii_lower script_path) \<noteq> u ''pdf''"
  by (simp add: script_path_def last_dot_segment_def ascii_lower_def)

text \<open>C36. The module script never produces a document. Its path ends in
  \<open>.pdf ou png\<close>, so \<open>process_document\<close> takes the image branch, whatever the file is: when
  the path names no image, \<open>Image.open\<close> raises; when it does, the page is sent to the
  service and \<open>_save_html_file\<close> divides by \<open>total_pages = 0\<close> of the fresh object. In
  both cases the result is \<open>None\<close> and no file is written.\<close>

theorem module_script_returns_none:
  "module_script E w =
     (\<lparr>api_key = u ''suachave'', model_name = u ''gemini-1.5-flash''\<rparr>, None, init_ocr,
      w\<lparr>requests := requests w @ (case files w script_path of Some (Image_File img) \<Rightarrow> [img] | _ \<Rightarrow> [])\<rparr>)"
proof (cases "files w script_path")
  case None
  then show ?thesis
    by (simp add: module_script_def gemini_init_def process_document_def script_path_not_pdf del: u_Cons)
next
  case (Some f)
  then show ?thesis
    by (cases f) (auto simp: module_script_def gemini_init_def process_document_def script_path_not_pdf
        process_technical_def process_page_content_def save_html_file_def html_document_def
        init_ocr_def Let_def split: sum.splits simp del: u_Cons)
qed

end
