(* ===== verification/Viewer.thy ===== *)
theory Viewer
  imports Complex_Main Renderer
begin

text \<open>
  The behaviour of the viewer script that \<open>_save_html_file\<close> embeds in every document
  (lines 440--521 of \<open>src/main.py\<close>; the text itself is in theory \<open>Template\<close>). The
  scroll to \<open>window.location.hash\<close> on load (lines 471--477) is browser navigation and
  is not modelled. The
  page's state is a record: the classes of \<open>document.body\<close> (a \<open>DOMTokenList\<close>, an ordered
  set), the script's globals \<open>currentFontSize\<close> and \<open>currentLineHeight\<close>, the inline style
  properties of \<open>document.documentElement\<close>, the number of MathJax re-typesets, and the
  links of the \<open>.index-links\<close> element as (href, text) pairs. JavaScript numbers are
  modelled as reals: the bounds below use only \<open>Math.min\<close>, \<open>Math.max\<close> and products with
  positive constants, which rounding to doubles keeps monotone.
\<close>

datatype css_value = Css_Px real | Css_Num real

record viewer =
  body_classes :: "pystr list"
  font_size :: real
  line_height :: real
  root_style :: "pystr \<rightharpoonup> css_value"
  mathjax_defined :: bool
  typesets :: nat
  has_index :: bool
  index_links :: "(pystr \<times> pystr) list"

text \<open>The six buttons of the accessibility controls (lines 440--447).\<close>

datatype control =
  Toggle_Dark_Mode | Toggle_High_Contrast | Increase_Font_Size | Decrease_Font_Size
| Increase_Line_Height | Decrease_Line_Height

text \<open>\<open>classList.toggle\<close> and \<open>classList.remove\<close>.\<close>

definition class_toggle :: "pystr \<Rightarrow> pystr list \<Rightarrow> pystr list" where
  "class_toggle c cs = (if c \<in> set cs then removeAll c cs else cs @ [c])"

definition class_remove :: "pystr \<Rightarrow> pystr list \<Rightarrow> pystr list" where
  "class_remove c cs = removeAll c cs"

text \<open>\<open>refreshMathJax\<close> (lines 516--521).\<close>

definition refresh_mathjax :: "viewer \<Rightarrow> viewer" where
  "refresh_mathjax v = (if mathjax_defined v then v\<lparr>typesets := typesets v + 1\<rparr> else v)"

text \<open>\<open>toggleDarkMode\<close> and \<open>toggleHighContrast\<close> (lines 480--490).\<close>

definition toggle_dark_mode :: "viewer \<Rightarrow> viewer" where
  "toggle_dark_mode v =
     refresh_mathjax (v\<lparr>body_classes :=
       class_remove (u ''high-contrast'') (class_toggle (u ''dark-mode'') (body_classes v))\<rparr>)"

definition toggle_high_contrast :: "viewer \<Rightarrow> viewer" where
  "toggle_high_contrast v =
     refresh_mathjax (v\<lparr>body_classes :=
       class_remove (u ''dark-mode'') (class_toggle (u ''high-contrast'') (body_classes v))\<rparr>)"

text \<open>\<open>increaseFontSize\<close> and \<open>decreaseFontSize\<close> (lines 492--503).\<close>

definition increase_font_size :: "viewer \<Rightarrow> viewer" where
  "increase_font_size v =
     (let s = min (font_size v * 1.1) 32
      in refresh_mathjax (v\<lparr>font_size := s, root_style := (root_style v)(u ''--font-size'' \<mapsto> Css_Px s)\<rparr>))"

definition decrease_font_size :: "viewer \<Rightarrow> viewer" where
  "decrease_font_size v =
     (let s = max (font_size v * 0.9) 12
      in refresh_mathjax (v\<lparr>font_size := s, root_style := (root_style v)(u ''--font-size'' \<mapsto> Css_Px s)\<rparr>))"

text \<open>\<open>increaseLineHeight\<close> and \<open>decreaseLineHeight\<close> (lines 505--514): no MathJax refresh.\<close>

definition increase_line_height :: "viewer \<Rightarrow> viewer" where
  "increase_line_height v =
     (let h = min (line_height v * 1.1) 2.5
      in v\<lparr>line_height := h, root_style := (root_style v)(u ''--line-height'' \<mapsto> Css_Num h)\<rparr>)"

definition decrease_line_height :: "viewer \<Rightarrow> viewer" where
  "decrease_line_height v =
     (let h = max (line_height v * 0.9) 1.2
      in v\<lparr>line_height := h, root_style := (root_style v)(u ''--line-height'' \<mapsto> Css_Num h)\<rparr>)"

text \<open>The \<open>onclick\<close> handlers of the buttons.\<close>

fun press :: "control \<Rightarrow> viewer \<Rightarrow> viewer" where
  "press Toggle_Dark_Mode v = toggle_dark_mode v"
| "press Toggle_High_Contrast v = toggle_high_contrast v"
| "press Increase_Font_Size v = increase_font_size v"
| "press Decrease_Font_Size v = decrease_font_size v"
| "press Increase_Line_Height v = increase_line_height v"
| "press Decrease_Line_Height v = decrease_line_height v"

text \<open>The state after loading: \<open><body>\<close> has no class (line 420), the globals are set by
  \<open>let currentFontSize = 16\<close> and \<open>let currentLineHeight = 1.6\<close> (lines 492, 505), and no
  inline style is set yet.\<close>

definition viewer_init :: "bool \<Rightarrow> bool \<Rightarrow> (pystr \<times> pystr) list \<Rightarrow> viewer" where
  "viewer_init mj idx links =
     \<lparr>body_classes = [], font_size = 16, line_height = 1.6, root_style = Map.empty,
      mathjax_defined = mj, typesets = 0, has_index = idx, index_links = links\<rparr>"

text \<open>JavaScript's \<open>String.prototype.replace\<close> with a string pattern: the first
  occurrence only.\<close>

definition js_replace_first :: "pystr \<Rightarrow> pystr \<Rightarrow> pystr \<Rightarrow> pystr" where
  "js_replace_first pat rep s =
     (case split_first pat s of None \<Rightarrow> s | Some (pre, post) \<Rightarrow> pre @ rep @ post)"

text \<open>One iteration of \<open>pageHeaders.forEach\<close> in the \<open>DOMContentLoaded\<close> handler (lines
  454--469): from the header's \<open>id\<close> the page number and the link's target; a link is
  appended to \<open>.index-links\<close> when no \<open>.index-link\<close> has that target and the element
  exists.\<close>

definition header_href :: "pystr \<Rightarrow> pystr" where
  "header_href hid = u ''#'' @ u ''page-'' @ js_replace_first (u ''page-'') [] hid"

definition add_page_link :: "viewer \<Rightarrow> pystr \<Rightarrow> viewer" where
  "add_page_link v hid =
     (let pageNum = js_replace_first (u ''page-'') [] hid;
          pageId = u ''page-'' @ pageNum
      in if u ''#'' @ pageId \<in> set (map fst (index_links v)) then v
         else if has_index v
         then v\<lparr>index_links := index_links v @ [(u ''#'' @ pageId, u ''P'' @ [225] @ u ''gina '' @ pageNum)]\<rparr>
         else v)"

definition page_links_loaded :: "pystr list \<Rightarrow> viewer \<Rightarrow> viewer" where
  "page_links_loaded header_ids v = fold (\<lambda>hid v. add_page_link v hid) header_ids v"

text \<open>What the page keeps: at most one of the two display modes, the sizes inside the
  limits of the script, and the inline style in agreement with the globals.\<close>

definition modes_ok :: "viewer \<Rightarrow> bool" where
  "modes_ok v \<longleftrightarrow> \<not> (u ''dark-mode'' \<in> set (body_classes v) \<and> u ''high-contrast'' \<in> set (body_classes v))"

definition sizes_ok :: "viewer \<Rightarrow> bool" where
  "sizes_ok v \<longleftrightarrow>
     12 \<le> font_size v \<and> font_size v \<le> 32 \<and> 1.2 \<le> line_height v \<and> line_height v \<le> 2.5 \<and>
     root_style v (u ''--font-size'') \<in> {None, Some (Css_Px (font_size v))} \<and>
     root_style v (u ''--line-height'') \<in> {None, Some (Css_Num (line_height v))}"

lemma header_href_add: "add_page_link v hid =
     (if header_href hid \<in> set (map fst (index_links v)) then v
      else if has_index v
      then v\<lparr>index_links := index_links v @ [(header_href hid,
                u ''P'' @ [225] @ u ''gina '' @ js_replace_first (u ''page-'') [] hid)]\<rparr>
      else v)"
  by (simp add: add_page_link_def header_href_def Let_def del: u_Cons)

lemma press_modes_ok: "modes_ok v \<Longrightarrow> modes_ok (press c v)"
  by (cases c) (auto simp: modes_ok_def toggle_dark_mode_def toggle_high_contrast_def
      class_toggle_def class_remove_def refresh_mathjax_def increase_font_size_def
      decrease_font_size_def increase_line_height_def decrease_line_height_def Let_def
      simp del: u_Cons)

lemma press_sizes_ok: "sizes_ok v \<Longrightarrow> sizes_ok (press c v)"
  by (cases c) (auto simp: sizes_ok_def toggle_dark_mode_def toggle_high_contrast_def
      refresh_mathjax_def increase_font_size_def decrease_font_size_def
      increase_line_height_def decrease_line_height_def Let_def)

lemma js_replace_first_prefix: "js_replace_first (u ''page-'') [] (u ''page-'' @ x) = x"
proof -
  have "\<not> sublist (u ''page-'') ([] @ butlast (u ''page-''))"
    by (auto dest: sublist_length_le)
  then have "split_first (u ''page-'') ([] @ u ''page-'' @ x) = Some ([], x)"
    by (intro split_first_append) simp_all
  then show ?thesis by (simp add: js_replace_first_def del: u_Cons)
qed

lemma page_links_loaded_Cons:
  "page_links_loaded (h # hs) v = page_links_loaded hs (add_page_link v h)"
  by (simp add: page_links_loaded_def)

lemma page_links_loaded_present:
  "set (map header_href hs) \<subseteq> set (map fst (index_links v)) \<Longrightarrow> page_links_loaded hs v = v"
  by (induction hs) (simp_all add: page_links_loaded_Cons header_href_add page_links_loaded_def[symmetric],
      simp add: page_links_loaded_def)

text \<open>C26. The two display modes exclude each other: from a page with at most one of
  \<open>dark-mode\<close> and \<open>high-contrast\<close> on \<open>body\<close>, any sequence of button presses keeps at
  most one, because each toggle removes the other class.\<close>

theorem viewer_modes_exclusive:
  "modes_ok v \<Longrightarrow> modes_ok (fold press cs v)"
  by (induction cs arbitrary: v) (simp_all add: press_modes_ok)

text \<open>C24. The font size stays within 12px and 32px and the line height within 1.2 and
  2.5 for any sequence of presses from the initial page, and the inline style properties
  always hold the script's current values.\<close>

theorem viewer_sizes_bounded:
  "sizes_ok v \<Longrightarrow> sizes_ok (fold press cs v)"
  by (induction cs arbitrary: v) (simp_all add: press_sizes_ok)

text \<open>C27. Loading the page completes the index: for an index without repeated targets,
  the \<open>DOMContentLoaded\<close> handler keeps the existing links, appends a link for each page
  header that has none, repeats no target, and a second run of it changes nothing.\<close>

theorem page_links_loaded_complete:
  assumes "distinct (map fst (index_links v))" and "has_index v"
  shows "prefix (index_links v) (index_links (page_links_loaded hs v)) \<and>
         distinct (map fst (index_links (page_links_loaded hs v))) \<and>
         set (map header_href hs) \<subseteq> set (map fst (index_links (page_links_loaded hs v))) \<and>
         page_links_loaded hs (page_links_loaded hs v) = page_links_loaded hs v"
proof -
  have "prefix (index_links v) (index_links (page_links_loaded hs v)) \<and>
        distinct (map fst (index_links (page_links_loaded hs v))) \<and>
        set (map header_href hs) \<subseteq> set (map fst (index_links (page_links_loaded hs v))) \<and>
        has_index (page_links_loaded hs v)"
    using assms
  proof (induction hs arbitrary: v)
    case Nil
    then show ?case by (simp add: page_links_loaded_def)
  next
    case (Cons h hs)
    let ?v1 = "add_page_link v h"
    have v1: "prefix (index_links v) (index_links ?v1)" "distinct (map fst (index_links ?v1))"
      "header_href h \<in> set (map fst (index_links ?v1))" "has_index ?v1"
      using Cons.prems by (auto simp: header_href_add)
    with Cons.IH [of ?v1] show ?case
      by (auto simp: page_links_loaded_Cons intro: prefix_order.trans dest: set_mono_prefix)
  qed
  moreover from this have "page_links_loaded hs (page_links_loaded hs v) = page_links_loaded hs v"
    by (intro page_links_loaded_present) blast
  ultimately show ?thesis by blast
qed

lemma append_eq_sep:
  "x \<notin> set a \<Longrightarrow> x \<notin> set b \<Longrightarrow> a @ x # r = b @ x # r' \<Longrightarrow> a = b"
proof (induction a arbitrary: b)
  case Nil
  then show ?case by (cases b) auto
next
  case (Cons y a)
  then show ?case by (cases b) auto
qed

lemma render_page_header_id:
  assumes \<open>render_page c n t = [10] @ u ''        <div class="page-header" id="'' @ hid @ u ''">'' @ rest\<close>
    and "34 \<notin> set hid"
  shows "hid = u ''page-'' @ str_int n"
proof -
  let ?P = \<open>[10] @ u ''        <div class="page-header" id="''\<close>
  obtain r2 where r: "render_page c n t = ?P @ (u ''page-'' @ str_int n) @ 34 # r2"
    by (simp add: render_page_def)
  have "34 \<notin> set (u ''page-'' @ str_int n)"
    using set_str_int [of n] by (auto simp: is_ascii_digit_def)
  moreover have "?P @ hid @ 34 # 62 # rest = ?P @ (u ''page-'' @ str_int n) @ 34 # r2"
    using assms(1) r by simp
  ultimately show ?thesis using assms(2) append_eq_sep by (metis same_append_eq)
qed

lemma index_link_target:
  \<open>index_link (n - 1) = u ''<a href="'' @ (u ''#'' @ u ''page-'' @ str_int n) @ u ''" class="index-link">'' @
     u ''P'' @ [225] @ u ''gina '' @ str_int n @ u ''</a>'' @ [10]\<close>
  by (simp add: index_link_def Let_def)

text \<open>C16. The viewer and the writer agree on the index. For a page the program
  rendered, the script reads the header's \<open>id\<close> (line 572) and computes the link target
  (lines 455--459); when the page was processed, the index \<open>_generate_index_links\<close> wrote
  already holds an \<open><a>\<close> of class \<open>index-link\<close> with that target, so the script's
  \<open>querySelector\<close> finds it and no link is added.\<close>

theorem viewer_finds_saved_index_link:
  assumes \<open>\<exists>rest. render_page c n t = [10] @ u ''        <div class="page-header" id="'' @ hid @ u ''">'' @ rest\<close>
    and "34 \<notin> set hid"
    and "n - 1 \<in> set ps"
  shows \<open>sublist (u ''<a href="'' @ header_href hid @ u ''" class="index-link">'') (generate_index_links ps)\<close>
proof -
  from assms(1) obtain rest where
    \<open>render_page c n t = [10] @ u ''        <div class="page-header" id="'' @ hid @ u ''">'' @ rest\<close>
    by blast
  from render_page_header_id [OF this assms(2)]
  have h: "header_href hid = u ''#'' @ u ''page-'' @ str_int n"
    by (simp add: header_href_def js_replace_first_prefix del: u_Cons)
  from assms(3) obtain xs ys where "sort ps = xs @ (n - 1) # ys"
    by (metis set_sort split_list)
  then have "generate_index_links ps = concat (map index_link xs) @ index_link (n - 1) @ concat (map index_link ys)"
    by (simp add: generate_index_links_def)
  then show ?thesis
    unfolding h index_link_target sublist_def by (metis append.assoc)
qed

theorem viewer_modes_exclusive_witness:
  "modes_ok (viewer_init True True []) \<and>
   modes_ok (fold press [Toggle_Dark_Mode, Toggle_High_Contrast, Toggle_High_Contrast] (viewer_init True True []))"
proof -
  have h: "modes_ok (viewer_init True True [])" by (simp add: modes_ok_def viewer_init_def)
  show ?thesis by (rule conjI [OF h viewer_modes_exclusive [OF h]])
qed

theorem viewer_sizes_bounded_witness:
  "sizes_ok (viewer_init True True []) \<and>
   sizes_ok (fold press [Increase_Font_Size, Decrease_Line_Height] (viewer_init True True []))"
proof -
  have h: "sizes_ok (viewer_init True True [])" by (simp add: sizes_ok_def viewer_init_def)
  show ?thesis by (rule conjI [OF h viewer_sizes_bounded [OF h]])
qed

theorem page_links_loaded_complete_witness:
  "distinct (map fst (index_links (viewer_init True True [(u ''#page-1'', u ''P'')]))) \<and>
   has_index (viewer_init True True [(u ''#page-1'', u ''P'')]) \<and>
   set (map header_href [u ''page-1'', u ''page-2''])
     \<subseteq> set (map fst (index_links (page_links_loaded [u ''page-1'', u ''page-2'']
                                   (viewer_init True True [(u ''#page-1'', u ''P'')]))))"
  using page_links_loaded_complete [of "viewer_init True True [(u ''#page-1'', u ''P'')]" "[u ''page-1'', u ''page-2'']"]
  by (simp add: viewer_init_def)

theorem viewer_finds_saved_index_link_witness:
  \<open>(\<exists>rest. render_page (u ''x'') 2 2 = [10] @ u ''        <div class="page-header" id="'' @ u ''page-2'' @ u ''">'' @ rest) \<and>
   34 \<notin> set (u ''page-2'') \<and> 2 - 1 \<in> set [0, (1::int)] \<and>
   sublist (u ''<a href="'' @ header_href (u ''page-2'') @ u ''" class="index-link">'') (generate_index_links [0, 1])\<close>
proof -
  have r: \<open>\<exists>rest. render_page (u ''x'') 2 2 = [10] @ u ''        <div class="page-header" id="'' @ u ''page-2'' @ u ''">'' @ rest\<close>
    by (simp add: render_page_def str_int_def str_nat.simps)
  have q: "34 \<notin> set (u ''page-2'')" by simp
  have p: "2 - 1 \<in> set [0, (1::int)]" by simp
  from r q p viewer_finds_saved_index_link [OF r q p] show ?thesis by blast
qed

end
