(* ===== verification/Spec2Isabelle.thy ===== *)
theory Spec2Isabelle
  imports Machine Resume Script Viewer
begin

text \<open>
  A verification library for \<open>src/main.py\<close> of the OCR pipeline (class \<open>GeminiOCR\<close>):
  a PDF or an image goes page by page to an external recognition service, the answer is
  cleaned, wrapped in an HTML fragment and accumulated into one HTML file; a JSON
  progress file records the processed pages so that a later run can resume, and the
  fragments of the old HTML file are read back so that processed pages are not sent again.

  \<^bold>\<open>Parts of the program and where they are modelled.\<close>
  \<^item> Python strings, the string primitives the code calls and its exceptions: theory
    \<open>Prelude\<close>. A \<open>str\<close> is a list of code points (\<open>pystr = nat list\<close>); \<open>str.replace\<close> is
    \<open>py_replace\<close>, the first match of a lazy \<open>.*?\<close> before a literal is \<open>split_first\<close>,
    \<open>str(n)\<close> is \<open>str_nat\<close>/\<open>str_int\<close>; the exceptions the code raises or meets are the
    constructors of \<open>error\<close>.
  \<^item> Text Normalizer, \<open>_clean_text\<close> (lines 582--624): theory \<open>Normalizer\<close>. The table is
    \<open>clean_replacements\<close> in dict order, applied by \<open>apply_replacements\<close>; the three
    \<open>re.sub\<close> passes are \<open>strip_unicode_escapes\<close>, \<open>collapse_whitespace\<close> and
    \<open>restore_newlines\<close>, each a left-to-right scan as \<open>re.sub\<close> performs it; a response
    without text is the \<open>No_Text_Error\<close> branch of \<open>clean_text\<close>.
  \<^item> Page Renderer: theories \<open>Template\<close> (the static text of the f-string of
    \<open>_save_html_file\<close>, lines 208--525, verbatim, one constant per block of lines) and
    \<open>Renderer\<close> (\<open>render_page\<close>, the fragment of lines 572--578; \<open>generate_index_links\<close>,
    lines 530--538; \<open>html_document\<close>, the document of \<open>_save_html_file\<close>).
  \<^item> Content Merger, \<open>_extract_existing_content\<close> (lines 171--190): theory \<open>Extractor\<close>.
    \<open>re.findall\<close> of the pattern of line 178 is the scan \<open>find_all\<close> (\<open>match_at\<close> tries the
    pattern at one position); \<open>extract_content\<close> builds the dict.
  \<^item> Progress Store: theory \<open>Store\<close>. The object's fields are the record \<open>ocr\<close>; the
    JSON record is \<open>progress_json\<close>, built by \<open>progress_record\<close> and written by
    \<open>update_progress_file\<close> (lines 192--204); lines 59--75 are \<open>load_progress\<close> and
    \<open>start_page_of\<close>; the path functions of \<open>os.path\<close> and \<open>str\<close> used for the file names
    are \<open>basename\<close>, \<open>dirname\<close>, \<open>path_join\<close>, \<open>last_dot_segment\<close>, \<open>before_last_dot\<close>.
  \<^item> Recognition Client and Document Pipeline: theory \<open>Pipeline\<close>. A file system is a map
    from paths to entries (\<open>'img files\<close>); the world adds the log of the images sent to
    the service. The collaborators are the record \<open>'img env\<close>: the service
    (\<open>recognize\<close>, which answers or raises), whether a file can be opened for writing, and
    CPython's text of the rounded percentage. \<open>process_page_content\<close> is lines 540--580,
    \<open>save_html_file\<close> lines 206--528 (its write, lines 527--528, is \<open>write_text_file\<close> of
    \<open>Store\<close>), \<open>pdf_step\<close> and \<open>process_new_page\<close> one iteration of
    the loop of lines 91--133, \<open>pdf_loop\<close> the loop, \<open>process_pdf\<close> the whole of
    \<open>_process_pdf\<close> with its handlers, \<open>process_technical\<close> and \<open>process_document\<close> the
    image mode and the dispatch. Every exception is a value: a step returns
    \<open>Inl (e, s)\<close> with the state at the point it was raised.

  \<^item> Runs of the pipeline: theory \<open>Runs\<close> (whole runs of \<open>process_pdf\<close> and
    \<open>process_document\<close>: invariants, frame, request accounting) and theory \<open>Machine\<close>
    (the loop as a transition system \<open>loop_reach\<close>, and the design's PROCESSING machine
    as an abstract specification \<open>spec_page\<close>/\<open>spec_pages\<close> over the record \<open>aprog\<close>,
    with the simulation relation \<open>sim\<close>), and theory \<open>Resume\<close> (runs composed one after
    the other, the boundary inputs of \<open>_process_pdf\<close>, and the resume call its handler
    prints, \<open>resume_hint\<close>, lines 152--155).
  \<^item> Constructor and module script: theory \<open>Script\<close>. \<open>GeminiOCR.__init__\<close> (lines 9--21)
    is \<open>gemini_init\<close>: the client record \<open>gemini_client\<close> holds the key the library is
    configured with and the model's name, and the progress fields start as \<open>init_ocr\<close>;
    the model itself is the parameter \<open>recognize\<close>. The script (lines 638--642) is
    \<open>module_script\<close>.
  \<^item> Viewer script, the JavaScript every document carries (lines 440--521): theory
    \<open>Viewer\<close>. The page state is the record \<open>viewer\<close> (classes of \<open>body\<close>, the globals
    \<open>currentFontSize\<close> and \<open>currentLineHeight\<close>, the inline style, MathJax re-typesets, the
    index links); each button is a constructor of \<open>control\<close> and \<open>press\<close> runs its
    handler; \<open>page_links_loaded\<close> is the \<open>DOMContentLoaded\<close> completion of the index.
    JavaScript numbers are reals: the bounds proved use only \<open>Math.min\<close>, \<open>Math.max\<close> and
    products with positive constants, which rounding to doubles keeps monotone.

  \<^bold>\<open>What the lemmas show.\<close>
  \<^item> Document Pipeline (C1, C2, C4, C5; theory \<open>Pipeline\<close>): a resumed run overwrites the
    document with the pages of the new run only, while the progress file lists them all;
    a page skipped because it was read back disappears from the document; a service error
    after \<open>k\<close> pages keeps exactly those pages in both files; image mode fails on a fresh
    object. Behind them: \<open>pdf_step_Inr_cases\<close>, \<open>pdf_loop_fresh\<close> (a loop over recognised
    pages keeps both files in agreement with the state, \<open>files_synced\<close>),
    \<open>pdf_loop_scan\<close>, and the general \<open>process_pdf_fresh_run\<close> and
    \<open>process_pdf_service_error_run\<close>.
  \<^item> Runs (C3, C6, C9, C11--C15, C17; theory \<open>Runs\<close>): a failed progress write still yields
    the HTML and the output path; image mode reports the object's earlier PDF progress;
    the entry at the progress path stays absent or a well-formed record
    (\<open>progress_file_ok\<close>, preserved by every step through \<open>run_inv\<close>); the service
    receives exactly the pages not reused, in order; each mode of \<open>process_document\<close>
    writes only its own files; a first complete run makes the next run idle; an explicit
    start page; the HTML round trip through the file system.
  \<^item> Machine (C8, C10; theory \<open>Machine\<close>): every reachable loop state has its progress
    file in sync (rule induction on \<open>loop_reach\<close>), and the loop refines the abstract
    PROCESSING machine (a simulation proved step by step, \<open>pdf_step_sim\<close>).
  \<^item> Progress Store (C7, C23): an explicit start at page 0 overridden, distinct file
    names; also, as lemmas, resume after the last page (\<open>start_page_resume\<close>) and the
    clamped start page in range (\<open>start_page_fresh_range\<close>).
  \<^item> Content Merger and Renderer (C18--C22): what line 184 stores for a saved page reads
    back as nothing, the round trip of one fragment, truncation of any text at its first
    footer marker, the division by zero of \<open>_save_html_file\<close>, order-independence of the
    index.
  \<^item> Normalizer (C25, C28--C30): the error branch, that \<open>_clean_text\<close> is not idempotent,
    that an escape can survive it, dead table entries; also, as lemmas, idempotence of the
    whitespace pass and the whitespace left.
  \<^item> Viewer (C16, C24, C26, C27; theory \<open>Viewer\<close>): the link target the script computes
    from a header \<open>render_page\<close> wrote is a link \<open>_generate_index_links\<close> wrote for every
    processed page; the font size and line height stay within the script's limits; the
    two display modes exclude each other; the index completion keeps, adds without
    repeats, and is idempotent.
  \<^item> Resume (C31--C35, C37; theory \<open>Resume\<close>): the processed pages never shrink within a
    run; a run cut short by a service error at page \<open>k\<close> is completed by the next run,
    which resumes at \<open>k\<close>; a progress file that is not a record aborts the run; an
    unreadable input leaves no partial state; a PDF of no pages reports an output path it
    never wrote; the printed resume call skips the page that failed. These compose
    \<open>process_pdf_service_error_run\<close>, \<open>process_pdf_fresh_run\<close> and \<open>process_pdf_frame\<close>.
  \<^item> Script (C36; theory \<open>Script\<close>): the module script returns \<open>None\<close> and writes no
    file, whatever the file system holds.
  Every claim with a hypothesis has a witness \<open>..._witness\<close> at a concrete input; most
  use the one-page document of \<open>sample_env\<close> in theory \<open>Pipeline\<close>.

  \<^bold>\<open>Bounds and termination.\<close> No fuel is needed: the loops of the program run over a list
  (\<open>range(current_page, total_pages)\<close>, the replacement table, the string, the page
  headers) and are structural recursion; \<open>collapse_whitespace\<close> and \<open>find_all\<close> are
  \<open>function\<close>s whose termination is proved by the measure \<open>length\<close>.

  \<^bold>\<open>Not modelled.\<close> The recognition service itself, PDF rasterisation and image decoding
  (parameters of the model: the page images are the list held by a \<open>Pdf_File\<close>); the
  float formatting of \<open>round(..., 2)\<close> (a parameter; the progress file keeps its operands,
  \<open>Pct_round2\<close>); \<open>print\<close>, except the resume call, whose text is \<open>resume_hint\<close>; the CSS
  rules of the viewer (presentation) and its scroll to the URL's fragment on load (lines
  471--477, browser navigation); JSON serialisation (the progress file holds the
  record itself); the global configuration of \<open>google.generativeai\<close> beyond the key it is
  given; the commented-out calls of the script (lines 643--646); Unicode decimal digits
  other than ASCII in \<open>\d\<close> (the program only writes ASCII digits); a write that fails after
  \<open>open(..., "w")\<close> has truncated the file (the model writes a file whole or not at all);
  a JSON \<open>null\<close> for \<open>processed_pages\<close>, read as a missing key; \<open>fitz.open\<close> on an image
  file, which the model counts as unreadable.
\<close>

end
